(* ===== verification/Prelude.thy ===== *)
theory Prelude
  imports Complex_Main
begin

text \<open>
  Shared material of the development: the fact collections the component theories fill,
  and generic lemmas on options, lists, maps and rationals that several components use.
  Times are rational numbers of seconds; path names and file contents are character lists.
\<close>

named_theorems wp_simps
  \<open>equations of the weakest-precondition calculus, one per effect combinator\<close>

named_theorems eff_intros
  \<open>introduction rules for effect relations, one per combinator and per system call\<close>

type_synonym time = rat
type_synonym path = string
type_synonym ino = nat
type_synonym fd = nat
type_synonym pid = nat

section \<open>Options and lists\<close>

lemma case_option_fun_apply:
  "(case x of None \<Rightarrow> f | Some y \<Rightarrow> g y) s = (case x of None \<Rightarrow> f s | Some y \<Rightarrow> g y s)"
  by (cases x) simp_all

lemma list_ex_upt_iff: "list_ex P [0..<n] \<longleftrightarrow> (\<exists>g<n. P g)"
  by (auto simp: list_ex_iff)

lemma find_Some_in: "find P xs = Some x \<Longrightarrow> x \<in> set xs \<and> P x"
  by (induction xs) (auto split: if_splits)

lemma find_None_all: "find P xs = None \<Longrightarrow> x \<in> set xs \<Longrightarrow> \<not> P x"
  by (induction xs) (auto split: if_splits)

section \<open>Text\<close>

text \<open>\<^verbatim>\<open>str.strip()\<close> on ASCII text: white space is 9 to 13, 28 to 31 and the blank.\<close>

definition py_space :: "char \<Rightarrow> bool" where
  "py_space c \<longleftrightarrow> (let n = (of_char c :: nat) in (9 \<le> n \<and> n \<le> 13) \<or> (28 \<le> n \<and> n \<le> 32))"

definition py_strip :: "string \<Rightarrow> string" where
  "py_strip s = rev (dropWhile py_space (rev (dropWhile py_space s)))"

section \<open>Rational arithmetic of the retry schedule\<close>

lemma nat_ceiling_shrink:
  assumes "(x' :: rat) + 1 \<le> x" "1 < x"
  shows "nat \<lceil>x'\<rceil> < nat \<lceil>x\<rceil>"
proof -
  have "\<lceil>x' + 1\<rceil> \<le> \<lceil>x\<rceil>" using assms(1) by (rule ceiling_mono)
  moreover have "1 < \<lceil>x\<rceil>" using assms(2) by (simp add: less_ceiling_iff)
  ultimately show ?thesis by simp
qed

end
