(* ===== verification/Exceptions.thy ===== *)
theory Exceptions
  imports Prelude
begin

text \<open>
  The exception values of the program: the classes of \<^verbatim>\<open>portalocker/exceptions.py\<close> in Python's
  class hierarchy, exception instances with the attributes the code reads or writes
  (\<^verbatim>\<open>args\<close>, \<^verbatim>\<open>fh\<close>, \<^verbatim>\<open>strerror\<close>, \<^verbatim>\<open>holder_pid\<close>, \<^verbatim>\<open>__cause__\<close>, \<^verbatim>\<open>__context__\<close>, notes), and
  the two initialisers the module defines. Texts that come from the C library or from
  \<^verbatim>\<open>str()\<close> of another exception are kept symbolic (\<^verbatim>\<open>AErrText\<close>, \<^verbatim>\<open>AStrOf\<close>), and an f-string is
  the list of its pieces (\<^verbatim>\<open>AJoin\<close>).
\<close>

section \<open>Classes\<close>

text \<open>
  \<^verbatim>\<open>OSError\<close> and its subclasses are one constructor with the errno: Python picks
  \<^verbatim>\<open>FileNotFoundError\<close>, \<^verbatim>\<open>FileExistsError\<close> and \<^verbatim>\<open>PermissionError\<close> from the number.
\<close>

datatype xcls =
    CBaseException
  | CException
  | CKeyboardInterrupt
  | COSError int
  | CEOFError
  | CValueError
  | CUnicodeDecodeError
  | CTypeError
  | CAttributeError
  | CRuntimeError
  | CAssertionError
  | CImportError
  | CNotImplementedError
  | CUserException string
  | CPyWinError int
  | CBaseLockException
  | CLockException
  | CAlreadyLocked
  | CFileToLarge

fun parent_class :: "xcls \<Rightarrow> xcls option" where
  "parent_class CBaseException = None"
| "parent_class CException = Some CBaseException"
| "parent_class CKeyboardInterrupt = Some CBaseException"
| "parent_class CUnicodeDecodeError = Some CValueError"
| "parent_class CNotImplementedError = Some CRuntimeError"
| "parent_class CBaseLockException = Some CException"
| "parent_class CLockException = Some CBaseLockException"
| "parent_class CAlreadyLocked = Some CLockException"
| "parent_class CFileToLarge = Some CLockException"
| "parent_class _ = Some CException"

fun class_depth :: "xcls \<Rightarrow> nat" where
  "class_depth CBaseException = 0"
| "class_depth CException = 1"
| "class_depth CKeyboardInterrupt = 1"
| "class_depth CUnicodeDecodeError = 3"
| "class_depth CNotImplementedError = 3"
| "class_depth CLockException = 3"
| "class_depth CAlreadyLocked = 4"
| "class_depth CFileToLarge = 4"
| "class_depth _ = 2"

lemma parent_class_depth: "parent_class c = Some d \<Longrightarrow> class_depth d < class_depth c"
  by (cases c) auto

function issubclass :: "xcls \<Rightarrow> xcls \<Rightarrow> bool" where
  "issubclass c d =
     (c = d \<or> (case parent_class c of None \<Rightarrow> False | Some p \<Rightarrow> issubclass p d))"
  by pat_completeness auto
termination
  by (relation "measure (\<lambda>(c, d). class_depth c)") (auto dest: parent_class_depth)

declare issubclass.simps [simp del]

abbreviation is_Exception :: "xcls \<Rightarrow> bool" where
  "is_Exception c \<equiv> issubclass c CException"

abbreviation is_LockException :: "xcls \<Rightarrow> bool" where
  "is_LockException c \<equiv> issubclass c CLockException"

abbreviation is_AlreadyLocked :: "xcls \<Rightarrow> bool" where
  "is_AlreadyLocked c \<equiv> issubclass c CAlreadyLocked"

text \<open>The instances of \<^const>\<open>issubclass\<close> that the handlers of the code test.\<close>

lemma is_Exception_iff [simp]:
  "is_Exception c \<longleftrightarrow> c \<noteq> CBaseException \<and> c \<noteq> CKeyboardInterrupt"
  by (cases c) (simp_all add: issubclass.simps)

lemma is_LockException_iff [simp]:
  "is_LockException c \<longleftrightarrow> c = CLockException \<or> c = CAlreadyLocked \<or> c = CFileToLarge"
  by (cases c) (simp_all add: issubclass.simps)

lemma is_AlreadyLocked_iff [simp]: "is_AlreadyLocked c \<longleftrightarrow> c = CAlreadyLocked"
  by (cases c) (simp_all add: issubclass.simps)

lemma is_ValueError_iff [simp]:
  "issubclass c CValueError \<longleftrightarrow> c = CValueError \<or> c = CUnicodeDecodeError"
  by (cases c) (simp_all add: issubclass.simps)

section \<open>Error numbers\<close>

definition EPERM :: int where "EPERM = 1"
definition ENOENT :: int where "ENOENT = 2"
definition EBADF :: int where "EBADF = 9"
definition EAGAIN :: int where "EAGAIN = 11"
definition EACCES :: int where "EACCES = 13"
definition EEXIST :: int where "EEXIST = 17"
definition EINVAL :: int where "EINVAL = 22"
definition EDEADLOCK :: int where "EDEADLOCK = 36"
definition ENOTSUP :: int where "ENOTSUP = 95"

lemmas errno_defs =
  EPERM_def ENOENT_def EBADF_def EAGAIN_def EACCES_def EEXIST_def EINVAL_def EDEADLOCK_def
  ENOTSUP_def

definition is_FileNotFoundError :: "xcls \<Rightarrow> bool" where
  "is_FileNotFoundError c \<longleftrightarrow> c = COSError ENOENT"

definition is_PermissionError :: "xcls \<Rightarrow> bool" where
  "is_PermissionError c \<longleftrightarrow> c = COSError EACCES \<or> c = COSError EPERM"

definition is_OSError :: "xcls \<Rightarrow> bool" where
  "is_OSError c \<longleftrightarrow> (case c of COSError _ \<Rightarrow> True | _ \<Rightarrow> False)"

section \<open>Arguments of the locking functions\<close>

text \<open>
  \<^verbatim>\<open>types.FileArgument\<close>: a raw descriptor, a file object, an object that only offers
  \<^verbatim>\<open>fileno()\<close>, and anything else (which the code rejects).
\<close>

datatype filearg =
    FInt fd
  | FFile fd
  | FHasFileno fd
  | FOther

section \<open>Exception instances\<close>

datatype exn =
  Exn (exn_class: xcls) (exn_args: "xarg list") (exn_fh: "filearg option")
      (exn_strerror: "xarg option") (exn_holder: "int option") (exn_cause: "exn option")
      (exn_context: "exn option") (exn_notes: "string list")
and xarg =
    AInt int
  | AStr string
  | AErrText int
  | AWinText int
  | AStrOf exn
  | AJoin "xarg list"
  | AExn exn

fun is_str_arg :: "xarg \<Rightarrow> bool" where
  "is_str_arg (AInt _) = False"
| "is_str_arg (AExn _) = False"
| "is_str_arg _ = True"

definition plain_exn :: "xcls \<Rightarrow> xarg list \<Rightarrow> exn" where
  "plain_exn c args = Exn c args None None None None None []"

definition os_error :: "int \<Rightarrow> exn" where
  "os_error n = Exn (COSError n) [AInt n, AErrText n] None (Some (AErrText n)) None None None []"

fun set_cause :: "exn \<Rightarrow> exn \<Rightarrow> exn" where
  "set_cause (Exn c as fh se hp _ cx ns) e = Exn c as fh se hp (Some e) cx ns"

fun set_context :: "exn \<Rightarrow> exn option \<Rightarrow> exn" where
  "set_context (Exn c as fh se hp ca _ ns) e = Exn c as fh se hp ca e ns"

fun add_note :: "exn \<Rightarrow> string \<Rightarrow> exn" where
  "add_note (Exn c as fh se hp ca cx ns) n = Exn c as fh se hp ca cx (ns @ [n])"

fun set_holder_pid :: "exn \<Rightarrow> int option \<Rightarrow> exn" where
  "set_holder_pid (Exn c as fh se _ ca cx ns) p = Exn c as fh se p ca cx ns"

lemma set_exn_selectors [simp]:
  "exn_class (set_cause e c) = exn_class e"
  "exn_args (set_cause e c) = exn_args e"
  "exn_cause (set_cause e c) = Some c"
  "exn_class (set_context e x) = exn_class e"
  "exn_args (set_context e x) = exn_args e"
  "exn_args (add_note e n) = exn_args e"
  "exn_context (set_context e x) = x"
  "exn_cause (set_context e x) = exn_cause e"
  "exn_class (add_note e n) = exn_class e"
  "exn_notes (add_note e n) = exn_notes e @ [n]"
  "exn_class (set_holder_pid e p) = exn_class e"
  "exn_args (set_holder_pid e p) = exn_args e"
  "exn_cause (set_holder_pid e p) = exn_cause e"
  "exn_holder (set_holder_pid e p) = p"
  by (cases e; simp)+

lemma exn_class_constructors [simp]:
  "exn_class (plain_exn c as) = c"
  "exn_class (os_error n) = COSError n"
  by (simp_all add: plain_exn_def os_error_def)

section \<open>The initialisers of \<^verbatim>\<open>exceptions.py\<close>\<close>

definition LOCK_FAILED :: int where
  "LOCK_FAILED = 1"

definition base_lock_exception_init ::
  "xcls \<Rightarrow> xarg list \<Rightarrow> filearg option \<Rightarrow> exn" where
  "base_lock_exception_init c args fh =
     Exn c args fh
       (if length args > 1 \<and> is_str_arg (args ! 1) then Some (args ! 1) else None)
       None None None []"

definition already_locked_init ::
  "xarg list \<Rightarrow> filearg option \<Rightarrow> int option \<Rightarrow> exn" where
  "already_locked_init args fh holder_pid =
     set_holder_pid (base_lock_exception_init CAlreadyLocked args fh) holder_pid"

definition LockException :: "xarg list \<Rightarrow> filearg option \<Rightarrow> exn" where
  "LockException args fh = base_lock_exception_init CLockException args fh"

definition AlreadyLocked :: "xarg list \<Rightarrow> filearg option \<Rightarrow> exn" where
  "AlreadyLocked args fh = already_locked_init args fh None"

lemma lock_exn_class [simp]:
  "exn_class (base_lock_exception_init c as fh) = c"
  "exn_class (LockException as fh) = CLockException"
  "exn_class (AlreadyLocked as fh) = CAlreadyLocked"
  "exn_args (LockException as fh) = as"
  "exn_args (AlreadyLocked as fh) = as"
  "exn_cause (LockException as fh) = None"
  "exn_cause (AlreadyLocked as fh) = None"
  by (simp_all add: LockException_def AlreadyLocked_def already_locked_init_def
      base_lock_exception_init_def)

end
