(* ===== verification/PyMonad.thy ===== *)
theory PyMonad
  imports Exceptions
begin

text \<open>
  The effects of the program. An action takes a state and gives an outcome and the new state;
  the outcome is a value, a raised exception, or \<open>Hang\<close>: the call never returns (a blocking
  system call whose lock is never released, or a loop that runs out of its fuel, which the
  termination theorems exclude). The combinators are Python's statements: sequencing, \<^verbatim>\<open>raise\<close>,
  \<^verbatim>\<open>try/except\<close>, \<^verbatim>\<open>try/finally\<close>, \<^verbatim>\<open>contextlib.suppress\<close> and a \<^verbatim>\<open>for\<close> loop over a generator.
  A weakest-precondition calculus and effect relations carry the proofs of the components.
\<close>

datatype 'a res = Done 'a | Raise exn | Hang

type_synonym ('s, 'a) act = "'s \<Rightarrow> 'a res \<times> 's"

section \<open>Combinators\<close>

definition ret :: "'a \<Rightarrow> ('s, 'a) act" where
  "ret x = (\<lambda>s. (Done x, s))"

definition throw :: "exn \<Rightarrow> ('s, 'a) act" where
  "throw e = (\<lambda>s. (Raise e, s))"

definition hang :: "('s, 'a) act" where
  "hang = (\<lambda>s. (Hang, s))"

definition andthen :: "('s, 'a) act \<Rightarrow> ('a \<Rightarrow> ('s, 'b) act) \<Rightarrow> ('s, 'b) act" where
  "andthen m f = (\<lambda>s. case m s of
      (Done x, t) \<Rightarrow> f x t
    | (Raise e, t) \<Rightarrow> (Raise e, t)
    | (Hang, t) \<Rightarrow> (Hang, t))"

text \<open>\<^verbatim>\<open>try: m\<close> with a handler that sees every exception; it re-throws what it does not catch.\<close>

definition try_except :: "('s, 'a) act \<Rightarrow> (exn \<Rightarrow> ('s, 'a) act) \<Rightarrow> ('s, 'a) act" where
  "try_except m h = (\<lambda>s. case m s of
      (Done x, t) \<Rightarrow> (Done x, t)
    | (Raise e, t) \<Rightarrow> h e t
    | (Hang, t) \<Rightarrow> (Hang, t))"

text \<open>
  \<^verbatim>\<open>try: m except E as e: h1 else: h2\<close>: the handler's alternative runs after a normal end and
  is not protected by it.
\<close>

definition try_else ::
  "('s, 'a) act \<Rightarrow> (exn \<Rightarrow> ('s, 'b) act) \<Rightarrow> ('a \<Rightarrow> ('s, 'b) act) \<Rightarrow> ('s, 'b) act" where
  "try_else m h k = (\<lambda>s. case m s of
      (Done x, t) \<Rightarrow> k x t
    | (Raise e, t) \<Rightarrow> h e t
    | (Hang, t) \<Rightarrow> (Hang, t))"

definition try_finally :: "('s, 'a) act \<Rightarrow> ('s, unit) act \<Rightarrow> ('s, 'a) act" where
  "try_finally m fin =
     try_else m (\<lambda>e. andthen fin (\<lambda>_. throw e)) (\<lambda>x. andthen fin (\<lambda>_. ret x))"

text \<open>\<^verbatim>\<open>except Exception as e\<close>, with the exception as a value: \<open>None\<close> when there was none.\<close>

definition catch_Exception :: "('s, unit) act \<Rightarrow> ('s, exn option) act" where
  "catch_Exception m =
     try_else m (\<lambda>e. if is_Exception (exn_class e) then ret (Some e) else throw e)
       (\<lambda>_. ret None)"

definition suppress :: "(xcls \<Rightarrow> bool) \<Rightarrow> ('s, unit) act \<Rightarrow> ('s, unit) act" where
  "suppress P m = try_except m (\<lambda>e. if P (exn_class e) then ret () else throw e)"

definition gets :: "('s \<Rightarrow> 'a) \<Rightarrow> ('s, 'a) act" where
  "gets f = (\<lambda>s. (Done (f s), s))"

definition modify :: "('s \<Rightarrow> 's) \<Rightarrow> ('s, unit) act" where
  "modify f = (\<lambda>s. (Done (), f s))"

definition on_cond :: "bool \<Rightarrow> ('s, unit) act \<Rightarrow> ('s, unit) act" where
  "on_cond b m = (if b then m else ret ())"

text \<open>
  A \<^verbatim>\<open>for\<close> loop over a generator. \<open>nx\<close> resumes the generator: \<open>None\<close> when it is exhausted,
  otherwise the yielded number and the generator's next state. The body either goes on with
  new values of the loop's local variables or leaves the loop (\<^verbatim>\<open>break\<close>, \<^verbatim>\<open>return\<close>).
\<close>

datatype ('a, 'b) flow = Cont 'a | Leave 'b

fun for_gen ::
  "nat \<Rightarrow> ('g \<Rightarrow> ('s, (nat \<times> 'g) option) act) \<Rightarrow> 'g \<Rightarrow> 'a
    \<Rightarrow> (nat \<Rightarrow> 'a \<Rightarrow> ('s, ('a, 'b) flow) act) \<Rightarrow> ('s, ('a, 'b) flow) act" where
  "for_gen 0 nx g a body = hang"
| "for_gen (Suc n) nx g a body =
     andthen (nx g) (\<lambda>y. case y of
         None \<Rightarrow> ret (Cont a)
       | Some (i, g') \<Rightarrow> andthen (body i a) (\<lambda>r. case r of
             Leave b \<Rightarrow> ret (Leave b)
           | Cont a' \<Rightarrow> for_gen n nx g' a' body))"

lemma for_gen_numeral [simp]:
  "for_gen (numeral k) nx g a body =
     andthen (nx g) (\<lambda>y. case y of
         None \<Rightarrow> ret (Cont a)
       | Some (i, g') \<Rightarrow> andthen (body i a) (\<lambda>r. case r of
             Leave b \<Rightarrow> ret (Leave b)
           | Cont a' \<Rightarrow> for_gen (pred_numeral k) nx g' a' body))"
  by (simp add: numeral_eq_Suc)

lemmas act_defs =
  ret_def throw_def hang_def andthen_def try_except_def try_else_def try_finally_def
  catch_Exception_def suppress_def gets_def modify_def on_cond_def

lemma andthen_Done: "m s = (Done x, t) \<Longrightarrow> f x t = y \<Longrightarrow> andthen m f s = y"
  by (simp add: andthen_def)

lemma try_except_Done: "m s = (Done x, t) \<Longrightarrow> try_except m h s = (Done x, t)"
  by (simp add: try_except_def)

section \<open>Weakest preconditions\<close>

text \<open>
  \<open>wp h m Q E s\<close>: from \<open>s\<close>, \<open>m\<close> ends normally with \<open>Q\<close>, or raises with \<open>E\<close>, or hangs, which
  is allowed only if \<open>h\<close>. With \<open>h = False\<close> it is total correctness.
\<close>

definition wp ::
  "bool \<Rightarrow> ('s, 'a) act \<Rightarrow> ('a \<Rightarrow> 's \<Rightarrow> bool) \<Rightarrow> (exn \<Rightarrow> 's \<Rightarrow> bool) \<Rightarrow> 's \<Rightarrow> bool" where
  "wp h m Q E s \<longleftrightarrow> (case m s of
      (Done x, t) \<Rightarrow> Q x t
    | (Raise e, t) \<Rightarrow> E e t
    | (Hang, t) \<Rightarrow> h)"

lemma wp_ret [wp_simps]: "wp h (ret x) Q E = Q x"
  by (rule ext) (simp add: wp_def ret_def)

lemma wp_throw [wp_simps]: "wp h (throw e) Q E = E e"
  by (rule ext) (simp add: wp_def throw_def)

lemma wp_hang [wp_simps]: "wp h hang Q E = (\<lambda>_. h)"
  by (rule ext) (simp add: wp_def hang_def)

lemma wp_andthen [wp_simps]: "wp h (andthen m f) Q E = wp h m (\<lambda>x. wp h (f x) Q E) E"
  by (rule ext) (auto simp: wp_def andthen_def split: prod.splits res.splits)

lemma wp_try_else [wp_simps]:
  "wp h (try_else m hh k) Q E = wp h m (\<lambda>x. wp h (k x) Q E) (\<lambda>e. wp h (hh e) Q E)"
  by (rule ext) (auto simp: wp_def try_else_def split: prod.splits res.splits)

lemma wp_try_except [wp_simps]:
  "wp h (try_except m hh) Q E = wp h m Q (\<lambda>e. wp h (hh e) Q E)"
  by (rule ext) (auto simp: wp_def try_except_def split: prod.splits res.splits)

lemma wp_try_finally [wp_simps]:
  "wp h (try_finally m fin) Q E =
     wp h m (\<lambda>x. wp h fin (\<lambda>_. Q x) E) (\<lambda>e. wp h fin (\<lambda>_. E e) E)"
  by (simp add: try_finally_def wp_simps)

lemma wp_if [wp_simps]: "wp h (if b then m else n) Q E = (if b then wp h m Q E else wp h n Q E)"
  by simp

lemma wp_catch_Exception [wp_simps]:
  "wp h (catch_Exception m) Q E =
     wp h m (\<lambda>_. Q None) (\<lambda>e. if is_Exception (exn_class e) then Q (Some e) else E e)"
  by (simp add: catch_Exception_def wp_simps cong: if_cong del: is_Exception_iff)

lemma wp_suppress [wp_simps]:
  "wp h (suppress P m) Q E =
     wp h m Q (\<lambda>e. if P (exn_class e) then Q () else E e)"
  by (simp add: suppress_def wp_simps cong: if_cong)

lemma wp_gets [wp_simps]: "wp h (gets f) Q E = (\<lambda>s. Q (f s) s)"
  by (rule ext) (simp add: wp_def gets_def)

lemma wp_modify [wp_simps]: "wp h (modify f) Q E = (\<lambda>s. Q () (f s))"
  by (rule ext) (simp add: wp_def modify_def)

lemma wp_on_cond [wp_simps]: "wp h (on_cond b m) Q E = (if b then wp h m Q E else Q ())"
  by (simp add: on_cond_def wp_simps)

lemma wp_case_option [wp_simps]:
  "wp h (case x of None \<Rightarrow> m | Some y \<Rightarrow> f y) Q E =
     (case x of None \<Rightarrow> wp h m Q E | Some y \<Rightarrow> wp h (f y) Q E)"
  by (cases x) simp_all

lemma if_apply [wp_simps]: "(if b then f else g) s = (if b then f s else g s)"
  by simp

lemmas case_option_apply [wp_simps] = case_option_fun_apply

lemma wp_mono:
  assumes "wp h m Q E s" "\<And>x t. Q x t \<Longrightarrow> Q' x t" "\<And>e t. E e t \<Longrightarrow> E' e t" "h \<longrightarrow> h'"
  shows "wp h' m Q' E' s"
  using assms by (auto simp: wp_def split: prod.splits res.splits)

lemma wp_run_cong: "m s = m' s \<Longrightarrow> wp h m Q E s = wp h m' Q E s"
  by (simp add: wp_def)

text \<open>Hoare-style sequencing, for long chains of calls that keep one assertion.\<close>

lemma wp_andthenI:
  assumes "wp h m (\<lambda>_. J) E s" "\<And>x t. J t \<Longrightarrow> wp h (f x) Q E t"
  shows "wp h (andthen m f) Q E s"
  unfolding wp_andthen by (rule wp_mono [OF assms(1)]) (use assms(2) in auto)

lemma wp_conj:
  assumes "wp h m Q E s" "wp h' m Q' E' s"
  shows "wp (h \<and> h') m (\<lambda>x t. Q x t \<and> Q' x t) (\<lambda>e t. E e t \<and> E' e t) s"
  using assms by (auto simp: wp_def split: prod.splits res.splits)

lemma wp_DoneD: "wp h m Q E s \<Longrightarrow> m s = (Done x, t) \<Longrightarrow> Q x t"
  by (simp add: wp_def)

lemma wp_RaiseD: "wp h m Q E s \<Longrightarrow> m s = (Raise e, t) \<Longrightarrow> E e t"
  by (simp add: wp_def)

lemma wp_no_hang: "wp False m Q E s \<Longrightarrow> fst (m s) \<noteq> Hang"
  by (auto simp: wp_def split: prod.splits res.splits)

lemma wpI:
  assumes "\<And>x t. m s = (Done x, t) \<Longrightarrow> Q x t" "\<And>e t. m s = (Raise e, t) \<Longrightarrow> E e t"
    and "\<And>t. m s = (Hang, t) \<Longrightarrow> h"
  shows "wp h m Q E s"
  using assms by (auto simp: wp_def split: prod.splits res.splits)

text \<open>
  The rule of the loop: an invariant of the generator's state and the loop's variables, and a
  measure that every round decreases and that the fuel exceeds.
\<close>

lemma wp_for_gen_measure:
  assumes inv: "Inv g a s" and fuel: "M g s < n"
    and step: "\<And>g a s. Inv g a s \<Longrightarrow>
      wp h (nx g)
        (\<lambda>y t. case y of None \<Rightarrow> Q (Cont a) t
            | Some (i, g') \<Rightarrow> wp h (body i a)
                (\<lambda>r u. case r of Leave b \<Rightarrow> Q (Leave b) u
                   | Cont a' \<Rightarrow> Inv g' a' u \<and> M g' u < M g s) E t)
        E s"
  shows "wp h (for_gen n nx g a body) Q E s"
  using inv fuel
proof (induction n arbitrary: g a s)
  case 0
  then show ?case by simp
next
  case (Suc n)
  have "wp h (nx g)
        (\<lambda>y t. case y of None \<Rightarrow> Q (Cont a) t
            | Some (i, g') \<Rightarrow> wp h (body i a)
                (\<lambda>r u. case r of Leave b \<Rightarrow> Q (Leave b) u
                   | Cont a' \<Rightarrow> Inv g' a' u \<and> M g' u < M g s) E t)
        E s"
    by (rule step [OF Suc.prems(1)])
  then show ?case
    unfolding for_gen.simps wp_andthen
  proof (rule wp_mono)
    fix y t
    assume y: "case y of None \<Rightarrow> Q (Cont a) t
        | Some (i, g') \<Rightarrow> wp h (body i a)
            (\<lambda>r u. case r of Leave b \<Rightarrow> Q (Leave b) u
               | Cont a' \<Rightarrow> Inv g' a' u \<and> M g' u < M g s) E t"
    show "wp h (case y of None \<Rightarrow> ret (Cont a)
        | Some (i, g') \<Rightarrow> andthen (body i a) (\<lambda>r. case r of
              Cont a' \<Rightarrow> for_gen n nx g' a' body | Leave b \<Rightarrow> ret (Leave b))) Q E t"
    proof (cases y)
      case None
      with y show ?thesis by (simp add: wp_simps)
    next
      case (Some p)
      with y Suc.prems(2) show ?thesis
        by (cases p) (auto simp: wp_simps elim!: wp_mono split: flow.splits intro!: Suc.IH)
    qed
  qed simp_all
qed

end
