(* ===== verification/LockFlags.thy ===== *)
theory LockFlags
  imports Exceptions
begin

text \<open>
  \<^verbatim>\<open>portalocker/constants.py\<close> and the mode strings of \<^verbatim>\<open>portalocker/types.py\<close>. The module picks
  its constants by \<^verbatim>\<open>os.name\<close> when it is imported, so each constant is a function of the platform.
  A \<^verbatim>\<open>LockFlags\<close> value is Python's \<^verbatim>\<open>IntFlag\<close>: an integer combined with \<^verbatim>\<open>|\<close> and tested with \<^verbatim>\<open>&\<close>.
\<close>

unbundle bit_operations_syntax

datatype platform = POSIX | NT

text \<open>The dispatch on \<^verbatim>\<open>os.name\<close>, with the \<^verbatim>\<open>RuntimeError\<close> of the last branch.\<close>

definition platform_of_name :: "string \<Rightarrow> exn + platform" where
  "platform_of_name name =
     (if name = ''nt'' then Inr NT
      else if name = ''posix'' then Inr POSIX
      else Inl (plain_exn CRuntimeError
        [AStr ''PortaLocker only defined for nt and posix platforms'']))"

text \<open>
  \<^verbatim>\<open>fcntl.LOCK_EX\<close>, \<^verbatim>\<open>LOCK_SH\<close>, \<^verbatim>\<open>LOCK_NB\<close>, \<^verbatim>\<open>LOCK_UN\<close> are 2, 1, 4, 8 on POSIX systems;
  \<^verbatim>\<open>msvcrt.LK_UNLCK\<close> is 0.
\<close>

fun LOCK_EX :: "platform \<Rightarrow> int" where
  "LOCK_EX NT = 1"
| "LOCK_EX POSIX = 2"

fun LOCK_SH :: "platform \<Rightarrow> int" where
  "LOCK_SH NT = 2"
| "LOCK_SH POSIX = 1"

fun LOCK_NB :: "platform \<Rightarrow> int" where
  "LOCK_NB NT = 4"
| "LOCK_NB POSIX = 4"

fun LOCK_UN :: "platform \<Rightarrow> int" where
  "LOCK_UN NT = 0"
| "LOCK_UN POSIX = 8"

text \<open>The truth value of \<^verbatim>\<open>flags & member\<close>.\<close>

definition has_flag :: "int \<Rightarrow> int \<Rightarrow> bool" where
  "has_flag flags member \<longleftrightarrow> flags AND member \<noteq> 0"

text \<open>\<^verbatim>\<open>LOCK_METHOD\<close> of \<^verbatim>\<open>utils.py\<close>, the default flags of every file lock.\<close>

definition LOCK_METHOD :: "platform \<Rightarrow> int" where
  "LOCK_METHOD p = LOCK_EX p OR LOCK_NB p"

lemma LOCK_METHOD_simps [simp]:
  "LOCK_METHOD POSIX = 6" "LOCK_METHOD NT = 5"
  by (simp_all add: LOCK_METHOD_def)

lemma has_flag_simps [simp]:
  "has_flag (LOCK_METHOD p) (LOCK_NB p)"
  "has_flag (LOCK_METHOD p) (LOCK_EX p)"
  "\<not> has_flag (LOCK_METHOD p) (LOCK_SH p)"
  by (cases p; simp add: has_flag_def)+

text \<open>\<^verbatim>\<open>flags & LockFlags.NON_BLOCKING\<close>; the member has the same value on both platforms.\<close>

definition non_blocking :: "int \<Rightarrow> bool" where
  "non_blocking flags \<longleftrightarrow> has_flag flags 4"

lemma non_blocking_eq: "has_flag flags (LOCK_NB p) = non_blocking flags"
  by (cases p) (simp_all add: non_blocking_def)

lemma non_blocking_LOCK_METHOD [simp]: "non_blocking (LOCK_METHOD p)"
  using has_flag_simps(1) [of p] by (simp only: non_blocking_eq)

section \<open>Mode strings\<close>

text \<open>Every mode string \<^verbatim>\<open>types.Mode\<close> lists, in its order.\<close>

definition Mode :: "string list" where
  "Mode =
    [''r'', ''rt'', ''tr'',
     ''w'', ''wt'', ''tw'',
     ''a'', ''at'', ''ta'',
     ''x'', ''xt'', ''tx'',
     ''r+'', ''+r'', ''rt+'', ''r+t'', ''+rt'', ''tr+'', ''t+r'', ''+tr'',
     ''w+'', ''+w'', ''wt+'', ''w+t'', ''+wt'', ''tw+'', ''t+w'', ''+tw'',
     ''a+'', ''+a'', ''at+'', ''a+t'', ''+at'', ''ta+'', ''t+a'', ''+ta'',
     ''x+'', ''+x'', ''xt+'', ''x+t'', ''+xt'', ''tx+'', ''t+x'', ''+tx'',
     ''U'', ''rU'', ''Ur'', ''rtU'', ''rUt'', ''Urt'', ''trU'', ''tUr'', ''Utr'',
     ''rb'', ''br'',
     ''wb'', ''bw'',
     ''ab'', ''ba'',
     ''xb'', ''bx'',
     ''rb+'', ''r+b'', ''+rb'', ''br+'', ''b+r'', ''+br'',
     ''wb+'', ''w+b'', ''+wb'', ''bw+'', ''b+w'', ''+bw'',
     ''ab+'', ''a+b'', ''+ab'', ''ba+'', ''b+a'', ''+ba'',
     ''xb+'', ''x+b'', ''+xb'', ''bx+'', ''b+x'', ''+bx'',
     ''rbU'', ''rUb'', ''Urb'', ''brU'', ''bUr'', ''Ubr'']"

text \<open>
  What the built-in \<^verbatim>\<open>open\<close> makes of a mode string: exactly one of \<^verbatim>\<open>r w a x\<close>, at most one each
  of \<^verbatim>\<open>+ t b\<close>, not both \<^verbatim>\<open>t\<close> and \<^verbatim>\<open>b\<close>. The legacy \<^verbatim>\<open>U\<close> was removed in Python 3.11 and is
  rejected like any other letter. The result says how the file is opened and whether it is
  opened for updating.
\<close>

datatype open_kind = OpenRead | OpenWrite | OpenAppend | OpenExclusive

definition parse_mode :: "string \<Rightarrow> (open_kind \<times> bool) option" where
  "parse_mode m =
     (if \<not> distinct m \<or> \<not> list_all (\<lambda>c. c \<in> set ''rwaxtb+'') m
         \<or> (CHR ''t'' \<in> set m \<and> CHR ''b'' \<in> set m) then None
      else (case filter (\<lambda>c. c \<in> set ''rwax'') m of
          [c] \<Rightarrow> Some (if c = CHR ''r'' then OpenRead
                   else if c = CHR ''w'' then OpenWrite
                   else if c = CHR ''a'' then OpenAppend
                   else OpenExclusive, CHR ''+'' \<in> set m)
        | _ \<Rightarrow> None))"

text \<open>\<^verbatim>\<open>mode.replace('w', 'a')\<close> of \<^verbatim>\<open>Lock.__init__\<close>.\<close>

definition replace_w :: "string \<Rightarrow> string" where
  "replace_w m = map (\<lambda>c. if c = CHR ''w'' then CHR ''a'' else c) m"

lemma replace_w_no_w: "CHR ''w'' \<notin> set (replace_w m)"
  by (auto simp: replace_w_def)

end
