(* ===== verification/OsModel.thy ===== *)
theory OsModel
  imports PyMonad LockFlags
begin

text \<open>
  The part of the operating system and of Python's standard library that the program uses:
  a file system of inodes and names, file objects, the \<^verbatim>\<open>flock\<close>/\<^verbatim>\<open>lockf\<close> tables, the byte-range
  locks of \<^verbatim>\<open>msvcrt.locking\<close>, the clock. Other processes and failing calls come from a tape: before
  every call one cell is consumed, which lists what other processes did since the last call and
  may make the call fail. A theorem that holds for every tape holds for every interleaving and
  every sequence of failures; an empty tape is a quiet system.
\<close>

section \<open>State\<close>

text \<open>Shared and exclusive locks, ordered by strength: two locks conflict when one is exclusive.\<close>

datatype lmode = Sh | Ex

instantiation lmode :: linorder
begin

definition less_eq_lmode :: "lmode \<Rightarrow> lmode \<Rightarrow> bool" where
  "less_eq_lmode a b \<longleftrightarrow> a = Sh \<or> b = Ex"

definition less_lmode :: "lmode \<Rightarrow> lmode \<Rightarrow> bool" where
  "less_lmode a b \<longleftrightarrow> a = Sh \<and> b = Ex"

instance
proof
  fix x y z :: lmode
  show "(x < y) = (x \<le> y \<and> \<not> y \<le> x)"
    by (cases x; cases y) (simp_all add: less_eq_lmode_def less_lmode_def)
  show "x \<le> x" by (cases x) (simp_all add: less_eq_lmode_def)
  show "x \<le> y \<Longrightarrow> y \<le> z \<Longrightarrow> x \<le> z" by (cases x; cases y) (simp_all add: less_eq_lmode_def)
  show "x \<le> y \<Longrightarrow> y \<le> x \<Longrightarrow> x = y" by (cases x; cases y) (simp_all add: less_eq_lmode_def)
  show "x \<le> y \<or> y \<le> x" by (cases x; cases y) (simp_all add: less_eq_lmode_def)
qed

end

lemma max_lmode [simp]:
  "max Ex m = Ex" "max m Ex = Ex" "max Sh Sh = Sh"
  by (cases m; simp add: max_def less_eq_lmode_def)+

lemma max_lmode_Sh_iff [simp]: "max a b = Sh \<longleftrightarrow> a = Sh \<and> b = Sh"
  by (cases a; cases b) simp_all

lemma lmode_not_Ex_iff: "(m :: lmode) \<noteq> Ex \<longleftrightarrow> m = Sh"
  by (cases m) simp_all

text \<open>
  A handle is a Python file object with its open file description; closing it removes it from
  the table and a number is never used twice. \<open>h_buf\<close> is text written but not yet flushed.
\<close>

record handle =
  h_ino :: ino
  h_owner :: pid
  h_writable :: bool
  h_readable :: bool
  h_append :: bool
  h_pos :: nat
  h_buf :: string

datatype fault = FErrno int | FEOF

datatype env_event =
    EvTick time
  | EvOpen pid path
  | EvFlock fd lmode
  | EvUnlock fd
  | EvClose fd
  | EvUnlink path
  | EvWrite fd string

text \<open>
  The calls of the third-party package \<^verbatim>\<open>pywin32\<close>: \<^verbatim>\<open>LockFileEx\<close> with its flags, \<^verbatim>\<open>UnlockFileEx\<close>.
  The package is not part of the program, so its answer to a call is a part of the cell: \<open>None\<close>
  for success, or the \<^verbatim>\<open>winerror\<close> of the \<^verbatim>\<open>pywintypes.error\<close> it raises.
\<close>

datatype win_op = LockFileEx int | UnlockFileEx

record cell =
  c_env :: "env_event list"
  c_fault :: "fault option"
  c_win :: "win_op \<Rightarrow> int option"

text \<open>The locker classes of \<^verbatim>\<open>portalocker.py\<close> and the forms \<^verbatim>\<open>LOCKER\<close> may take.\<close>

datatype prim = FcntlFlock | FcntlLockf

datatype lcls =
    BaseLockerC
  | PosixLockerC
  | FlockLockerC
  | LockfLockerC
  | Win32LockerC
  | MsvcrtLockerC

record linst =
  li_cls :: lcls
  li_win32 :: bool

datatype lockerval =
    LCallable prim
  | LInstance linst
  | LPair linst linst
  | LClass lcls

record world =
  plat :: platform
  mypid :: pid
  pywin32 :: bool
  clock :: time
  paths :: "path \<rightharpoonup> ino"
  content :: "ino \<Rightarrow> string"
  next_ino :: ino
  handles :: "fd \<rightharpoonup> handle"
  next_fd :: fd
  flocks :: "fd \<rightharpoonup> lmode"
  plocks :: "ino \<Rightarrow> (pid \<times> lmode) list"
  nlocks :: "(fd \<times> nat \<times> nat) list"
  locker :: lockerval
  locker_instances :: "lcls \<rightharpoonup> linst"
  warned :: "string list"
  tape :: "cell list"

definition init_world :: "platform \<Rightarrow> pid \<Rightarrow> world" where
  "init_world p i =
     \<lparr> plat = p, mypid = i, pywin32 = False, clock = 0, paths = Map.empty, content = (\<lambda>_. []),
       next_ino = 0, handles = Map.empty, next_fd = 0, flocks = Map.empty, plocks = (\<lambda>_. []),
       nlocks = [],
       locker = (case p of POSIX \<Rightarrow> LCallable FcntlFlock | NT \<Rightarrow> LClass MsvcrtLockerC),
       locker_instances = Map.empty, warned = [], tape = [] \<rparr>"

section \<open>Kernel operations\<close>

definition same_file :: "world \<Rightarrow> fd \<Rightarrow> fd \<Rightarrow> bool" where
  "same_file w f g = (case (handles w f, handles w g) of
      (Some h, Some h') \<Rightarrow> h_ino h = h_ino h'
    | _ \<Rightarrow> False)"

definition flock_conflict :: "world \<Rightarrow> fd \<Rightarrow> lmode \<Rightarrow> bool" where
  "flock_conflict w f m \<longleftrightarrow>
     list_ex (\<lambda>g. g \<noteq> f \<and> same_file w f g \<and>
       (case flocks w g of None \<Rightarrow> False | Some m' \<Rightarrow> max m m' = Ex)) [0..<next_fd w]"

definition new_handle :: "pid \<Rightarrow> ino \<Rightarrow> open_kind \<Rightarrow> bool \<Rightarrow> handle" where
  "new_handle p i k upd =
     \<lparr> h_ino = i, h_owner = p, h_writable = (k \<noteq> OpenRead \<or> upd),
       h_readable = (k = OpenRead \<or> upd), h_append = (k = OpenAppend), h_pos = 0, h_buf = [] \<rparr>"

definition add_handle :: "handle \<Rightarrow> world \<Rightarrow> world" where
  "add_handle h w = w\<lparr>handles := (handles w)(next_fd w \<mapsto> h), next_fd := Suc (next_fd w)\<rparr>"

definition create_file :: "path \<Rightarrow> world \<Rightarrow> world" where
  "create_file p w =
     w\<lparr>paths := (paths w)(p \<mapsto> next_ino w), content := (content w)(next_ino w := []),
       next_ino := Suc (next_ino w)\<rparr>"

text \<open>The built-in \<^verbatim>\<open>open\<close>.\<close>

definition k_open :: "pid \<Rightarrow> path \<Rightarrow> string \<Rightarrow> world \<Rightarrow> fd res \<times> world" where
  "k_open me p m w = (case parse_mode m of
      None \<Rightarrow> (Raise (plain_exn CValueError [AStr ''invalid mode'']), w)
    | Some (k, upd) \<Rightarrow> (case paths w p of
        None \<Rightarrow>
          if k = OpenRead then (Raise (os_error ENOENT), w)
          else (Done (next_fd w),
                add_handle (new_handle me (next_ino w) k upd) (create_file p w))
      | Some i \<Rightarrow>
          if k = OpenExclusive then (Raise (os_error EEXIST), w)
          else (Done (next_fd w),
                add_handle (new_handle me i k upd)
                  (if k = OpenWrite then w\<lparr>content := (content w)(i := [])\<rparr> else w))))"

definition drop_handle :: "fd \<Rightarrow> world \<Rightarrow> world" where
  "drop_handle f w = (case handles w f of
      None \<Rightarrow> w
    | Some h \<Rightarrow>
        w\<lparr>handles := (handles w)(f := None), flocks := (flocks w)(f := None),
          plocks := (plocks w)(h_ino h := filter (\<lambda>(p, m). p \<noteq> h_owner h) (plocks w (h_ino h))),
          nlocks := filter (\<lambda>(g, s, n). g \<noteq> f) (nlocks w)\<rparr>)"

text \<open>On Windows a name cannot be removed while a handle to its file is open.\<close>

definition file_in_use :: "world \<Rightarrow> ino \<Rightarrow> bool" where
  "file_in_use w i \<longleftrightarrow>
     list_ex (\<lambda>g. case handles w g of None \<Rightarrow> False | Some h \<Rightarrow> h_ino h = i) [0..<next_fd w]"

definition k_unlink :: "path \<Rightarrow> world \<Rightarrow> unit res \<times> world" where
  "k_unlink p w = (case paths w p of
      None \<Rightarrow> (Raise (os_error ENOENT), w)
    | Some i \<Rightarrow>
        if plat w = NT \<and> file_in_use w i then (Raise (os_error EACCES), w)
        else (Done (), w\<lparr>paths := (paths w)(p := None)\<rparr>))"

text \<open>Writing: at the end of the file in append mode, at the position otherwise.\<close>

definition write_at :: "string \<Rightarrow> nat \<Rightarrow> string \<Rightarrow> string" where
  "write_at old pos s =
     take pos old @ replicate (pos - length old) (CHR 0x00) @ s @ drop (pos + length s) old"

definition k_flush :: "fd \<Rightarrow> world \<Rightarrow> world" where
  "k_flush f w = (case handles w f of
      None \<Rightarrow> w
    | Some h \<Rightarrow>
        if h_buf h = [] then w
        else (let old = content w (h_ino h);
                  pos = (if h_append h then length old else h_pos h)
              in w\<lparr>content := (content w)(h_ino h := write_at old pos (h_buf h)),
                   handles := (handles w)(f \<mapsto> h\<lparr>h_buf := [], h_pos := pos + length (h_buf h)\<rparr>)\<rparr>))"

section \<open>Other processes\<close>

definition mine :: "world \<Rightarrow> fd \<Rightarrow> bool" where
  "mine w f \<longleftrightarrow> (case handles w f of None \<Rightarrow> False | Some h \<Rightarrow> h_owner h = mypid w)"

text \<open>A process can only use its own descriptors.\<close>

definition own_handle :: "world \<Rightarrow> fd \<Rightarrow> handle option" where
  "own_handle w f = (if mine w f then handles w f else None)"

definition foreign :: "world \<Rightarrow> fd \<Rightarrow> bool" where
  "foreign w f \<longleftrightarrow> (case handles w f of None \<Rightarrow> False | Some h \<Rightarrow> h_owner h \<noteq> mypid w)"

fun env_step :: "env_event \<Rightarrow> world \<Rightarrow> world" where
  "env_step (EvTick d) w = w\<lparr>clock := clock w + max 0 d\<rparr>"
| "env_step (EvOpen p q) w =
     (if p = mypid w then w else snd (k_open p q ''a'' w))"
| "env_step (EvFlock f m) w =
     (if foreign w f \<and> \<not> flock_conflict w f m then w\<lparr>flocks := (flocks w)(f \<mapsto> m)\<rparr> else w)"
| "env_step (EvUnlock f) w =
     (if foreign w f then w\<lparr>flocks := (flocks w)(f := None)\<rparr> else w)"
| "env_step (EvClose f) w = (if foreign w f then drop_handle f w else w)"
| "env_step (EvUnlink q) w = snd (k_unlink q w)"
| "env_step (EvWrite f s) w = (case handles w f of
      None \<Rightarrow> w
    | Some h \<Rightarrow> if h_owner h = mypid w then w
        else w\<lparr>content := (content w)(h_ino h := s)\<rparr>)"

definition pop :: "world \<Rightarrow> fault option \<times> world" where
  "pop w = (case tape w of
      [] \<Rightarrow> (None, w)
    | c # cs \<Rightarrow> (c_fault c, fold env_step (c_env c) (w\<lparr>tape := cs\<rparr>)))"

fun fault_exn :: "fault \<Rightarrow> exn" where
  "fault_exn (FErrno n) = os_error n"
| "fault_exn FEOF = plain_exn CEOFError []"

lemma fault_exn_Exception [simp]:
  "exn_class (fault_exn e) \<noteq> CBaseException" "exn_class (fault_exn e) \<noteq> CKeyboardInterrupt"
  "exn_class (fault_exn e) \<noteq> CLockException" "exn_class (fault_exn e) \<noteq> CAlreadyLocked"
  "exn_class (fault_exn e) \<noteq> CFileToLarge" "exn_class (fault_exn e) \<noteq> CValueError"
  by (cases e; simp)+

section \<open>Library calls\<close>

text \<open>
  The state of an action is the object the method runs on, and the world. A library call
  consumes a cell of the tape, then fails or applies the kernel operation.
\<close>

definition syscall :: "(world \<Rightarrow> 'a res \<times> world) \<Rightarrow> ('l \<times> world, 'a) act" where
  "syscall k = (\<lambda>(l, w). case pop w of
      (Some e, w1) \<Rightarrow> (Raise (fault_exn e), (l, w1))
    | (None, w1) \<Rightarrow> (case k w1 of (r, w2) \<Rightarrow> (r, (l, w2))))"

text \<open>A call that cannot fail: the fault of the cell is not used.\<close>

definition safe_call :: "(world \<Rightarrow> 'a \<times> world) \<Rightarrow> ('l \<times> world, 'a) act" where
  "safe_call k = (\<lambda>(l, w). case k (snd (pop w)) of (x, w2) \<Rightarrow> (Done x, (l, w2)))"

definition sys_open :: "path \<Rightarrow> string \<Rightarrow> ('l \<times> world, fd) act" where
  "sys_open p m = syscall (\<lambda>w. k_open (mypid w) p m w)"

text \<open>\<^verbatim>\<open>file.fileno()\<close>: a closed file object raises \<^verbatim>\<open>ValueError\<close>.\<close>

definition py_fileno :: "fd \<Rightarrow> ('l \<times> world, fd) act" where
  "py_fileno f = (\<lambda>(l, w).
     (if \<not> mine w f then Raise (plain_exn CValueError [AStr ''I/O operation on closed file''])
      else Done f, (l, w)))"

text \<open>
  \<^verbatim>\<open>file.close()\<close>: closing a closed file does nothing; otherwise pending text is written and the
  handle goes away, also when the call reports an error.
\<close>

definition fh_close :: "fd \<Rightarrow> ('l \<times> world, unit) act" where
  "fh_close f = (\<lambda>(l, w). case pop w of (flt, w1) \<Rightarrow>
     if \<not> mine w1 f then (Done (), (l, w1))
     else (case flt of
         None \<Rightarrow> (Done (), (l, drop_handle f (k_flush f w1)))
       | Some e \<Rightarrow> (Raise (fault_exn e), (l, drop_handle f w1))))"

definition on_handle ::
  "fd \<Rightarrow> (handle \<Rightarrow> world \<Rightarrow> 'a res \<times> world) \<Rightarrow> ('l \<times> world, 'a) act" where
  "on_handle f k = syscall (\<lambda>w. case own_handle w f of
      None \<Rightarrow> (Raise (plain_exn CValueError [AStr ''I/O operation on closed file'']), w)
    | Some h \<Rightarrow> k h w)"

definition set_pos :: "fd \<Rightarrow> nat \<Rightarrow> world \<Rightarrow> world" where
  "set_pos f n w = (case handles w f of
      None \<Rightarrow> w
    | Some h \<Rightarrow> w\<lparr>handles := (handles w)(f \<mapsto> h\<lparr>h_pos := n\<rparr>)\<rparr>)"

definition fh_seek :: "fd \<Rightarrow> nat \<Rightarrow> ('l \<times> world, unit) act" where
  "fh_seek f n = on_handle f (\<lambda>h w. (Done (), set_pos f n (k_flush f w)))"

text \<open>\<^verbatim>\<open>file.tell()\<close> counts the text that was written and not yet flushed.\<close>

definition cur_pos :: "fd \<Rightarrow> world \<Rightarrow> nat" where
  "cur_pos f w = (case handles w f of None \<Rightarrow> 0 | Some h \<Rightarrow> h_pos h)"

definition fh_tell :: "fd \<Rightarrow> ('l \<times> world, nat) act" where
  "fh_tell f = on_handle f (\<lambda>h w. (Done (cur_pos f (k_flush f w)), k_flush f w))"

text \<open>\<^verbatim>\<open>os.lseek\<close> on a raw descriptor: an unknown one is an \<^verbatim>\<open>OSError\<close>.\<close>

definition os_lseek_cur :: "fd \<Rightarrow> ('l \<times> world, nat) act" where
  "os_lseek_cur f = syscall (\<lambda>w. case own_handle w f of
      None \<Rightarrow> (Raise (os_error EBADF), w)
    | Some h \<Rightarrow> (Done (h_pos h), w))"

definition os_lseek_set :: "fd \<Rightarrow> nat \<Rightarrow> ('l \<times> world, unit) act" where
  "os_lseek_set f n = syscall (\<lambda>w. case own_handle w f of
      None \<Rightarrow> (Raise (os_error EBADF), w)
    | Some h \<Rightarrow> (Done (), set_pos f n w))"

text \<open>\<^verbatim>\<open>file.truncate(n)\<close>, of a file that is long enough.\<close>

definition fh_truncate :: "fd \<Rightarrow> nat \<Rightarrow> ('l \<times> world, unit) act" where
  "fh_truncate f n = on_handle f (\<lambda>h w.
     if \<not> h_writable h then (Raise (plain_exn CValueError [AStr ''truncate'']), w)
     else (let w' = k_flush f w
           in (Done (), w'\<lparr>content := (content w')(h_ino h := take n (content w' (h_ino h)))\<rparr>)))"

text \<open>\<^verbatim>\<open>file.write(s)\<close> only fills the buffer, and \<^verbatim>\<open>flush()\<close> writes it.\<close>

definition fh_write :: "fd \<Rightarrow> string \<Rightarrow> ('l \<times> world, unit) act" where
  "fh_write f s = on_handle f (\<lambda>h w.
     if \<not> h_writable h then (Raise (plain_exn CValueError [AStr ''not writable'']), w)
     else (Done (), w\<lparr>handles := (handles w)(f \<mapsto> h\<lparr>h_buf := h_buf h @ s\<rparr>)\<rparr>))"

definition fh_flush :: "fd \<Rightarrow> ('l \<times> world, unit) act" where
  "fh_flush f = on_handle f (\<lambda>h w. (Done (), k_flush f w))"

definition fh_read :: "fd \<Rightarrow> ('l \<times> world, string) act" where
  "fh_read f = on_handle f (\<lambda>h w.
     if \<not> h_readable h then (Raise (plain_exn CValueError [AStr ''not readable'']), w)
     else (Done (drop (h_pos h) (content w (h_ino h))),
           set_pos f (length (content w (h_ino h))) w))"

definition os_fsync :: "fd \<Rightarrow> ('l \<times> world, unit) act" where
  "os_fsync f = on_handle f (\<lambda>h w. (Done (), w))"

definition os_unlink :: "path \<Rightarrow> ('l \<times> world, unit) act" where
  "os_unlink p = syscall (k_unlink p)"

text \<open>\<^verbatim>\<open>os.stat(p).st_ino\<close> and \<^verbatim>\<open>os.fstat(f).st_ino\<close>.\<close>

definition os_stat_ino :: "path \<Rightarrow> ('l \<times> world, ino) act" where
  "os_stat_ino p = syscall (\<lambda>w. case paths w p of
      None \<Rightarrow> (Raise (os_error ENOENT), w)
    | Some i \<Rightarrow> (Done i, w))"

definition os_fstat_ino :: "fd \<Rightarrow> ('l \<times> world, ino) act" where
  "os_fstat_ino f = on_handle f (\<lambda>h w. (Done (h_ino h), w))"

text \<open>\<^verbatim>\<open>os.path.exists\<close> and \<^verbatim>\<open>os.path.isfile\<close> answer \<^verbatim>\<open>False\<close> when the call fails.\<close>

definition os_path_exists :: "path \<Rightarrow> ('l \<times> world, bool) act" where
  "os_path_exists p = (\<lambda>(l, w). case pop w of (flt, w1) \<Rightarrow>
     (Done (flt = None \<and> paths w1 p \<noteq> None), (l, w1)))"

definition py_sleep :: "time \<Rightarrow> ('l \<times> world, unit) act" where
  "py_sleep d = safe_call (\<lambda>w. ((), w\<lparr>clock := clock w + max 0 d\<rparr>))"

definition perf_counter :: "('l \<times> world, time) act" where
  "perf_counter = safe_call (\<lambda>w. (clock w, w))"

definition warn :: "string \<Rightarrow> ('l \<times> world, unit) act" where
  "warn msg = (\<lambda>(l, w). (Done (), (l, w\<lparr>warned := warned w @ [msg]\<rparr>)))"

text \<open>The object of the method, its update, and parts of the world the code reads directly.\<close>

definition self :: "('l \<times> 'w, 'l) act" where
  "self = (\<lambda>(l, w). (Done l, (l, w)))"

definition upd_self :: "('l \<Rightarrow> 'l) \<Rightarrow> ('l \<times> 'w, unit) act" where
  "upd_self u = (\<lambda>(l, w). (Done (), (u l, w)))"

definition env_get :: "('w \<Rightarrow> 'a) \<Rightarrow> ('l \<times> 'w, 'a) act" where
  "env_get g = (\<lambda>(l, w). (Done (g w), (l, w)))"

text \<open>A method call on another object: its outcome, and the object afterwards, as values.\<close>

definition on_object ::
  "'k \<Rightarrow> ('k \<times> world, 'a) act \<Rightarrow> ('l \<times> world, ('a res \<times> 'k)) act" where
  "on_object k m = (\<lambda>(l, w). case m (k, w) of (r, (k', w')) \<Rightarrow>
     (if r = Hang then Hang else Done (r, k'), (l, w')))"

section \<open>\<^verbatim>\<open>fcntl.flock\<close> and \<^verbatim>\<open>fcntl.lockf\<close>\<close>

text \<open>
  A request that has to wait consumes the tape until the conflict is gone; if the tape ends
  before that, the call does not return. A conversion gives the old lock up first.
\<close>

fun wait_until :: "nat \<Rightarrow> (world \<Rightarrow> bool) \<Rightarrow> (world \<Rightarrow> world) \<Rightarrow> world \<Rightarrow> unit res \<times> world" where
  "wait_until 0 busy grant w = (if busy w then (Hang, w) else (Done (), grant w))"
| "wait_until (Suc n) busy grant w =
     (if busy w then wait_until n busy grant (snd (pop w)) else (Done (), grant w))"

definition grant_flock :: "fd \<Rightarrow> lmode \<Rightarrow> world \<Rightarrow> world" where
  "grant_flock f m w = w\<lparr>flocks := (flocks w)(f \<mapsto> m)\<rparr>"

definition drop_flock :: "fd \<Rightarrow> world \<Rightarrow> world" where
  "drop_flock f w = w\<lparr>flocks := (flocks w)(f := None)\<rparr>"

fun lmode_of :: "int \<Rightarrow> lmode option" where
  "lmode_of cmd = (if cmd = 1 then Some Sh else if cmd = 2 then Some Ex else None)"

definition k_flock :: "fd \<Rightarrow> int \<Rightarrow> world \<Rightarrow> unit res \<times> world" where
  "k_flock f oper w =
     (let cmd = oper AND NOT 4 in
      if \<not> mine w f then (Raise (os_error EBADF), w)
      else if cmd = 8 then (Done (), drop_flock f w)
      else (case lmode_of cmd of
          None \<Rightarrow> (Raise (os_error EINVAL), w)
        | Some m \<Rightarrow>
            if \<not> flock_conflict w f m then (Done (), grant_flock f m w)
            else if has_flag oper 4 then (Raise (os_error EAGAIN), drop_flock f w)
            else wait_until (length (tape w)) (\<lambda>u. flock_conflict u f m) (grant_flock f m)
                   (drop_flock f w)))"

text \<open>
  \<^verbatim>\<open>lockf\<close> locks belong to the process: its own locks never conflict, and an exclusive lock needs
  a writable descriptor, a shared one a readable descriptor.
\<close>

definition plock_conflict :: "world \<Rightarrow> ino \<Rightarrow> lmode \<Rightarrow> bool" where
  "plock_conflict w i m \<longleftrightarrow> list_ex (\<lambda>(p, m'). p \<noteq> mypid w \<and> max m m' = Ex) (plocks w i)"

definition grant_plock :: "ino \<Rightarrow> lmode \<Rightarrow> world \<Rightarrow> world" where
  "grant_plock i m w =
     w\<lparr>plocks := (plocks w)(i := (mypid w, m) # filter (\<lambda>(p, m). p \<noteq> mypid w) (plocks w i))\<rparr>"

definition drop_plock :: "ino \<Rightarrow> world \<Rightarrow> world" where
  "drop_plock i w = w\<lparr>plocks := (plocks w)(i := filter (\<lambda>(p, m). p \<noteq> mypid w) (plocks w i))\<rparr>"

fun lockf_mode :: "int \<Rightarrow> lmode option" where
  "lockf_mode oper = (if has_flag oper 1 then Some Sh else if has_flag oper 2 then Some Ex else None)"

definition k_lockf :: "fd \<Rightarrow> int \<Rightarrow> world \<Rightarrow> unit res \<times> world" where
  "k_lockf f oper w = (case own_handle w f of
      None \<Rightarrow> (Raise (os_error EBADF), w)
    | Some h \<Rightarrow>
        if oper = 8 then (Done (), drop_plock (h_ino h) w)
        else (case lockf_mode oper of
            None \<Rightarrow> (Raise (plain_exn CValueError [AStr ''unrecognized lockf argument'']), w)
          | Some m \<Rightarrow>
              if (m = Ex \<and> \<not> h_writable h) \<or> (m = Sh \<and> \<not> h_readable h)
                then (Raise (os_error EBADF), w)
              else if \<not> plock_conflict w (h_ino h) m then (Done (), grant_plock (h_ino h) m w)
              else if has_flag oper 4 then (Raise (os_error EAGAIN), w)
              else wait_until (length (tape w)) (\<lambda>u. plock_conflict u (h_ino h) m)
                     (grant_plock (h_ino h) m) w))"

definition fcntl_call :: "prim \<Rightarrow> fd \<Rightarrow> int \<Rightarrow> ('l \<times> world, unit) act" where
  "fcntl_call p f oper = syscall (case p of
      FcntlFlock \<Rightarrow> k_flock f oper
    | FcntlLockf \<Rightarrow> k_lockf f oper)"

section \<open>\<^verbatim>\<open>msvcrt.locking\<close> and the Win32 API\<close>

text \<open>
  \<^verbatim>\<open>msvcrt.locking(fd, mode, nbytes)\<close> locks \<^verbatim>\<open>nbytes\<close> bytes from the current position. A lock on
  any of these bytes, through any handle, is contention: \<^verbatim>\<open>LK_NBLCK\<close> fails at once with
  \<^verbatim>\<open>EACCES\<close>, \<^verbatim>\<open>LK_LOCK\<close> tries ten times with a second between and then fails with
  \<^verbatim>\<open>EDEADLOCK\<close>. \<^verbatim>\<open>LK_UNLCK\<close> needs a lock of exactly this range through this handle.
\<close>

definition LK_UNLCK :: int where "LK_UNLCK = 0"
definition LK_LOCK :: int where "LK_LOCK = 1"
definition LK_NBLCK :: int where "LK_NBLCK = 2"

definition ranges_overlap :: "nat \<Rightarrow> nat \<Rightarrow> nat \<Rightarrow> nat \<Rightarrow> bool" where
  "ranges_overlap s n t m \<longleftrightarrow> s < t + m \<and> t < s + n"

definition nlock_conflict :: "world \<Rightarrow> fd \<Rightarrow> nat \<Rightarrow> nat \<Rightarrow> bool" where
  "nlock_conflict w f s n \<longleftrightarrow>
     list_ex (\<lambda>(g, t, m). same_file w f g \<and> ranges_overlap s n t m) (nlocks w)"

fun k_locking_wait :: "nat \<Rightarrow> fd \<Rightarrow> nat \<Rightarrow> nat \<Rightarrow> world \<Rightarrow> unit res \<times> world" where
  "k_locking_wait 0 f s n w = (Raise (os_error EDEADLOCK), w)"
| "k_locking_wait (Suc k) f s n w =
     (if nlock_conflict w f s n
      then k_locking_wait k f s n (let w' = snd (pop w) in w'\<lparr>clock := clock w' + 1\<rparr>)
      else (Done (), w\<lparr>nlocks := (f, s, n) # nlocks w\<rparr>))"

definition k_locking :: "fd \<Rightarrow> int \<Rightarrow> nat \<Rightarrow> world \<Rightarrow> unit res \<times> world" where
  "k_locking f mode n w = (case own_handle w f of
      None \<Rightarrow> (Raise (os_error EBADF), w)
    | Some h \<Rightarrow>
        if mode = LK_UNLCK then
          if (f, h_pos h, n) \<in> set (nlocks w)
          then (Done (), w\<lparr>nlocks := remove1 (f, h_pos h, n) (nlocks w)\<rparr>)
          else (Raise (os_error EACCES), w)
        else if mode = LK_NBLCK then
          if nlock_conflict w f (h_pos h) n then (Raise (os_error EACCES), w)
          else (Done (), w\<lparr>nlocks := (f, h_pos h, n) # nlocks w\<rparr>)
        else if mode = LK_LOCK then k_locking_wait 10 f (h_pos h) n w
        else (Raise (os_error EINVAL), w))"

definition msvcrt_locking :: "fd \<Rightarrow> int \<Rightarrow> nat \<Rightarrow> ('l \<times> world, unit) act" where
  "msvcrt_locking f mode n = syscall (k_locking f mode n)"

definition win_error :: "int \<Rightarrow> exn" where
  "win_error n =
     Exn (CPyWinError n) [AInt n, AWinText n] None (Some (AWinText n)) None None None []"

text \<open>\<^verbatim>\<open>msvcrt.get_osfhandle\<close>, and a call of \<^verbatim>\<open>win32file\<close> on the handle.\<close>

definition get_osfhandle :: "fd \<Rightarrow> ('l \<times> world, fd) act" where
  "get_osfhandle f = syscall (\<lambda>w. case own_handle w f of
      None \<Rightarrow> (Raise (os_error EBADF), w)
    | Some h \<Rightarrow> (Done f, w))"

definition next_win :: "win_op \<Rightarrow> world \<Rightarrow> int option" where
  "next_win oper w = (case tape w of [] \<Rightarrow> None | c # cs \<Rightarrow> c_win c oper)"

definition win32_call :: "win_op \<Rightarrow> ('l \<times> world, unit) act" where
  "win32_call oper = (\<lambda>(l, w). case pop w of
      (Some e, w1) \<Rightarrow> (Raise (fault_exn e), (l, w1))
    | (None, w1) \<Rightarrow> (case next_win oper w of
        Some n \<Rightarrow> (Raise (win_error n), (l, w1))
      | None \<Rightarrow> (Done (), (l, w1))))"

text \<open>An update of a module variable.\<close>

definition upd_world :: "('w \<Rightarrow> 'w) \<Rightarrow> ('l \<times> 'w, unit) act" where
  "upd_world u = (\<lambda>(l, w). (Done (), (l, u w)))"

end
