(* ===== verification/OsFacts.thy ===== *)
theory OsFacts
  imports OsModel
begin

text \<open>
  Facts about the operating-system model: the well-formedness invariant of the world (with the
  kernel's promise that two handles never hold conflicting locks on one file), what other
  processes may do between two calls (\<open>rely\<close>), what every call of this process guarantees
  (\<open>adv\<close>), and the calculus of effect relations that lifts a guarantee from the library calls to
  whole methods. Ends with the weakest preconditions of the library calls.
\<close>

section \<open>Well-formed worlds\<close>

definition locks_compatible :: "world \<Rightarrow> bool" where
  "locks_compatible w \<longleftrightarrow>
     (\<forall>f g m m'. f \<noteq> g \<longrightarrow> same_file w f g \<longrightarrow> flocks w f = Some m \<longrightarrow> flocks w g = Some m' \<longrightarrow>
        m = Sh \<and> m' = Sh)"

definition wf_world :: "world \<Rightarrow> bool" where
  "wf_world w \<longleftrightarrow>
     (\<forall>f h. handles w f = Some h \<longrightarrow> f < next_fd w \<and> h_ino h < next_ino w) \<and>
     (\<forall>p i. paths w p = Some i \<longrightarrow> i < next_ino w) \<and>
     (\<forall>f m. flocks w f = Some m \<longrightarrow> handles w f \<noteq> None) \<and>
     locks_compatible w"

lemma wf_world_init: "wf_world (init_world p i)"
  by (simp add: wf_world_def init_world_def locks_compatible_def)

lemma wf_handle: "wf_world w \<Longrightarrow> handles w f = Some h \<Longrightarrow> f < next_fd w \<and> h_ino h < next_ino w"
  by (simp add: wf_world_def)

lemma wf_next_fd: "wf_world w \<Longrightarrow> handles w (next_fd w) = None"
  by (metis less_irrefl not_None_eq wf_handle)

lemma wf_next_flock: "wf_world w \<Longrightarrow> flocks w (next_fd w) = None"
  by (metis not_None_eq wf_next_fd wf_world_def)

lemma same_file_sym: "same_file w f g \<longleftrightarrow> same_file w g f"
  by (auto simp: same_file_def split: option.splits)

lemma same_file_less: "wf_world w \<Longrightarrow> same_file w f g \<Longrightarrow> g < next_fd w"
  by (auto simp: same_file_def wf_world_def split: option.splits)

lemma flock_conflict_iff:
  assumes "wf_world w"
  shows "flock_conflict w f m \<longleftrightarrow>
    (\<exists>g m'. g \<noteq> f \<and> same_file w f g \<and> flocks w g = Some m' \<and> max m m' = Ex)"
proof -
  have "(case x of None \<Rightarrow> False | Some m' \<Rightarrow> max m m' = Ex) \<longleftrightarrow> (\<exists>m'. x = Some m' \<and> max m m' = Ex)"
    for x by (cases x) auto
  with same_file_less [OF assms] show ?thesis
    unfolding flock_conflict_def list_ex_upt_iff by blast
qed

text \<open>Steps that change locks only, and that add or drop a handle, keep the invariant.\<close>

lemma wf_grant_flock:
  assumes "wf_world w" "handles w f \<noteq> None" "\<not> flock_conflict w f m"
  shows "wf_world (grant_flock f m w)"
proof -
  have no: "g = f \<or> \<not> same_file w f g \<or> flocks w g \<noteq> Some m' \<or> m = Sh \<and> m' = Sh" for g m'
    using assms(1,3) lmode_not_Ex_iff [of "max m m'"] by (auto simp: flock_conflict_iff)
  have sf: "same_file (grant_flock f m w) = same_file w"
    by (auto simp: fun_eq_iff grant_flock_def same_file_def)
  have "locks_compatible w" using assms(1) by (simp add: wf_world_def)
  then have "locks_compatible (grant_flock f m w)"
    unfolding locks_compatible_def sf
    using no same_file_sym by (auto simp: grant_flock_def split: if_splits) metis+
  with assms show ?thesis by (auto simp: wf_world_def grant_flock_def)
qed

lemma wf_drop_flock: "wf_world w \<Longrightarrow> wf_world (drop_flock f w)"
  by (auto simp: wf_world_def drop_flock_def locks_compatible_def same_file_def
      split: if_splits)

lemma wf_add_handle:
  assumes "wf_world w" "h_ino h < next_ino w"
  shows "wf_world (add_handle h w)"
  using assms wf_next_flock [OF assms(1)]
  by (auto simp: wf_world_def add_handle_def locks_compatible_def same_file_def less_Suc_eq
      split: if_splits option.splits)

lemma wf_create_file: "wf_world w \<Longrightarrow> wf_world (create_file p w)"
  by (auto simp: wf_world_def create_file_def locks_compatible_def same_file_def less_Suc_eq
      split: if_splits option.splits)

lemma wf_drop_handle: "wf_world w \<Longrightarrow> wf_world (drop_handle f w)"
  by (auto simp: wf_world_def drop_handle_def locks_compatible_def same_file_def
      split: if_splits option.splits)

lemma wf_content: "wf_world (w\<lparr>content := c\<rparr>) = wf_world w"
  by (simp add: wf_world_def locks_compatible_def same_file_def)

lemma wf_clock: "wf_world (w\<lparr>clock := c\<rparr>) = wf_world w"
  by (simp add: wf_world_def locks_compatible_def same_file_def)

lemma wf_tape: "wf_world (w\<lparr>tape := c\<rparr>) = wf_world w"
  by (simp add: wf_world_def locks_compatible_def same_file_def)

lemma wf_warned: "wf_world (w\<lparr>warned := c\<rparr>) = wf_world w"
  by (simp add: wf_world_def locks_compatible_def same_file_def)

lemma wf_unlink: "wf_world w \<Longrightarrow> wf_world (w\<lparr>paths := (paths w)(p := None)\<rparr>)"
  by (simp add: wf_world_def locks_compatible_def same_file_def)

lemma wf_same_ino:
  assumes "wf_world w" "handles w f = Some h" "h_ino h' = h_ino h"
  shows "wf_world (w\<lparr>handles := (handles w)(f \<mapsto> h')\<rparr>)"
  using assms
  by (auto simp: wf_world_def locks_compatible_def same_file_def split: if_splits option.splits)

lemmas wf_simps [simp] = wf_content wf_clock wf_tape wf_warned

lemma wf_same_ino_content:
  assumes "wf_world w" "handles w f = Some h" "h_ino h' = h_ino h"
  shows "wf_world (w\<lparr>content := c, handles := (handles w)(f \<mapsto> h')\<rparr>)"
  using wf_same_ino [of "w\<lparr>content := c\<rparr>" f h h'] assms by simp

lemma wf_k_flush: "wf_world w \<Longrightarrow> wf_world (k_flush f w)"
  by (auto simp: k_flush_def Let_def wf_same_ino_content split: option.splits)

lemma wf_k_open: "wf_world w \<Longrightarrow> wf_world (snd (k_open p q m w))"
proof -
  assume wf: "wf_world w"
  have "paths w q = Some i \<Longrightarrow> i < next_ino w" for i
    using wf by (simp add: wf_world_def)
  with wf show ?thesis
    by (auto simp: k_open_def wf_create_file create_file_def new_handle_def
        intro!: wf_add_handle wf_create_file [unfolded create_file_def]
        split: option.splits prod.splits)
qed

lemma wf_k_unlink: "wf_world w \<Longrightarrow> wf_world (snd (k_unlink p w))"
  by (auto simp: k_unlink_def wf_unlink split: option.splits)

lemma mine_iff: "mine w f \<longleftrightarrow> (\<exists>h. handles w f = Some h \<and> h_owner h = mypid w)"
  by (auto simp: mine_def split: option.splits)

lemma mine_handle: "mine w f \<Longrightarrow> handles w f \<noteq> None"
  by (auto simp: mine_iff)

lemma own_handle_Some: "own_handle w f = Some h \<longleftrightarrow> handles w f = Some h \<and> h_owner h = mypid w"
  by (auto simp: own_handle_def mine_iff)

lemma own_handle_None: "own_handle w f = None \<longleftrightarrow> \<not> mine w f"
  by (auto simp: own_handle_def mine_iff)

lemma own_handle_mine: "own_handle w f = Some h \<Longrightarrow> mine w f"
  by (auto simp: own_handle_def split: if_splits)

section \<open>What other processes may do\<close>

text \<open>
  Between two calls, other processes keep this process's handles and locks, its identity and
  its module variables; the clock does not go back and numbers are not reused.
\<close>

definition rely :: "world \<Rightarrow> world \<Rightarrow> bool" where
  "rely w w' \<longleftrightarrow>
     plat w' = plat w \<and> mypid w' = mypid w \<and> pywin32 w' = pywin32 w \<and> locker w' = locker w \<and>
     locker_instances w' = locker_instances w \<and> warned w' = warned w \<and>
     clock w \<le> clock w' \<and> next_fd w \<le> next_fd w' \<and> next_ino w \<le> next_ino w' \<and>
     (\<forall>f. mine w' f = mine w f) \<and>
     (\<forall>f. mine w f \<longrightarrow> handles w' f = handles w f \<and> flocks w' f = flocks w f) \<and>
     (\<forall>f. f < next_fd w \<longrightarrow> handles w f = None \<longrightarrow> handles w' f = None) \<and>
     (wf_world w \<longrightarrow> wf_world w')"

lemma rely_refl: "rely w w"
  by (simp add: rely_def)

lemma rely_trans: "rely u v \<Longrightarrow> rely v w \<Longrightarrow> rely u w"
  by (auto simp: rely_def)

lemma rely_k_open:
  assumes "wf_world w" "p \<noteq> mypid w"
  shows "rely w (snd (k_open p q m w))"
  using assms wf_next_fd [OF assms(1)] wf_k_open [OF assms(1)]
  by (auto simp: rely_def k_open_def add_handle_def create_file_def mine_def new_handle_def
      split: option.splits prod.splits)

lemma rely_drop_handle: "wf_world w \<Longrightarrow> foreign w f \<Longrightarrow> rely w (drop_handle f w)"
  by (auto simp: rely_def wf_drop_handle)
     (auto simp: drop_handle_def mine_def foreign_def split: option.splits if_splits)

lemma rely_env_step: "wf_world w \<Longrightarrow> rely w (env_step e w)"
proof (induction e w rule: env_step.induct)
  case (2 p q w)
  then show ?case by (simp add: rely_refl rely_k_open)
next
  case (5 f w)
  then show ?case by (simp add: rely_refl rely_drop_handle)
qed (auto simp: rely_def mine_def foreign_def k_unlink_def wf_unlink
       wf_grant_flock [unfolded grant_flock_def] wf_drop_flock [unfolded drop_flock_def]
     split: option.splits)

lemma rely_fold_env: "wf_world w \<Longrightarrow> rely w (fold env_step es w)"
proof (induction es arbitrary: w)
  case Nil
  then show ?case by (simp add: rely_refl)
next
  case (Cons e es)
  then have "rely w (env_step e w)" by (simp add: rely_env_step)
  moreover from this Cons.prems have "wf_world (env_step e w)" by (simp add: rely_def)
  ultimately show ?case using Cons.IH rely_trans by auto
qed

lemma rely_pop:
  assumes "wf_world w"
  shows "rely w (snd (pop w))"
proof (cases "tape w")
  case Nil
  then show ?thesis by (simp add: pop_def rely_refl)
next
  case (Cons c cs)
  have "rely w (w\<lparr>tape := cs\<rparr>)" by (simp add: rely_def mine_iff)
  moreover have "rely (w\<lparr>tape := cs\<rparr>) (fold env_step (c_env c) (w\<lparr>tape := cs\<rparr>))"
    using assms by (simp add: rely_fold_env)
  ultimately show ?thesis using Cons by (auto simp: pop_def intro: rely_trans)
qed

lemma pop_tape: "tape w = [] \<Longrightarrow> pop w = (None, w)"
  by (simp add: pop_def)

section \<open>Effect relations\<close>

text \<open>
  \<open>eff R m\<close>: every run of \<open>m\<close>, however it ends, relates the world before to the world after
  by \<open>R\<close>. For a reflexive and transitive \<open>R\<close> the combinators keep the relation, so it holds of a
  method when it holds of its library calls.
\<close>

definition eff :: "(world \<Rightarrow> world \<Rightarrow> bool) \<Rightarrow> ('l \<times> world, 'a) act \<Rightarrow> bool" where
  "eff R m \<longleftrightarrow> (\<forall>l w. R w (snd (snd (m (l, w)))))"

lemma effD: "eff R m \<Longrightarrow> m (l, w) = (r, (l', w')) \<Longrightarrow> R w w'"
  unfolding eff_def by (metis snd_conv)

locale effect_relation =
  fixes R :: "world \<Rightarrow> world \<Rightarrow> bool"
  assumes refl: "R w w"
    and trans: "R u v \<Longrightarrow> R v w \<Longrightarrow> R u w"
begin

lemma eff_ret [eff_intros]: "eff R (ret x)"
  by (simp add: eff_def ret_def refl)

lemma eff_throw [eff_intros]: "eff R (throw e)"
  by (simp add: eff_def throw_def refl)

lemma eff_hang [eff_intros]: "eff R hang"
  by (simp add: eff_def hang_def refl)

lemma eff_andthen [eff_intros]: "eff R m \<Longrightarrow> (\<And>x. eff R (f x)) \<Longrightarrow> eff R (andthen m f)"
  unfolding eff_def andthen_def
  by (auto split: prod.splits res.splits) (metis snd_conv trans)+

lemma eff_try_else [eff_intros]:
  "eff R m \<Longrightarrow> (\<And>e. eff R (h e)) \<Longrightarrow> (\<And>x. eff R (k x)) \<Longrightarrow> eff R (try_else m h k)"
  unfolding eff_def try_else_def
  by (auto split: prod.splits res.splits) (metis snd_conv trans)+

lemma eff_try_except [eff_intros]:
  "eff R m \<Longrightarrow> (\<And>e. eff R (h e)) \<Longrightarrow> eff R (try_except m h)"
  unfolding eff_def try_except_def
  by (auto split: prod.splits res.splits) (metis snd_conv trans)+

lemma eff_if [eff_intros]: "eff R m \<Longrightarrow> eff R n \<Longrightarrow> eff R (if b then m else n)"
  by simp

lemma eff_on_cond [eff_intros]: "eff R m \<Longrightarrow> eff R (on_cond b m)"
  by (simp add: on_cond_def eff_ret)

lemma eff_case_option [eff_intros]:
  "eff R m \<Longrightarrow> (\<And>x. eff R (f x)) \<Longrightarrow> eff R (case y of None \<Rightarrow> m | Some x \<Rightarrow> f x)"
  by (cases y) simp_all

lemma eff_case_res [eff_intros]:
  "(\<And>x. eff R (f x)) \<Longrightarrow> (\<And>e. eff R (g e)) \<Longrightarrow> eff R m
    \<Longrightarrow> eff R (case y of Done x \<Rightarrow> f x | Raise e \<Rightarrow> g e | Hang \<Rightarrow> m)"
  by (cases y) simp_all

lemma eff_case_prod [eff_intros]:
  "(\<And>x z. eff R (f x z)) \<Longrightarrow> eff R (case y of (x, z) \<Rightarrow> f x z)"
  by (cases y) simp

lemma eff_case_flow [eff_intros]:
  "(\<And>a. eff R (f a)) \<Longrightarrow> (\<And>b. eff R (g b))
    \<Longrightarrow> eff R (case y of Cont a \<Rightarrow> f a | Leave b \<Rightarrow> g b)"
  by (cases y) simp_all

lemma eff_try_finally [eff_intros]: "eff R m \<Longrightarrow> eff R k \<Longrightarrow> eff R (try_finally m k)"
  unfolding try_finally_def by (intro eff_intros)

lemma eff_catch_Exception [eff_intros]: "eff R m \<Longrightarrow> eff R (catch_Exception m)"
  unfolding catch_Exception_def by (intro eff_intros)

lemma eff_suppress [eff_intros]: "eff R m \<Longrightarrow> eff R (suppress P m)"
  unfolding suppress_def by (intro eff_intros)

lemma eff_self [eff_intros]: "eff R self"
  by (simp add: eff_def self_def refl)

lemma eff_upd_self [eff_intros]: "eff R (upd_self u)"
  by (simp add: eff_def upd_self_def refl)

lemma eff_env_get [eff_intros]: "eff R (env_get g)"
  by (simp add: eff_def env_get_def refl)

lemma eff_fileno [eff_intros]: "eff R (py_fileno f)"
  by (simp add: eff_def py_fileno_def refl)

lemma eff_on_object [eff_intros]: "eff R m \<Longrightarrow> eff R (on_object k m)"
  unfolding eff_def on_object_def
  by (auto split: prod.splits) (metis snd_conv)

lemma eff_for_gen [eff_intros]:
  "(\<And>g. eff R (nx g)) \<Longrightarrow> (\<And>i a. eff R (body i a)) \<Longrightarrow> eff R (for_gen n nx g a body)"
proof (induction n arbitrary: g a)
  case 0
  then show ?case by (simp add: eff_hang)
next
  case (Suc n)
  then show ?case unfolding for_gen.simps by (intro eff_intros Suc.IH Suc.prems)
qed

end

text \<open>A relation that also allows what other processes do holds of a library call when it
  holds of its kernel operation.\<close>

locale os_effect_relation = effect_relation +
  assumes env: "R w (snd (pop w))"
begin

lemma eff_syscall: "(\<And>w. R w (snd (k w))) \<Longrightarrow> eff R (syscall k)"
  unfolding eff_def syscall_def
  by (auto split: prod.splits option.splits) (metis env snd_conv trans)+

lemma eff_safe_call: "(\<And>w. R w (snd (k w))) \<Longrightarrow> eff R (safe_call k)"
  unfolding eff_def safe_call_def
  by (auto split: prod.splits) (metis env snd_conv trans)

lemma eff_path_exists [eff_intros]: "eff R (os_path_exists p)"
  unfolding eff_def os_path_exists_def
  by (auto split: prod.splits) (metis env snd_conv)

end

end
