(* ===== verification/OsCalls.thy ===== *)
theory OsCalls
  imports OsFacts
begin

text \<open>
  What the library calls guarantee: the relation \<open>adv\<close> of every call of this process (the
  invariant is kept, the clock does not go back), the relation \<open>keeps\<close> of a call that leaves the
  other handles of this process alone, and one weakest-precondition rule per call.
\<close>

section \<open>The general guarantee\<close>

definition adv :: "world \<Rightarrow> world \<Rightarrow> bool" where
  "adv w w' \<longleftrightarrow> (wf_world w \<longrightarrow>
     wf_world w' \<and> plat w' = plat w \<and> mypid w' = mypid w \<and> clock w \<le> clock w' \<and>
     next_fd w \<le> next_fd w' \<and> next_ino w \<le> next_ino w')"

lemma rely_adv: "rely w w' \<Longrightarrow> adv w w'"
  by (auto simp: rely_def adv_def)

interpretation adv_eff: os_effect_relation adv
proof unfold_locales
  fix u v w
  show "adv w w" by (simp add: adv_def)
  show "adv u v \<Longrightarrow> adv v w \<Longrightarrow> adv u w" by (auto simp: adv_def)
  show "adv w (snd (pop w))"
    by (cases "wf_world w") (blast intro: rely_pop rely_adv, simp add: adv_def)
qed

lemma adv_k_open: "adv w (snd (k_open p q m w))"
  using wf_k_open by (auto simp: adv_def k_open_def add_handle_def create_file_def
      split: option.splits prod.splits)

lemma adv_drop_handle: "adv w (drop_handle f w)"
  using wf_drop_handle by (auto simp: adv_def drop_handle_def split: option.splits)

lemma adv_k_flush: "adv w (k_flush f w)"
  using wf_k_flush by (auto simp: adv_def k_flush_def Let_def split: option.splits)

lemma adv_k_unlink: "adv w (snd (k_unlink p w))"
  using wf_k_unlink by (auto simp: adv_def k_unlink_def split: option.splits)

lemma adv_set_pos: "adv w (set_pos f n w)"
  by (auto simp: adv_def set_pos_def wf_same_ino split: option.splits)

lemma adv_drop_flock: "adv w (drop_flock f w)"
  using wf_drop_flock by (auto simp: adv_def drop_flock_def)

lemma adv_grant_flock:
  "handles w f \<noteq> None \<Longrightarrow> \<not> flock_conflict w f m \<Longrightarrow> adv w (grant_flock f m w)"
  using wf_grant_flock by (auto simp: adv_def grant_flock_def)

lemma wf_plocks: "wf_world (w\<lparr>plocks := c\<rparr>) = wf_world w"
  by (simp add: wf_world_def locks_compatible_def same_file_def)

lemma adv_plock [simp]: "adv w (grant_plock i m w)" "adv w (drop_plock i w)"
  by (auto simp: adv_def grant_plock_def drop_plock_def wf_plocks)

lemma adv_wait_until:
  assumes "\<And>u. mine u f \<Longrightarrow> \<not> busy u \<Longrightarrow> adv u (grant u)" "wf_world w" "mine w f"
  shows "adv w (snd (wait_until n busy grant w))"
  using assms(2,3)
proof (induction n arbitrary: w)
  case 0
  then show ?case using assms(1) by (simp add: adv_def)
next
  case (Suc n)
  have r: "rely w (snd (pop w))" using Suc.prems(1) by (rule rely_pop)
  then have "adv (snd (pop w)) (snd (wait_until n busy grant (snd (pop w))))"
    using Suc by (auto simp: rely_def)
  with r have "adv w (snd (wait_until n busy grant (snd (pop w))))"
    by (meson adv_eff.trans rely_adv)
  with Suc.prems assms(1) show ?case by simp
qed


lemma adv_k_flock: "adv w (snd (k_flock f oper w))"
proof (cases "wf_world w \<and> mine w f")
  case True
  have "adv w (snd (wait_until n (\<lambda>u. flock_conflict u f m) (grant_flock f m) (drop_flock f w)))"
    for n m
  proof -
    have "adv (drop_flock f w)
        (snd (wait_until n (\<lambda>u. flock_conflict u f m) (grant_flock f m) (drop_flock f w)))"
      using True wf_drop_flock [of w f] by (intro adv_wait_until [where f = f])
        (auto intro: adv_grant_flock simp: drop_flock_def mine_iff)
    then show ?thesis using adv_drop_flock adv_eff.trans by blast
  qed
  with True show ?thesis
    by (auto simp: k_flock_def Let_def adv_eff.refl adv_drop_flock adv_grant_flock mine_handle
        simp del: wait_until.simps split: option.splits)
qed (auto simp: k_flock_def adv_eff.refl adv_def)

lemma adv_k_lockf: "adv w (snd (k_lockf f oper w))"
proof (cases "wf_world w")
  case True
  have "adv w (snd (wait_until n busy (grant_plock i m) w))" if "mine w f" for n busy i m
    using True that by (intro adv_wait_until [where f = f]) simp_all
  then show ?thesis
    by (auto simp: k_lockf_def Let_def adv_eff.refl own_handle_mine
        simp del: wait_until.simps lockf_mode.simps split: option.splits)
qed (simp add: adv_def)

lemma wf_nlocks: "wf_world (w\<lparr>nlocks := c\<rparr>) = wf_world w"
  by (simp add: wf_world_def locks_compatible_def same_file_def)

lemma adv_nlocks [simp]: "adv w (w\<lparr>nlocks := c\<rparr>)"
  by (auto simp: adv_def wf_nlocks)

lemma adv_locking_wait: "adv w (snd (k_locking_wait k f s n w))"
proof (induction k arbitrary: w)
  case (Suc k)
  let ?w = "snd (pop w)"
  have "adv w (?w\<lparr>clock := clock ?w + 1\<rparr>)"
    by (rule adv_eff.trans [OF adv_eff.env]) (simp add: adv_def)
  with Suc show ?case by (auto simp: Let_def intro: adv_eff.trans)
qed (simp add: adv_eff.refl)

lemma adv_k_locking: "adv w (snd (k_locking f md n w))"
  using adv_locking_wait [of w 10]
  by (auto simp: k_locking_def adv_eff.refl simp del: k_locking_wait.simps split: option.splits)

lemma adv_on_handle:
  "(\<And>h w. own_handle w f = Some h \<Longrightarrow> adv w (snd (k h w))) \<Longrightarrow> eff adv (on_handle f k)"
  unfolding on_handle_def
  by (intro adv_eff.eff_syscall) (auto split: option.splits simp: adv_eff.refl)

lemma adv_update [simp]:
  "adv w (w\<lparr>content := c\<rparr>)" "adv w (w\<lparr>clock := clock w + max 0 d\<rparr>)"
  "adv w (w\<lparr>warned := ws\<rparr>)"
  by (simp_all add: adv_def)

lemma adv_calls [eff_intros]:
  "eff adv (sys_open p m)" "eff adv (fh_seek f n)" "eff adv (fh_tell f)"
  "eff adv (fh_truncate f n)" "eff adv (fh_write f s)" "eff adv (fh_flush f)"
  "eff adv (fh_read f)" "eff adv (os_fsync f)" "eff adv (os_unlink q)"
  "eff adv (os_stat_ino q)" "eff adv (os_fstat_ino f)" "eff adv (py_sleep d)"
  "eff adv perf_counter" "eff adv (fcntl_call c f oper)" "eff adv (os_lseek_cur f)"
  "eff adv (os_lseek_set f n)" "eff adv (msvcrt_locking f md n)" "eff adv (get_osfhandle f)"
proof -
  show "eff adv (sys_open p m)"
    unfolding sys_open_def by (intro adv_eff.eff_syscall) (rule adv_k_open)
  show "eff adv (fh_seek f n)"
    unfolding fh_seek_def
    by (intro adv_on_handle) (auto intro: adv_eff.trans adv_k_flush adv_set_pos)
  show "eff adv (fh_truncate f n)"
    unfolding fh_truncate_def
    by (intro adv_on_handle)
       (simp add: Let_def adv_eff.refl adv_eff.trans [OF adv_k_flush adv_update(1)])
  show "eff adv (fh_write f s)"
    unfolding fh_write_def
    by (intro adv_on_handle) (auto simp: adv_def wf_same_ino own_handle_Some)
  show "eff adv (fh_read f)"
    unfolding fh_read_def
    by (intro adv_on_handle) (auto simp: adv_eff.refl adv_set_pos)
  show "eff adv (os_stat_ino q)"
    unfolding os_stat_ino_def
    by (intro adv_eff.eff_syscall) (auto simp: adv_eff.refl split: option.splits)
  show "eff adv (fcntl_call c f oper)"
    unfolding fcntl_call_def
    by (intro adv_eff.eff_syscall) (simp add: adv_k_flock adv_k_lockf split: prim.splits)
qed (auto simp: fh_tell_def fh_flush_def os_fsync_def os_lseek_cur_def os_lseek_set_def
       msvcrt_locking_def adv_k_locking get_osfhandle_def adv_set_pos os_fstat_ino_def os_unlink_def py_sleep_def
       perf_counter_def adv_eff.refl adv_k_flush adv_k_unlink
     intro!: adv_on_handle adv_eff.eff_syscall adv_eff.eff_safe_call split: option.splits)

lemma adv_warn [eff_intros]: "eff adv (warn msg)"
  by (simp add: eff_def warn_def)

lemma adv_win32_call [eff_intros]: "eff adv (win32_call oper)"
  unfolding eff_def win32_call_def
  by (auto split: prod.splits option.splits) (metis adv_eff.env snd_conv)+

lemma adv_upd_world: "(\<And>w. adv w (u w)) \<Longrightarrow> eff adv (upd_world u)"
  by (simp add: eff_def upd_world_def)

lemma adv_fh_close [eff_intros]: "eff adv (fh_close f)"
  unfolding eff_def fh_close_def
  by (auto split: prod.splits option.splits)
     (metis adv_drop_handle adv_eff.env adv_eff.trans adv_k_flush snd_conv)+


section \<open>Calls that work on one handle\<close>

text \<open>
  \<open>rely_but f\<close> is \<open>rely\<close> for every handle of this process but \<open>f\<close>; \<open>touched f\<close> adds that \<open>f\<close>
  stays open, on the same file, with the lock it holds.
\<close>

definition rely_but :: "fd \<Rightarrow> world \<Rightarrow> world \<Rightarrow> bool" where
  "rely_but f w w' \<longleftrightarrow>
     plat w' = plat w \<and> mypid w' = mypid w \<and> pywin32 w' = pywin32 w \<and> locker w' = locker w \<and>
     clock w \<le> clock w' \<and> next_fd w \<le> next_fd w' \<and> next_ino w \<le> next_ino w' \<and>
     (\<forall>g. g \<noteq> f \<longrightarrow> mine w' g = mine w g) \<and>
     (\<forall>g. g \<noteq> f \<longrightarrow> mine w g \<longrightarrow> handles w' g = handles w g \<and> flocks w' g = flocks w g) \<and>
     (wf_world w \<longrightarrow> wf_world w')"

definition touched :: "fd \<Rightarrow> world \<Rightarrow> world \<Rightarrow> bool" where
  "touched f w w' \<longleftrightarrow> rely_but f w w' \<and>
     (mine w f \<longrightarrow> mine w' f \<and> flocks w' f = flocks w f \<and>
        map_option h_ino (handles w' f) = map_option h_ino (handles w f))"

text \<open>\<open>released f\<close>: the handle is gone, and with it its lock.\<close>

definition released :: "fd \<Rightarrow> world \<Rightarrow> world \<Rightarrow> bool" where
  "released f w w' \<longleftrightarrow> rely_but f w w' \<and> \<not> mine w' f"

lemma rely_rely_but: "rely w w' \<Longrightarrow> rely_but f w w'"
  by (auto simp: rely_def rely_but_def)

lemma rely_but_trans: "rely_but f u v \<Longrightarrow> rely_but f v w \<Longrightarrow> rely_but f u w"
  by (auto simp: rely_but_def)

lemma rely_but_refl: "rely_but f w w"
  by (auto simp: rely_but_def)

lemma rely_touched: "rely w w' \<Longrightarrow> touched f w w'"
  by (auto simp: touched_def rely_rely_but) (auto simp: rely_def)

lemma touched_refl: "touched f w w"
  by (simp add: touched_def rely_but_refl)

lemma touched_trans: "touched f u v \<Longrightarrow> touched f v w \<Longrightarrow> touched f u w"
  unfolding touched_def by (auto intro: rely_but_trans)

lemma touched_rely_but: "touched f w w' \<Longrightarrow> rely_but f w w'"
  by (simp add: touched_def)

lemma touched_mine: "touched f w w' \<Longrightarrow> mine w f \<Longrightarrow> mine w' f"
  by (simp add: touched_def)

lemma rely_but_wf: "rely_but f w w' \<Longrightarrow> wf_world w \<Longrightarrow> wf_world w'"
  by (simp add: rely_but_def)

lemma touched_wf: "touched f w w' \<Longrightarrow> wf_world w \<Longrightarrow> wf_world w'"
  by (simp add: touched_def rely_but_def)

lemma rely_wf: "rely w w' \<Longrightarrow> wf_world w \<Longrightarrow> wf_world w'"
  by (simp add: rely_def)

lemma rely_mine: "rely w w' \<Longrightarrow> mine w' f = mine w f"
  by (simp add: rely_def)

text \<open>The exceptions a library call may raise.\<close>

definition lib_exn :: "exn \<Rightarrow> bool" where
  "lib_exn e \<longleftrightarrow> is_OSError (exn_class e) \<or> exn_class e = CEOFError \<or> exn_class e = CValueError"

lemma lib_exn_fault [simp]: "lib_exn (fault_exn e)"
  by (cases e) (simp_all add: lib_exn_def is_OSError_def)

lemma lib_exn_os_error [simp]: "lib_exn (os_error n)" "lib_exn (plain_exn CValueError as)"
  by (simp_all add: lib_exn_def is_OSError_def)

lemma lib_exnD: "lib_exn e \<Longrightarrow> exn_class e \<notin> {CBaseException, CKeyboardInterrupt, CLockException, CAlreadyLocked, CFileToLarge}"
  by (auto simp: lib_exn_def is_OSError_def)

section \<open>Rules for the calls\<close>

lemma wp_syscall:
  assumes "wf_world w"
    and "\<And>w1 e. rely w w1 \<Longrightarrow> wf_world w1 \<Longrightarrow> E (fault_exn e) (l, w1)"
    and "\<And>w1. rely w w1 \<Longrightarrow> wf_world w1 \<Longrightarrow>
      wp h k (\<lambda>x u. Q x (l, u)) (\<lambda>e u. E e (l, u)) w1"
  shows "wp h (syscall k) Q E (l, w)"
proof -
  have r: "rely w (snd (pop w))" "wf_world (snd (pop w))"
    using assms(1) rely_pop rely_wf by blast+
  show ?thesis
    using assms(2) [OF r] assms(3) [OF r]
    by (auto simp: wp_def syscall_def split: prod.splits option.splits res.splits)
qed

lemma wp_safe_call:
  assumes "wf_world w"
    and "\<And>w1. rely w w1 \<Longrightarrow> wf_world w1 \<Longrightarrow> Q (fst (k w1)) (l, snd (k w1))"
  shows "wp h (safe_call k) Q E (l, w)"
proof -
  have r: "rely w (snd (pop w))" "wf_world (snd (pop w))"
    using assms(1) rely_pop rely_wf by blast+
  show ?thesis
    using assms(2) [OF r] by (auto simp: wp_def safe_call_def split: prod.splits)
qed

lemma wp_self [wp_simps]: "wp h self Q E = (\<lambda>(l, w). Q l (l, w))"
  by (auto simp: wp_def self_def fun_eq_iff)

lemma wp_upd_self [wp_simps]: "wp h (upd_self u) Q E = (\<lambda>(l, w). Q () (u l, w))"
  by (auto simp: wp_def upd_self_def fun_eq_iff)

lemma wp_env_get [wp_simps]: "wp h (env_get g) Q E = (\<lambda>(l, w). Q (g w) (l, w))"
  by (auto simp: wp_def env_get_def fun_eq_iff)

lemma wp_upd_world [wp_simps]: "wp h (upd_world u) Q E = (\<lambda>(l, w). Q () (l, u w))"
  by (auto simp: wp_def upd_world_def fun_eq_iff)

lemma wp_warn [wp_simps]:
  "wp h (warn msg) Q E = (\<lambda>(l, w). Q () (l, w\<lparr>warned := warned w @ [msg]\<rparr>))"
  by (auto simp: wp_def warn_def fun_eq_iff)

lemma wp_on_object [wp_simps]:
  "wp h (on_object k m) Q E = (\<lambda>(l, w).
     wp h m (\<lambda>x (k', u). Q (Done x, k') (l, u)) (\<lambda>e (k', u). Q (Raise e, k') (l, u)) (k, w))"
  by (auto simp: wp_def on_object_def fun_eq_iff split: prod.splits res.splits)

lemma wp_case_res [wp_simps]:
  "wp h (case x of Done y \<Rightarrow> f y | Raise e \<Rightarrow> g e | Hang \<Rightarrow> m) Q E =
     (case x of Done y \<Rightarrow> wp h (f y) Q E | Raise e \<Rightarrow> wp h (g e) Q E | Hang \<Rightarrow> wp h m Q E)"
  by (cases x) simp_all

lemma wp_case_prod [wp_simps]:
  "wp h (case x of (y, z) \<Rightarrow> f y z) Q E = (case x of (y, z) \<Rightarrow> wp h (f y z) Q E)"
  by (cases x) simp

lemma wp_case_flow [wp_simps]:
  "wp h (case x of Cont a \<Rightarrow> f a | Leave b \<Rightarrow> g b) Q E =
     (case x of Cont a \<Rightarrow> wp h (f a) Q E | Leave b \<Rightarrow> wp h (g b) Q E)"
  by (cases x) simp_all


subsection \<open>Clock, names and handles\<close>

lemma wp_perf_counter:
  assumes "wf_world w" "\<And>u. rely w u \<Longrightarrow> wf_world u \<Longrightarrow> Q (clock u) (l, u)"
  shows "wp h perf_counter Q E (l, w)"
  unfolding perf_counter_def using assms by (intro wp_safe_call) simp_all

lemma wp_sleep:
  assumes "wf_world w"
    and "\<And>u. rely w u \<Longrightarrow> wf_world u \<Longrightarrow> clock w + max 0 d \<le> clock u \<Longrightarrow> Q () (l, u)"
  shows "wp h (py_sleep d) Q E (l, w)"
proof -
  have "rely w (u\<lparr>clock := clock u + max 0 d\<rparr>) \<and> clock w + max 0 d \<le> clock u + max 0 d"
    if "rely w u" for u
    using that by (auto simp: rely_def mine_iff)
  then show ?thesis
    unfolding py_sleep_def using assms by (intro wp_safe_call) simp_all
qed

lemma wp_stat_ino:
  assumes "wf_world w"
    and "\<And>u i. rely w u \<Longrightarrow> wf_world u \<Longrightarrow> paths u p = Some i \<Longrightarrow> Q i (l, u)"
    and "\<And>u e. rely w u \<Longrightarrow> wf_world u \<Longrightarrow> lib_exn e \<Longrightarrow> E e (l, u)"
  shows "wp h (os_stat_ino p) Q E (l, w)"
  unfolding os_stat_ino_def
  using assms by (intro wp_syscall) (auto simp: wp_def split: option.splits)

lemma wp_path_exists:
  assumes "wf_world w" "\<And>u b. rely w u \<Longrightarrow> wf_world u \<Longrightarrow> Q b (l, u)"
  shows "wp h (os_path_exists p) Q E (l, w)"
  using assms(2) [OF rely_pop [OF assms(1)]] rely_wf [OF rely_pop [OF assms(1)] assms(1)]
  by (auto simp: wp_def os_path_exists_def split: prod.splits)

lemma rely_unlinked: "rely w (w\<lparr>paths := (paths w)(p := None)\<rparr>)"
  using wf_unlink by (auto simp: rely_def mine_iff)

lemma wp_unlink:
  assumes "wf_world w"
    and "\<And>u. rely w u \<Longrightarrow> wf_world u \<Longrightarrow> paths u p = None \<Longrightarrow> Q () (l, u)"
    and "\<And>u e. rely w u \<Longrightarrow> wf_world u \<Longrightarrow> lib_exn e \<Longrightarrow> E e (l, u)"
  shows "wp h (os_unlink p) Q E (l, w)"
proof -
  have "rely w (u\<lparr>paths := (paths u)(p := None)\<rparr>)" if "rely w u" for u
    using that rely_unlinked by (rule rely_trans)
  with assms show ?thesis
    unfolding os_unlink_def
    by (intro wp_syscall) (auto simp: wp_def k_unlink_def wf_unlink split: option.splits)
qed

lemma wp_fileno:
  assumes "mine w f \<Longrightarrow> Q f (l, w)" "\<And>e. lib_exn e \<Longrightarrow> \<not> mine w f \<Longrightarrow> E e (l, w)"
  shows "wp h (py_fileno f) Q E (l, w)"
  using assms by (simp add: wp_def py_fileno_def)

text \<open>A call on an open handle of this process.\<close>

lemma wp_on_handle:
  assumes "wf_world w" "mine w f"
    and "\<And>u e. rely w u \<Longrightarrow> wf_world u \<Longrightarrow> lib_exn e \<Longrightarrow> E e (l, u)"
    and "\<And>u hx. rely w u \<Longrightarrow> wf_world u \<Longrightarrow> own_handle u f = Some hx \<Longrightarrow>
      handles u f = handles w f \<Longrightarrow> flocks u f = flocks w f \<Longrightarrow>
      wp h (k hx) (\<lambda>x v. Q x (l, v)) (\<lambda>e v. E e (l, v)) u"
  shows "wp h (on_handle f k) Q E (l, w)"
  unfolding on_handle_def
proof (rule wp_syscall [OF assms(1)])
  fix u
  assume u: "rely w u" "wf_world u"
  then have "mine u f" using assms(2) rely_mine by blast
  then obtain hx where hx: "own_handle u f = Some hx"
    by (auto simp: own_handle_Some mine_iff)
  have "handles u f = handles w f" "flocks u f = flocks w f"
    using u(1) assms(2) by (auto simp: rely_def)
  from assms(4) [OF u hx this] hx
  show "wp h (\<lambda>w. case own_handle w f of
        None \<Rightarrow> (Raise (plain_exn CValueError [AStr ''I/O operation on closed file'']), w)
      | Some h \<Rightarrow> k h w) (\<lambda>x v. Q x (l, v)) (\<lambda>e v. E e (l, v)) u"
    by (simp add: wp_def)
qed (simp add: assms)

lemma wp_fstat_ino:
  assumes "wf_world w" "mine w f"
    and "\<And>u hx. rely w u \<Longrightarrow> wf_world u \<Longrightarrow> handles w f = Some hx \<Longrightarrow> handles u f = Some hx \<Longrightarrow>
      Q (h_ino hx) (l, u)"
    and "\<And>u e. rely w u \<Longrightarrow> wf_world u \<Longrightarrow> lib_exn e \<Longrightarrow> E e (l, u)"
  shows "wp h (os_fstat_ino f) Q E (l, w)"
  unfolding os_fstat_ino_def
  using assms by (intro wp_on_handle) (auto simp: wp_def own_handle_Some)

lemma touched_upd_handle:
  assumes "handles w f = Some hx" "h_ino hx' = h_ino hx" "h_owner hx' = h_owner hx"
  shows "touched f w (w\<lparr>content := c, handles := (handles w)(f \<mapsto> hx')\<rparr>)"
  using assms wf_same_ino_content [of w f hx hx' c]
  by (auto simp: touched_def rely_but_def mine_iff)

lemma touched_k_flush: "touched f w (k_flush f w)"
  by (auto simp: k_flush_def Let_def touched_refl touched_upd_handle split: option.splits)

lemma touched_content: "touched f w (w\<lparr>content := c\<rparr>)"
  by (auto simp: touched_def rely_but_def mine_iff)

lemma touched_set_pos: "touched f w (set_pos f n w)"
  using touched_upd_handle [of w f _ _ "content w"]
  by (auto simp: set_pos_def touched_refl split: option.splits)

lemmas touched_via_rely = touched_trans [OF rely_touched]

lemma wp_fh_touch:
  assumes "wf_world w" "mine w f"
    and "\<And>u x. touched f w u \<Longrightarrow> wf_world u \<Longrightarrow> Q x (l, u)"
    and "\<And>u e. touched f w u \<Longrightarrow> wf_world u \<Longrightarrow> lib_exn e \<Longrightarrow> E e (l, u)"
    and "\<And>hx u. own_handle u f = Some hx \<Longrightarrow>
      wp h (k hx) (\<lambda>_ v. touched f u v) (\<lambda>e v. touched f u v \<and> lib_exn e) u"
  shows "wp h (on_handle f k) Q E (l, w)"
proof (rule wp_on_handle [OF assms(1,2)])
  fix u hx
  assume u: "rely w u" "wf_world u" "own_handle u f = Some hx"
  show "wp h (k hx) (\<lambda>x v. Q x (l, v)) (\<lambda>e v. E e (l, v)) u"
    using assms(5) [OF u(3)] by (rule wp_mono)
      (use u(1,2) assms(3,4) touched_via_rely touched_wf in blast)+
qed (use assms rely_touched in blast)

lemma wp_seek:
  assumes "wf_world w" "mine w f"
    and "\<And>u. touched f w u \<Longrightarrow> wf_world u \<Longrightarrow> Q () (l, u)"
    and "\<And>u e. touched f w u \<Longrightarrow> wf_world u \<Longrightarrow> lib_exn e \<Longrightarrow> E e (l, u)"
  shows "wp h (fh_seek f n) Q E (l, w)"
  unfolding fh_seek_def using assms
  by (intro wp_fh_touch) (auto simp: wp_def intro: touched_trans touched_k_flush touched_set_pos)

lemma wp_truncate:
  assumes "wf_world w" "mine w f"
    and "\<And>u. touched f w u \<Longrightarrow> wf_world u \<Longrightarrow> Q () (l, u)"
    and "\<And>u e. touched f w u \<Longrightarrow> wf_world u \<Longrightarrow> lib_exn e \<Longrightarrow> E e (l, u)"
  shows "wp h (fh_truncate f n) Q E (l, w)"
  unfolding fh_truncate_def using assms
  by (intro wp_fh_touch)
     (auto simp: wp_def Let_def touched_refl touched_trans [OF touched_k_flush touched_content])

lemma wp_fh_write:
  assumes "wf_world w" "mine w f"
    and "\<And>u. touched f w u \<Longrightarrow> wf_world u \<Longrightarrow> Q () (l, u)"
    and "\<And>u e. touched f w u \<Longrightarrow> wf_world u \<Longrightarrow> lib_exn e \<Longrightarrow> E e (l, u)"
  shows "wp h (fh_write f s) Q E (l, w)"
  unfolding fh_write_def using assms
  by (intro wp_fh_touch)
     (auto simp: wp_def touched_refl touched_def rely_but_def own_handle_Some mine_iff wf_same_ino)

lemma wp_fh_flush:
  assumes "wf_world w" "mine w f"
    and "\<And>u. touched f w u \<Longrightarrow> wf_world u \<Longrightarrow> Q () (l, u)"
    and "\<And>u e. touched f w u \<Longrightarrow> wf_world u \<Longrightarrow> lib_exn e \<Longrightarrow> E e (l, u)"
  shows "wp h (fh_flush f) Q E (l, w)"
  unfolding fh_flush_def using assms
  by (intro wp_fh_touch) (auto simp: wp_def touched_k_flush)

lemma wp_fsync:
  assumes "wf_world w" "mine w f"
    and "\<And>u. touched f w u \<Longrightarrow> wf_world u \<Longrightarrow> Q () (l, u)"
    and "\<And>u e. touched f w u \<Longrightarrow> wf_world u \<Longrightarrow> lib_exn e \<Longrightarrow> E e (l, u)"
  shows "wp h (os_fsync f) Q E (l, w)"
  unfolding os_fsync_def using assms
  by (intro wp_fh_touch) (auto simp: wp_def touched_refl)

lemma wp_fh_read:
  assumes "wf_world w" "mine w f"
    and "\<And>u x. touched f w u \<Longrightarrow> wf_world u \<Longrightarrow> Q x (l, u)"
    and "\<And>u e. touched f w u \<Longrightarrow> wf_world u \<Longrightarrow> lib_exn e \<Longrightarrow> E e (l, u)"
  shows "wp h (fh_read f) Q E (l, w)"
  unfolding fh_read_def using assms
  by (intro wp_fh_touch) (auto simp: wp_def touched_refl touched_set_pos)

lemma wp_fh_close:
  assumes "wf_world w"
    and "\<And>u. released f w u \<Longrightarrow> wf_world u \<Longrightarrow> Q () (l, u)"
    and "\<And>u e. released f w u \<Longrightarrow> wf_world u \<Longrightarrow> lib_exn e \<Longrightarrow> E e (l, u)"
  shows "wp h (fh_close f) Q E (l, w)"
proof -
  have r: "rely w (snd (pop w))" "wf_world (snd (pop w))"
    using assms(1) rely_pop rely_wf by blast+
  have d: "released f v (drop_handle f v)" for v
    by (auto simp: released_def rely_but_def wf_drop_handle)
       (auto simp: drop_handle_def mine_iff split: option.splits)
  have 1: "released f w u" if "touched f (snd (pop w)) v" "u = drop_handle f v" for u v
    using r(1) that d [of v] unfolding released_def
    by (meson rely_but_trans rely_rely_but touched_rely_but)
  have 2: "released f w (snd (pop w))" if "\<not> mine (snd (pop w)) f"
    using r(1) that by (simp add: released_def rely_rely_but)
  have "released f w (drop_handle f (k_flush f (snd (pop w))))"
    "released f w (drop_handle f (snd (pop w)))"
    using 1 touched_k_flush touched_refl by blast+
  with 2 assms r(2) show ?thesis
    by (auto simp: wp_def fh_close_def wf_drop_handle wf_k_flush split: prod.splits option.splits)
qed


subsection \<open>Opening a file\<close>

text \<open>
  \<open>opened p f w w'\<close>: \<open>f\<close> is a new, unlocked handle of this process on the file now at \<open>p\<close>, and
  the other handles are as before.
\<close>

definition opened :: "path \<Rightarrow> fd \<Rightarrow> world \<Rightarrow> world \<Rightarrow> bool" where
  "opened p f w w' \<longleftrightarrow> rely_but f w w' \<and> \<not> mine w f \<and> mine w' f \<and> flocks w' f = None \<and>
     (\<exists>h. handles w' f = Some h \<and> paths w' p = Some (h_ino h) \<and> h_pos h = 0 \<and> h_buf h = [])"

lemma k_open_spec:
  assumes "wf_world u"
  shows "wp h (k_open (mypid u) p m) (\<lambda>f v. opened p f u v \<and> wf_world v) (\<lambda>e v. v = u \<and> lib_exn e) u"
proof (cases "\<exists>e. fst (k_open (mypid u) p m u) = Raise e")
  case True
  then show ?thesis
    by (auto simp: wp_def k_open_def split: option.splits prod.splits)
next
  case False
  have new: "handles u (next_fd u) = None" "flocks u (next_fd u) = None"
    using assms wf_next_fd wf_next_flock by blast+
  have "wf_world (snd (k_open (mypid u) p m u))" using assms by (rule wf_k_open)
  with False new show ?thesis
    by (auto simp: wp_def k_open_def opened_def rely_but_def add_handle_def create_file_def
        new_handle_def mine_iff split: option.splits prod.splits if_splits)
qed

lemma rely_opened: "rely w u \<Longrightarrow> opened p f u v \<Longrightarrow> opened p f w v"
  unfolding opened_def by (metis rely_but_trans rely_mine rely_rely_but)

lemma wp_sys_open:
  assumes "wf_world w"
    and "\<And>f u. opened p f w u \<Longrightarrow> wf_world u \<Longrightarrow> Q f (l, u)"
    and "\<And>u e. rely w u \<Longrightarrow> wf_world u \<Longrightarrow> lib_exn e \<Longrightarrow> E e (l, u)"
  shows "wp h (sys_open p m) Q E (l, w)"
  unfolding sys_open_def
proof (rule wp_syscall [OF assms(1)])
  fix u
  assume u: "rely w u" "wf_world u"
  show "wp h (\<lambda>w. k_open (mypid w) p m w) (\<lambda>x v. Q x (l, v)) (\<lambda>e v. E e (l, v)) u"
    using k_open_spec [OF u(2), of h p m]
    by (auto simp: wp_def split: prod.splits res.splits)
       (use u assms(2,3) rely_opened in blast)+
qed (simp add: assms)

subsection \<open>\<^verbatim>\<open>flock\<close>\<close>

text \<open>
  \<open>locked f m w w'\<close>: the handle is still open, on the same file, and holds a lock of mode \<open>m\<close>
  (none, for \<open>None\<close>).
\<close>

definition locked :: "fd \<Rightarrow> lmode option \<Rightarrow> world \<Rightarrow> world \<Rightarrow> bool" where
  "locked f m w w' \<longleftrightarrow> rely_but f w w' \<and> mine w' f \<and> handles w' f = handles w f \<and> flocks w' f = m"

lemma locked_grant: "mine w f \<Longrightarrow> \<not> flock_conflict w f m \<Longrightarrow> locked f (Some m) w (grant_flock f m w)"
  using wf_grant_flock [of w f m] mine_handle [of w f]
  by (auto simp: locked_def rely_but_def grant_flock_def mine_iff)

lemma locked_drop: "mine w f \<Longrightarrow> locked f None w (drop_flock f w)"
  using wf_drop_flock [of w f]
  by (auto simp: locked_def rely_but_def drop_flock_def mine_iff)

lemma rely_locked: "rely w u \<Longrightarrow> mine u f \<Longrightarrow> locked f m u v \<Longrightarrow> locked f m w v"
  unfolding locked_def by (metis rely_but_trans rely_def rely_rely_but)

lemma locked_trans: "locked f m u v \<Longrightarrow> locked f m' v w \<Longrightarrow> locked f m' u w"
  unfolding locked_def by (auto intro: rely_but_trans)

lemma locked_wf: "locked f m w w' \<Longrightarrow> wf_world w \<Longrightarrow> wf_world w'"
  by (simp add: locked_def rely_but_def)

lemma wait_until_flock:
  assumes "wf_world w" "mine w f"
  shows "wp True (wait_until n (\<lambda>u. flock_conflict u f m) (grant_flock f m))
     (\<lambda>_ v. locked f (Some m) w v) (\<lambda>_ _. False) w"
  using assms
proof (induction n arbitrary: w)
  case 0
  then show ?case by (simp add: wp_def locked_grant)
next
  case (Suc n)
  have r: "rely w (snd (pop w))" using Suc.prems(1) by (rule rely_pop)
  then have "wf_world (snd (pop w))" "mine (snd (pop w)) f"
    using Suc.prems by (simp_all add: rely_wf rely_mine)
  from Suc.IH [OF this] Suc.prems rely_locked [OF r this(2)] show ?case
    by (auto simp: wp_def locked_grant split: prod.splits res.splits)
qed

lemma k_flock_lock:
  assumes "wf_world u" "mine u f" "lmode_of (oper AND NOT 4) = Some m"
  shows "wp (\<not> has_flag oper 4) (k_flock f oper)
     (\<lambda>_ v. locked f (Some m) u v)
     (\<lambda>e v. locked f None u v \<and> e = os_error EAGAIN \<and> flock_conflict u f m) u"
proof -
  have cmd: "oper AND NOT 4 \<noteq> 8" using assms(3) by (auto split: if_splits)
  have d: "locked f None u (drop_flock f u)" using assms(2) by (rule locked_drop)
  let ?wait = "wait_until (length (tape u)) (\<lambda>w. flock_conflict w f m) (grant_flock f m)"
  have "wp True ?wait (\<lambda>_ v. locked f (Some m) (drop_flock f u) v) (\<lambda>_ _. False) (drop_flock f u)"
    using assms by (intro wait_until_flock wf_drop_flock) (simp_all add: drop_flock_def mine_iff)
  then have wait: "wp True ?wait (\<lambda>_ v. locked f (Some m) u v) (\<lambda>_ _. False) (drop_flock f u)"
    by (rule wp_mono) (auto intro: locked_trans [OF d])
  have "k_flock f oper u =
     (if \<not> flock_conflict u f m then (Done (), grant_flock f m u)
      else if has_flag oper 4 then (Raise (os_error EAGAIN), drop_flock f u)
      else ?wait (drop_flock f u))"
    using assms(2,3) cmd by (simp add: k_flock_def Let_def del: lmode_of.simps)
  with wait d assms show ?thesis
    by (cases "flock_conflict u f m"; cases "has_flag oper 4")
       (auto simp: wp_def locked_grant split: prod.splits res.splits)
qed

lemma wp_flock_lock:
  assumes "wf_world w" "mine w f" "lmode_of (oper AND NOT 4) = Some m" "\<not> has_flag oper 4 \<longrightarrow> h"
    and "\<And>u. locked f (Some m) w u \<Longrightarrow> wf_world u \<Longrightarrow> Q () (l, u)"
    and "\<And>u e. rely w u \<Longrightarrow> wf_world u \<Longrightarrow> E (fault_exn e) (l, u)"
    and "\<And>u. locked f None w u \<Longrightarrow> wf_world u \<Longrightarrow> E (os_error EAGAIN) (l, u)"
  shows "wp h (fcntl_call FcntlFlock f oper) Q E (l, w)"
  unfolding fcntl_call_def prim.case
proof (rule wp_syscall [OF assms(1)])
  fix u
  assume u: "rely w u" "wf_world u"
  then have "mine u f" using assms(2) rely_mine by blast
  note up = rely_locked [OF u(1) this] locked_wf [OF _ u(2)]
  show "wp h (k_flock f oper) (\<lambda>x v. Q x (l, v)) (\<lambda>e v. E e (l, v)) u"
    using k_flock_lock [OF u(2) \<open>mine u f\<close> assms(3)]
    by (rule wp_mono) (auto intro!: assms(5,7) simp: up assms(4))
qed (use assms in blast)

lemma wp_flock_unlock:
  assumes "wf_world w" "mine w f"
    and "\<And>u. locked f None w u \<Longrightarrow> wf_world u \<Longrightarrow> Q () (l, u)"
    and "\<And>u e. rely w u \<Longrightarrow> wf_world u \<Longrightarrow> E (fault_exn e) (l, u)"
  shows "wp h (fcntl_call FcntlFlock f 8) Q E (l, w)"
  unfolding fcntl_call_def prim.case
proof (rule wp_syscall [OF assms(1)])
  fix u
  assume u: "rely w u" "wf_world u"
  then have "mine u f" using assms(2) rely_mine by blast
  then have "wp h (k_flock f 8) (\<lambda>x v. locked f None u v) (\<lambda>e v. False) u"
    by (simp add: wp_def k_flock_def Let_def locked_drop)
  then show "wp h (k_flock f 8) (\<lambda>x v. Q x (l, v)) (\<lambda>e v. E e (l, v)) u"
    by (rule wp_mono)
       (auto intro!: assms(3) simp: rely_locked [OF u(1) \<open>mine u f\<close>] locked_wf [OF _ u(2)])
qed (use assms in blast)

end
