(* ===== verification/Lockers.thy ===== *)
theory Lockers
  imports OsCalls
begin

text \<open>
  The lockers of \<^verbatim>\<open>portalocker/portalocker.py\<close>: the POSIX classes around \<^verbatim>\<open>fcntl\<close> with their error
  translation, the Windows classes around \<^verbatim>\<open>msvcrt.locking\<close> and the Win32 API, and the
  module-level functions \<^verbatim>\<open>lock\<close> and \<^verbatim>\<open>unlock\<close> that resolve \<^verbatim>\<open>LOCKER\<close>.
\<close>

section \<open>POSIX\<close>

text \<open>The class attribute \<^verbatim>\<open>_locker\<close>: \<^verbatim>\<open>None\<close> for an unbound \<^verbatim>\<open>PosixLocker\<close>.\<close>

fun class_locker :: "lcls \<Rightarrow> prim option" where
  "class_locker FlockLockerC = Some FcntlFlock"
| "class_locker LockfLockerC = Some FcntlLockf"
| "class_locker _ = None"

text \<open>The property \<^verbatim>\<open>locker\<close>: the class attribute, or the module variable \<^verbatim>\<open>LOCKER\<close>.\<close>

definition posix_locker :: "lcls \<Rightarrow> ('l \<times> world, lockerval) act" where
  "posix_locker c = (case class_locker c of
      None \<Rightarrow> env_get locker
    | Some p \<Rightarrow> ret (LCallable p))"

text \<open>
  Calling that value with a descriptor and flags. Only the \<^verbatim>\<open>fcntl\<close> functions can be called with
  these arguments: a locker instance and a tuple are not callable, and a class takes no arguments.
\<close>

fun call_locker :: "lockerval \<Rightarrow> fd \<Rightarrow> int \<Rightarrow> ('l \<times> world, unit) act" where
  "call_locker (LCallable p) f flags = fcntl_call p f flags"
| "call_locker (LInstance i) f flags = throw (plain_exn CTypeError [AStr ''object is not callable''])"
| "call_locker (LPair a b) f flags = throw (plain_exn CTypeError [AStr ''object is not callable''])"
| "call_locker (LClass c) f flags = throw (plain_exn CTypeError [AStr ''takes no arguments''])"

fun posix_get_fd :: "filearg \<Rightarrow> ('l \<times> world, fd) act" where
  "posix_get_fd (FInt f) = ret f"
| "posix_get_fd (FFile f) = py_fileno f"
| "posix_get_fd (FHasFileno f) = ret f"
| "posix_get_fd FOther = throw (plain_exn CTypeError
     [AStr ''Argument 'file_obj' must be an int, an IO object with fileno(), or implement HasFileno.''])"

text \<open>The \<^verbatim>\<open>except\<close> clauses of \<^verbatim>\<open>PosixLocker.lock\<close>: contention, other errors, and the rest.\<close>

definition posix_translate :: "filearg \<Rightarrow> exn \<Rightarrow> exn" where
  "posix_translate fo e = (case exn_class e of
      COSError n \<Rightarrow>
        if n = EACCES \<or> n = EAGAIN
          then set_cause (AlreadyLocked [AExn e, AStrOf e] (Some fo)) e
          else set_cause (LockException [AExn e, AStrOf e] (Some fo)) e
    | CEOFError \<Rightarrow> set_cause (LockException [AExn e, AStrOf e] (Some fo)) e
    | _ \<Rightarrow> e)"

definition nb_without_type :: "int \<Rightarrow> bool" where
  "nb_without_type flags \<longleftrightarrow>
     has_flag flags (LOCK_NB POSIX) \<and> \<not> has_flag flags (LOCK_SH POSIX OR LOCK_EX POSIX)"

definition posix_lock :: "lcls \<Rightarrow> filearg \<Rightarrow> int \<Rightarrow> ('l \<times> world, unit) act" where
  "posix_lock c fo flags =
     (if nb_without_type flags then throw (plain_exn CRuntimeError
        [AStr ''When locking in non-blocking mode on POSIX, the SHARED or EXCLUSIVE flag must be specified as well.''])
      else andthen (posix_get_fd fo) (\<lambda>f.
        try_except (andthen (posix_locker c) (\<lambda>lk. call_locker lk f flags))
          (\<lambda>e. throw (posix_translate fo e))))"

definition posix_unlock :: "lcls \<Rightarrow> filearg \<Rightarrow> ('l \<times> world, unit) act" where
  "posix_unlock c fo =
     andthen (posix_get_fd fo) (\<lambda>f.
       andthen (posix_locker c) (\<lambda>lk. call_locker lk f (LOCK_UN POSIX)))"

section \<open>Windows\<close>

text \<open>
  \<^verbatim>\<open>_prepare_windows_file\<close>: the descriptor, whether there is a file object, and the position to
  restore (\<open>None\<close> for a descriptor that cannot seek); the position is 0 afterwards.
\<close>

definition seek_raw_start :: "fd \<Rightarrow> ('l \<times> world, nat option) act" where
  "seek_raw_start f =
     try_except
       (andthen (os_lseek_cur f) (\<lambda>pos.
          andthen (on_cond (pos \<noteq> 0) (os_lseek_set f 0)) (\<lambda>_. ret (Some pos))))
       (\<lambda>e. if is_OSError (exn_class e) then ret None else throw e)"

fun prepare_windows_file :: "filearg \<Rightarrow> ('l \<times> world, fd \<times> bool \<times> nat option) act" where
  "prepare_windows_file (FFile fo) =
     andthen (py_fileno fo) (\<lambda>f.
     andthen (fh_tell fo) (\<lambda>pos.
     andthen (on_cond (pos \<noteq> 0) (fh_seek fo 0)) (\<lambda>_. ret (f, True, Some pos))))"
| "prepare_windows_file (FInt f) =
     andthen (seek_raw_start f) (\<lambda>pos. ret (f, False, pos))"
| "prepare_windows_file (FHasFileno f) =
     andthen (seek_raw_start f) (\<lambda>pos. ret (f, False, pos))"
| "prepare_windows_file FOther = throw (plain_exn CAttributeError [AStr ''fileno''])"

definition restore_windows_file_pos :: "fd \<Rightarrow> bool \<Rightarrow> nat option \<Rightarrow> ('l \<times> world, unit) act" where
  "restore_windows_file_pos f is_io original_pos =
     (if original_pos = None \<or> original_pos = Some 0 then ret ()
      else if is_io then fh_seek f (the original_pos)
      else os_lseek_set f (the original_pos))"

definition pywin32_missing :: exn where
  "pywin32_missing = plain_exn CImportError
     [AStr ''Win32Locker requires the win32 extra (pywin32). Install it with: pip install \"portalocker[win32]\"'']"

definition ERROR_LOCK_VIOLATION :: int where "ERROR_LOCK_VIOLATION = 33"
definition ERROR_NOT_LOCKED :: int where "ERROR_NOT_LOCKED = 158"

definition strerror_of :: "exn \<Rightarrow> xarg" where
  "strerror_of e = (case exn_strerror e of None \<Rightarrow> AStr ''None'' | Some x \<Rightarrow> x)"

definition lock_failed :: "xarg \<Rightarrow> filearg \<Rightarrow> exn \<Rightarrow> exn" where
  "lock_failed msg fo cause = set_cause (LockException [AInt LOCK_FAILED, msg] (Some fo)) cause"

definition already_locked :: "xarg \<Rightarrow> filearg \<Rightarrow> exn \<Rightarrow> exn" where
  "already_locked msg fo cause = set_cause (AlreadyLocked [AInt LOCK_FAILED, msg] (Some fo)) cause"

definition win32_mode :: "int \<Rightarrow> int" where
  "win32_mode flags =
     (if has_flag flags (LOCK_NB NT) then 1 else 0) OR (if has_flag flags (LOCK_EX NT) then 2 else 0)"

definition win32_lock :: "filearg \<Rightarrow> int \<Rightarrow> ('l \<times> world, unit) act" where
  "win32_lock fo flags = andthen (env_get pywin32) (\<lambda>installed.
     if \<not> installed then throw (plain_exn CImportError [AStr ''No module named 'pywintypes' ''])
     else andthen (prepare_windows_file fo) (\<lambda>(f, is_io, pos).
       andthen (get_osfhandle f) (\<lambda>os_fh.
         try_finally
           (try_except (win32_call (LockFileEx (win32_mode flags)))
             (\<lambda>e. case exn_class e of
                CPyWinError n \<Rightarrow>
                  if n = ERROR_LOCK_VIOLATION then throw (already_locked (strerror_of e) fo e)
                  else throw (lock_failed (strerror_of e) fo e)
              | _ \<Rightarrow> throw e))
           (restore_windows_file_pos f is_io pos))))"

definition win32_unlock :: "filearg \<Rightarrow> ('l \<times> world, unit) act" where
  "win32_unlock fo = andthen (env_get pywin32) (\<lambda>installed.
     if \<not> installed then throw (plain_exn CImportError [AStr ''No module named 'pywintypes' ''])
     else andthen (prepare_windows_file fo) (\<lambda>(f, is_io, pos).
       andthen (get_osfhandle f) (\<lambda>os_fh.
         try_finally
           (try_except (win32_call UnlockFileEx)
             (\<lambda>e. case exn_class e of
                CPyWinError n \<Rightarrow>
                  if n \<noteq> ERROR_NOT_LOCKED then throw (lock_failed (strerror_of e) fo e) else ret ()
              | COSError n \<Rightarrow> throw (lock_failed (strerror_of e) fo e)
              | _ \<Rightarrow> throw e))
           (restore_windows_file_pos f is_io pos))))"

definition MSVCRT_LOCK_LENGTH :: nat where
  "MSVCRT_LOCK_LENGTH = 0x10000"

definition msvcrt_contention :: "int \<Rightarrow> bool" where
  "msvcrt_contention n \<longleftrightarrow> n \<in> {13, 16, 33, 36}"

text \<open>\<open>w32\<close> says whether the instance holds a \<^verbatim>\<open>Win32Locker\<close> for shared locks.\<close>

definition msvcrt_lock :: "bool \<Rightarrow> filearg \<Rightarrow> int \<Rightarrow> ('l \<times> world, unit) act" where
  "msvcrt_lock w32 fo flags =
     (if has_flag flags (LOCK_SH NT) then
        if \<not> w32 then throw (plain_exn CImportError
          [AStr ''Shared locks on Windows require the win32 extra (pywin32); msvcrt provides no true shared lock. Install it with: pip install \"portalocker[win32]\"''])
        else win32_lock fo (if has_flag flags (LOCK_NB NT) then LOCK_NB NT else 0)
      else andthen (prepare_windows_file fo) (\<lambda>(f, is_io, pos).
        try_finally
          (try_except
            (msvcrt_locking f (if has_flag flags (LOCK_NB NT) then LK_NBLCK else LK_LOCK)
               MSVCRT_LOCK_LENGTH)
            (\<lambda>e. case exn_class e of
               COSError n \<Rightarrow>
                 if msvcrt_contention n then throw (already_locked (AStrOf e) fo e)
                 else throw (lock_failed (AStrOf e) fo e)
             | _ \<Rightarrow> throw e))
          (restore_windows_file_pos f is_io pos)))"

text \<open>
  \<^verbatim>\<open>MsvcrtLocker.unlock\<close>: the \<^verbatim>\<open>finally\<close> clause restores the position unless the fallback was
  taken, which restores it before it prepares the file again.
\<close>

definition win32_fallback :: "filearg \<Rightarrow> exn \<Rightarrow> ('l \<times> world, unit) act" where
  "win32_fallback fo e = try_except (win32_unlock fo)
     (\<lambda>x. if is_LockException (exn_class x) then
            throw (lock_failed (AJoin [AStr ''msvcrt unlock failed ('', strerror_of e,
              AStr ''), and win32 fallback failed ('', strerror_of x, AStr '')'']) fo x)
          else if is_Exception (exn_class x) then
            throw (lock_failed (AJoin [AStr ''msvcrt unlock failed ('', strerror_of e,
              AStr ''), and win32 fallback failed with unexpected error: '', AStrOf x]) fo x)
          else throw x)"

definition msvcrt_unlock :: "bool \<Rightarrow> filearg \<Rightarrow> ('l \<times> world, unit) act" where
  "msvcrt_unlock w32 fo = andthen (prepare_windows_file fo) (\<lambda>(f, is_io, pos).
     let restore = restore_windows_file_pos f is_io pos in
     try_else (msvcrt_locking f LK_UNLCK MSVCRT_LOCK_LENGTH)
       (\<lambda>e. case exn_class e of
          COSError n \<Rightarrow>
            if n = 13 then
              if \<not> w32 then andthen restore (\<lambda>_. throw (lock_failed (AJoin [strerror_of e,
                AStr '' (the win32 unlock fallback is unavailable without pywin32; install it with: pip install \"portalocker[win32]\")'']) fo e))
              else andthen restore (\<lambda>_. win32_fallback fo e)
            else andthen restore (\<lambda>_. throw (lock_failed (strerror_of e) fo e))
        | _ \<Rightarrow> andthen restore (\<lambda>_. throw e))
       (\<lambda>_. restore))"

section \<open>\<^verbatim>\<open>LOCKER\<close> and its dispatch\<close>

text \<open>Calling a locker class. A \<^verbatim>\<open>MsvcrtLocker\<close> without \<^verbatim>\<open>pywin32\<close> has no \<^verbatim>\<open>Win32Locker\<close>.\<close>

definition new_locker :: "lcls \<Rightarrow> ('l \<times> world, linst) act" where
  "new_locker c = andthen (env_get pywin32) (\<lambda>installed.
     if c = Win32LockerC \<and> \<not> installed then throw pywin32_missing
     else ret \<lparr>li_cls = c, li_win32 = (c = MsvcrtLockerC \<and> installed)\<rparr>)"

definition resolve_locker_pair :: "lockerval \<Rightarrow> ('l \<times> world, (linst \<times> linst) option) act" where
  "resolve_locker_pair lk = (case lk of
      LInstance i \<Rightarrow> ret (Some (i, i))
    | LPair a b \<Rightarrow> ret (Some (a, b))
    | LClass c \<Rightarrow> andthen (env_get locker_instances) (\<lambda>cache. case cache c of
        Some i \<Rightarrow> ret (Some (i, i))
      | None \<Rightarrow> andthen (new_locker c) (\<lambda>i.
          andthen (upd_world (\<lambda>w. w\<lparr>locker_instances := (locker_instances w)(c \<mapsto> i)\<rparr>)) (\<lambda>_.
            ret (Some (i, i)))))
    | LCallable p \<Rightarrow> ret None)"

definition instance_lock :: "linst \<Rightarrow> filearg \<Rightarrow> int \<Rightarrow> ('l \<times> world, unit) act" where
  "instance_lock i fo flags = (case li_cls i of
      BaseLockerC \<Rightarrow> throw (plain_exn CNotImplementedError [])
    | Win32LockerC \<Rightarrow> win32_lock fo flags
    | MsvcrtLockerC \<Rightarrow> msvcrt_lock (li_win32 i) fo flags
    | c \<Rightarrow> posix_lock c fo flags)"

definition instance_unlock :: "linst \<Rightarrow> filearg \<Rightarrow> ('l \<times> world, unit) act" where
  "instance_unlock i fo = (case li_cls i of
      BaseLockerC \<Rightarrow> throw (plain_exn CNotImplementedError [])
    | Win32LockerC \<Rightarrow> win32_unlock fo
    | MsvcrtLockerC \<Rightarrow> msvcrt_unlock (li_win32 i) fo
    | c \<Rightarrow> posix_unlock c fo)"

definition locker_type_error :: exn where
  "locker_type_error = plain_exn CTypeError
     [AStr ''LOCKER must be a BaseLocker instance, a tuple of lock and unlock functions, or a subclass of BaseLocker'']"

definition nt_lock :: "filearg \<Rightarrow> int \<Rightarrow> ('l \<times> world, unit) act" where
  "nt_lock fo flags = andthen (env_get locker) (\<lambda>lk. andthen (resolve_locker_pair lk) (\<lambda>pair.
     case pair of
       None \<Rightarrow> throw locker_type_error
     | Some p \<Rightarrow> instance_lock (fst p) fo flags))"

definition nt_unlock :: "filearg \<Rightarrow> ('l \<times> world, unit) act" where
  "nt_unlock fo = andthen (env_get locker) (\<lambda>lk. andthen (resolve_locker_pair lk) (\<lambda>pair.
     case pair of
       None \<Rightarrow> throw locker_type_error
     | Some p \<Rightarrow> instance_unlock (snd p) fo))"

definition posix_dispatch_lock :: "filearg \<Rightarrow> int \<Rightarrow> ('l \<times> world, unit) act" where
  "posix_dispatch_lock fo flags =
     andthen (env_get locker) (\<lambda>lk. andthen (resolve_locker_pair lk) (\<lambda>pair.
       case pair of
         None \<Rightarrow> posix_lock PosixLockerC fo flags
       | Some p \<Rightarrow> instance_lock (fst p) fo flags))"

definition posix_dispatch_unlock :: "filearg \<Rightarrow> ('l \<times> world, unit) act" where
  "posix_dispatch_unlock fo =
     andthen (env_get locker) (\<lambda>lk. andthen (resolve_locker_pair lk) (\<lambda>pair.
       case pair of
         None \<Rightarrow> posix_unlock PosixLockerC fo
       | Some p \<Rightarrow> instance_unlock (snd p) fo))"

text \<open>The functions \<^verbatim>\<open>lock\<close> and \<^verbatim>\<open>unlock\<close> of the module, defined per platform.\<close>

definition pl_lock :: "filearg \<Rightarrow> int \<Rightarrow> ('l \<times> world, unit) act" where
  "pl_lock fo flags = andthen (env_get plat) (\<lambda>p.
     case p of NT \<Rightarrow> nt_lock fo flags | POSIX \<Rightarrow> posix_dispatch_lock fo flags)"

definition pl_unlock :: "filearg \<Rightarrow> ('l \<times> world, unit) act" where
  "pl_unlock fo = andthen (env_get plat) (\<lambda>p.
     case p of NT \<Rightarrow> nt_unlock fo | POSIX \<Rightarrow> posix_dispatch_unlock fo)"

end
