(* ===== verification/LockerFacts.thy ===== *)
theory LockerFacts
  imports Lockers
begin

text \<open>
  What every locker guarantees, whatever \<^verbatim>\<open>LOCKER\<close> is and on both platforms: the file object
  stays open on its file, the other handles are left alone, the calling object is not touched,
  and a non-blocking request returns. For the default POSIX locker (\<^verbatim>\<open>fcntl.flock\<close>) also what it
  achieves: a lock of the requested mode, or no lock.
\<close>

section \<open>Actions that leave the calling object alone\<close>

text \<open>
  \<open>calm h m\<close>: no run of \<open>m\<close> changes the object, it hangs only if \<open>h\<close>, and what it raises is an
  \<^verbatim>\<open>Exception\<close> (a handler \<^verbatim>\<open>except Exception\<close> sees it).
\<close>

definition calm :: "bool \<Rightarrow> ('l \<times> world, 'a) act \<Rightarrow> bool" where
  "calm h m \<longleftrightarrow> (\<forall>l w. fst (snd (m (l, w))) = l \<and> (fst (m (l, w)) = Hang \<longrightarrow> h) \<and>
     (\<forall>e. fst (m (l, w)) = Raise e \<longrightarrow> is_Exception (exn_class e)))"

named_theorems calm_intros
  \<open>introduction rules for actions that leave the object alone\<close>

lemma calm_ret [calm_intros]: "calm h (ret x)" and calm_throw [calm_intros]: "is_Exception (exn_class e) \<Longrightarrow> calm h (throw e)"
  by (simp_all add: calm_def ret_def throw_def)

lemma calmD:
  assumes "calm h m" "m (l, w) = (r, (l', w'))"
  shows "l' = l" "r = Hang \<longrightarrow> h" "r = Raise e \<longrightarrow> is_Exception (exn_class e)"
proof -
  have "fst (snd (m (l, w))) = l \<and> (fst (m (l, w)) = Hang \<longrightarrow> h) \<and>
     (\<forall>e. fst (m (l, w)) = Raise e \<longrightarrow> is_Exception (exn_class e))"
    using assms(1) unfolding calm_def by blast
  with assms(2) show "l' = l" "r = Hang \<longrightarrow> h" "r = Raise e \<longrightarrow> is_Exception (exn_class e)"
    by auto
qed

lemma calm_try_else [calm_intros]:
  assumes m: "calm h m" and hh: "\<And>e. is_Exception (exn_class e) \<Longrightarrow> calm h (hh e)"
    and k: "\<And>x. calm h (k x)"
  shows "calm h (try_else m hh k)"
  unfolding calm_def
proof (intro allI)
  fix l w
  obtain r l1 w1 where r: "m (l, w) = (r, (l1, w1))" by (metis prod.exhaust)
  note d = calmD [OF m r]
  show "fst (snd (try_else m hh k (l, w))) = l \<and> (fst (try_else m hh k (l, w)) = Hang \<longrightarrow> h) \<and>
     (\<forall>e. fst (try_else m hh k (l, w)) = Raise e \<longrightarrow> is_Exception (exn_class e))"
  proof (cases r)
    case (Done x)
    with r d(1) k [of x] show ?thesis by (simp add: try_else_def calm_def)
  next
    case (Raise e)
    with d(3) have "calm h (hh e)" by (intro hh) blast
    then show ?thesis unfolding calm_def by (simp add: try_else_def r Raise d(1))
  next
    case Hang
    with r d(1,2) show ?thesis by (simp add: try_else_def)
  qed
qed

lemma andthen_try_else: "andthen m k = try_else m throw k"
  by (rule ext) (simp add: andthen_def try_else_def throw_def split: prod.split res.split)

lemma try_except_try_else: "try_except m hh = try_else m hh ret"
  by (rule ext) (simp add: try_except_def try_else_def ret_def split: prod.split res.split)

lemma calm_andthen [calm_intros]: "calm h m \<Longrightarrow> (\<And>x. calm h (k x)) \<Longrightarrow> calm h (andthen m k)"
  unfolding andthen_try_else by (intro calm_intros)

lemma calm_try_except [calm_intros]:
  "calm h m \<Longrightarrow> (\<And>e. is_Exception (exn_class e) \<Longrightarrow> calm h (hh e)) \<Longrightarrow> calm h (try_except m hh)"
  unfolding try_except_try_else by (intro calm_intros)

lemma calm_try_finally [calm_intros]: "calm h m \<Longrightarrow> calm h k \<Longrightarrow> calm h (try_finally m k)"
  unfolding try_finally_def by (intro calm_intros)

lemma calm_if [calm_intros]: "calm h m \<Longrightarrow> calm h k \<Longrightarrow> calm h (if b then m else k)"
  by simp

lemma calm_let [calm_intros]: "calm h (f x) \<Longrightarrow> calm h (let y = x in f y)"
  by simp

lemma calm_on_cond [calm_intros]: "calm h m \<Longrightarrow> calm h (on_cond b m)"
  by (simp add: on_cond_def calm_ret)

lemma calm_case_option [calm_intros]:
  "calm h m \<Longrightarrow> (\<And>x. calm h (f x)) \<Longrightarrow> calm h (case y of None \<Rightarrow> m | Some x \<Rightarrow> f x)"
  by (cases y) simp_all

lemma calm_case_prod [calm_intros]:
  "(\<And>x z. calm h (f x z)) \<Longrightarrow> calm h (case y of (x, z) \<Rightarrow> f x z)"
  by (cases y) simp

lemma calm_env_get [calm_intros]: "calm h (env_get g)"
  and calm_upd_world [calm_intros]: "calm h (upd_world u)"
  and calm_warn [calm_intros]: "calm h (warn msg)"
  and calm_fileno [calm_intros]: "calm h (py_fileno f)"
  by (simp_all add: calm_def env_get_def upd_world_def warn_def py_fileno_def)

lemma calm_syscall:
  "(\<And>w. fst (k w) = Hang \<longrightarrow> h) \<Longrightarrow> (\<And>w e. fst (k w) = Raise e \<Longrightarrow> is_Exception (exn_class e))
    \<Longrightarrow> calm h (syscall k)"
  unfolding calm_def syscall_def by (auto split: prod.splits option.splits) (metis fst_conv)+

lemma calm_on_handle:
  "(\<And>x w. fst (k x w) \<noteq> Hang) \<Longrightarrow> (\<And>x w e. fst (k x w) = Raise e \<Longrightarrow> is_Exception (exn_class e))
    \<Longrightarrow> calm h (on_handle f k)"
  unfolding on_handle_def by (intro calm_syscall) (auto split: option.splits)

lemma calm_win32_call [calm_intros]: "calm h (win32_call oper)"
  by (auto simp: calm_def win32_call_def win_error_def split: prod.splits option.splits)

lemma locking_wait_exn:
  "fst (k_locking_wait k f s n w) = Raise e \<Longrightarrow> exn_class e = COSError EDEADLOCK"
  by (induction k arbitrary: w) (auto split: if_splits)

lemma wait_until_exn: "fst (wait_until n busy grant w) \<noteq> Raise e"
  by (induction n arbitrary: w) auto

lemma k_lock_exn:
  "fst (k_flock f oper w) = Raise e \<Longrightarrow> is_OSError (exn_class e)"
  "fst (k_lockf f oper w) = Raise e \<Longrightarrow> is_OSError (exn_class e) \<or> exn_class e = CValueError"
  "fst (k_locking f md n w) = Raise e \<Longrightarrow> is_OSError (exn_class e)"
  by (auto simp: k_flock_def k_lockf_def k_locking_def Let_def wait_until_exn is_OSError_def
      dest: locking_wait_exn simp del: wait_until.simps k_locking_wait.simps
      split: option.splits if_splits)

lemma os_or_value_Exception:
  "is_OSError c \<Longrightarrow> is_Exception c" "is_OSError c \<or> c = CValueError \<Longrightarrow> is_Exception c"
  by (auto simp: is_OSError_def)

lemmas k_lock_Exception = k_lock_exn(1) [THEN os_or_value_Exception(1)]
  k_lock_exn(3) [THEN os_or_value_Exception(1)]
  k_lock_exn(2) [THEN os_or_value_Exception(2)]

lemma locking_wait_returns: "fst (k_locking_wait k f s n w) \<noteq> Hang"
  by (induction k arbitrary: w) auto

lemma k_flock_returns: "has_flag oper 4 \<Longrightarrow> fst (k_flock f oper w) \<noteq> Hang"
  by (auto simp: k_flock_def Let_def split: option.splits)

lemma k_lockf_returns: "has_flag oper 4 \<Longrightarrow> fst (k_lockf f oper w) \<noteq> Hang"
  by (auto simp: k_lockf_def split: option.splits)

lemma unlock_returns: "fst (k_flock f 8 w) \<noteq> Hang" "fst (k_lockf f 8 w) \<noteq> Hang"
  by (auto simp: k_flock_def k_lockf_def Let_def split: option.splits)

lemma calm_calls [calm_intros]:
  "calm h (fh_tell f)" "calm h (fh_seek f n)" "calm h (os_lseek_cur f)"
  "calm h (os_lseek_set f n)" "calm h (get_osfhandle f)" "calm h (msvcrt_locking f md n)"
  "calm h (fh_truncate f n)" "calm h (fh_write f s)" "calm h (fh_flush f)" "calm h (os_fsync f)"
  "calm h (fh_read f)"
proof -
  show "calm h (msvcrt_locking f md n)"
    unfolding msvcrt_locking_def
    by (intro calm_syscall k_lock_Exception(2))
       (auto simp: k_locking_def locking_wait_returns simp del: k_locking_wait.simps
         split: option.splits)
  show "calm h (fh_truncate f n)"
    unfolding fh_truncate_def by (intro calm_on_handle) (auto simp: Let_def split: if_splits)
qed (auto simp: fh_tell_def fh_seek_def os_lseek_cur_def os_lseek_set_def get_osfhandle_def
       fh_write_def fh_flush_def os_fsync_def fh_read_def
     split: option.splits if_splits intro!: calm_on_handle calm_syscall)

lemma calm_fcntl_call: "\<not> has_flag oper 4 \<longrightarrow> h \<Longrightarrow> calm h (fcntl_call p f oper)"
  unfolding fcntl_call_def
  by (cases p; intro calm_syscall)
     (use k_flock_returns k_lockf_returns k_lock_Exception in auto)

lemma calm_fcntl_unlock: "calm h (fcntl_call p f 8)"
  unfolding fcntl_call_def
  by (cases p; intro calm_syscall) (use unlock_returns k_lock_Exception in auto)

lemma calm_call_locker: "\<not> has_flag oper 4 \<longrightarrow> oper \<noteq> 8 \<longrightarrow> h \<Longrightarrow> calm h (call_locker lk f oper)"
  by (cases lk) (auto intro: calm_intros calm_fcntl_call calm_fcntl_unlock)

lemma calm_get_fd [calm_intros]: "calm h (posix_get_fd fo)"
  by (cases fo) (auto intro: calm_intros)

lemma calm_posix_locker [calm_intros]: "calm h (posix_locker c)"
  by (cases "class_locker c") (auto simp: posix_locker_def intro: calm_intros)

lemma lock_failed_class [simp]:
  "exn_class (lock_failed x fo e) = CLockException"
  "exn_class (already_locked x fo e) = CAlreadyLocked"
  "exn_class pywin32_missing = CImportError" "exn_class locker_type_error = CTypeError"
  by (simp_all add: lock_failed_def already_locked_def pywin32_missing_def locker_type_error_def)

lemma posix_translate_Exception:
  "is_Exception (exn_class e) \<Longrightarrow> is_Exception (exn_class (posix_translate fo e))"
  by (auto simp: posix_translate_def split: xcls.splits)

lemma calm_posix_lock: "\<not> has_flag flags 4 \<longrightarrow> h \<Longrightarrow> calm h (posix_lock c fo flags)"
  unfolding posix_lock_def by (intro calm_intros calm_call_locker posix_translate_Exception) simp_all

lemma calm_posix_unlock: "calm h (posix_unlock c fo)"
  unfolding posix_unlock_def by (intro calm_intros calm_call_locker) simp

lemma calm_prepare [calm_intros]: "calm h (prepare_windows_file fo)"
  by (cases fo) (auto simp: seek_raw_start_def intro!: calm_intros)

lemma calm_restore [calm_intros]: "calm h (restore_windows_file_pos f b p)"
  unfolding restore_windows_file_pos_def by (intro calm_intros)

lemma calm_case_class [calm_intros]:
  "(\<And>n. calm h (f n)) \<Longrightarrow> calm h g \<Longrightarrow> calm h (case c of CPyWinError n \<Rightarrow> f n | _ \<Rightarrow> g)"
  "(\<And>n. calm h (f n)) \<Longrightarrow> calm h g \<Longrightarrow> calm h (case c of COSError n \<Rightarrow> f n | _ \<Rightarrow> g)"
  "(\<And>n. calm h (f n)) \<Longrightarrow> (\<And>n. calm h (k n)) \<Longrightarrow> calm h g
    \<Longrightarrow> calm h (case c of CPyWinError n \<Rightarrow> f n | COSError n \<Rightarrow> k n | _ \<Rightarrow> g)"
  by (cases c; simp)+

lemma calm_win32_lock [calm_intros]: "calm h (win32_lock fo flags)"
  unfolding win32_lock_def by (intro calm_intros) simp_all

lemma calm_win32_unlock [calm_intros]: "calm h (win32_unlock fo)"
  unfolding win32_unlock_def by (intro calm_intros) simp_all

lemma calm_msvcrt_lock [calm_intros]: "calm h (msvcrt_lock b fo flags)"
  unfolding msvcrt_lock_def by (intro calm_intros) simp_all

lemma calm_msvcrt_unlock [calm_intros]: "calm h (msvcrt_unlock b fo)"
  unfolding msvcrt_unlock_def win32_fallback_def Let_def by (intro calm_intros) simp_all

lemma calm_resolve [calm_intros]: "calm h (resolve_locker_pair lk)"
  by (cases lk) (auto simp: resolve_locker_pair_def new_locker_def intro!: calm_intros)

lemma calm_instance_lock: "\<not> has_flag flags 4 \<longrightarrow> h \<Longrightarrow> calm h (instance_lock i fo flags)"
  by (cases "li_cls i") (auto simp: instance_lock_def intro: calm_intros calm_posix_lock)

lemma calm_instance_unlock: "calm h (instance_unlock i fo)"
  by (cases "li_cls i") (auto simp: instance_unlock_def intro: calm_intros calm_posix_unlock)

lemma calm_case_platform [calm_intros]:
  "calm h m \<Longrightarrow> calm h k \<Longrightarrow> calm h (case p of POSIX \<Rightarrow> m | NT \<Rightarrow> k)"
  by (cases p) simp_all

lemma calm_pl_lock: "\<not> has_flag flags 4 \<longrightarrow> h \<Longrightarrow> calm h (pl_lock fo flags)"
  unfolding pl_lock_def nt_lock_def posix_dispatch_lock_def
  by (intro calm_intros calm_posix_lock calm_instance_lock) simp_all

lemma calm_pl_unlock: "calm h (pl_unlock fo)"
  unfolding pl_unlock_def nt_unlock_def posix_dispatch_unlock_def
  by (intro calm_intros calm_posix_unlock calm_instance_unlock) simp_all

section \<open>The handle stays open\<close>

text \<open>
  \<open>keeps f\<close>: the other handles are as before, and \<open>f\<close>, if it was open, is open on the same file;
  its lock may have changed.
\<close>

definition keeps :: "fd \<Rightarrow> world \<Rightarrow> world \<Rightarrow> bool" where
  "keeps f w w' \<longleftrightarrow> (wf_world w \<longrightarrow> rely_but f w w' \<and>
     (mine w f \<longrightarrow> mine w' f \<and> map_option h_ino (handles w' f) = map_option h_ino (handles w f)))"

lemma rely_keeps: "rely w w' \<Longrightarrow> keeps f w w'"
  using rely_touched by (auto simp: keeps_def touched_def)

lemma touched_keeps: "touched f w w' \<Longrightarrow> keeps f w w'"
  by (auto simp: keeps_def touched_def)

lemma keeps_refl: "keeps f w w"
  by (simp add: keeps_def rely_but_refl)

lemma keeps_trans: "keeps f u v \<Longrightarrow> keeps f v w \<Longrightarrow> keeps f u w"
  unfolding keeps_def by (auto simp: rely_but_wf intro: rely_but_trans)

interpretation keeps_eff: os_effect_relation "keeps f" for f
proof unfold_locales
  fix u v w
  show "keeps f w w" by (rule keeps_refl)
  show "keeps f u v \<Longrightarrow> keeps f v w \<Longrightarrow> keeps f u w" by (rule keeps_trans)
  show "keeps f w (snd (pop w))"
    by (cases "wf_world w") (blast intro: rely_pop rely_keeps, simp add: keeps_def)
qed

lemma locked_keeps: "locked f m w w' \<Longrightarrow> keeps f w w'"
  by (simp add: locked_def keeps_def)

lemma keeps_wait_flock:
  assumes "mine w f"
  shows "keeps f w (snd (wait_until n (\<lambda>u. flock_conflict u f m) (grant_flock f m) w))"
  using assms
proof (induction n arbitrary: w)
  case 0
  then show ?case by (auto simp: keeps_refl intro: locked_keeps locked_grant)
next
  case (Suc n)
  show ?case
  proof (cases "wf_world w")
    case True
    then have r: "rely w (snd (pop w))" by (rule rely_pop)
    with Suc have "keeps f w
        (snd (wait_until n (\<lambda>u. flock_conflict u f m) (grant_flock f m) (snd (pop w))))"
      by (meson keeps_trans rely_keeps rely_mine)
    with Suc.prems show ?thesis by (auto intro: locked_keeps locked_grant)
  qed (simp add: keeps_def)
qed

lemma keeps_drop_wait_flock:
  assumes "mine w f"
  shows "keeps f w (snd (wait_until n (\<lambda>u. flock_conflict u f m) (grant_flock f m) (drop_flock f w)))"
  by (rule keeps_trans [OF locked_keeps [OF locked_drop [OF assms]] keeps_wait_flock])
     (use assms in \<open>simp add: drop_flock_def mine_iff\<close>)

lemma keeps_flock: "keeps f w (snd (k_flock f oper w))"
  using keeps_drop_wait_flock locked_keeps [OF locked_drop] locked_keeps [OF locked_grant]
  by (auto simp: k_flock_def Let_def keeps_refl
      simp del: wait_until.simps lmode_of.simps split: option.splits)

lemma keeps_plocks: "keeps f w (w\<lparr>plocks := c\<rparr>)"
  by (auto simp: keeps_def rely_but_def mine_iff wf_plocks)

lemma keeps_grant_plock: "keeps f w (grant_plock i m w)"
  by (simp add: grant_plock_def keeps_plocks)

lemma keeps_nlocks: "keeps f w (w\<lparr>nlocks := c\<rparr>)"
  by (auto simp: keeps_def rely_but_def mine_iff wf_nlocks)

lemma keeps_clock: "keeps f w (w\<lparr>clock := clock w + 1\<rparr>)"
  by (auto simp: keeps_def rely_but_def mine_iff)

lemma keeps_wait_plock: "keeps f w (snd (wait_until n busy (grant_plock i m) w))"
proof (induction n arbitrary: w)
  case 0
  then show ?case by (auto simp: keeps_refl keeps_grant_plock)
next
  case (Suc n)
  have "keeps f w (snd (wait_until n busy (grant_plock i m) (snd (pop w))))"
    by (rule keeps_trans [OF keeps_eff.env Suc.IH])
  then show ?case by (auto simp: keeps_grant_plock)
qed

lemma keeps_lockf: "keeps f w (snd (k_lockf f oper w))"
  by (auto simp: k_lockf_def keeps_refl keeps_wait_plock grant_plock_def drop_plock_def keeps_plocks
      simp del: wait_until.simps lockf_mode.simps split: option.splits)

lemma keeps_locking: "keeps f w (snd (k_locking g md n w))"
proof -
  have wait: "keeps f w (snd (k_locking_wait k g s n w))" for k s w
  proof (induction k arbitrary: w)
    case (Suc k)
    have "keeps f w ((snd (pop w))\<lparr>clock := clock (snd (pop w)) + 1\<rparr>)"
      by (rule keeps_trans [OF keeps_eff.env keeps_clock])
    with Suc show ?case by (auto simp: Let_def keeps_nlocks intro: keeps_trans)
  qed (simp add: keeps_refl)
  show ?thesis
    by (auto simp: k_locking_def keeps_refl keeps_nlocks wait simp del: k_locking_wait.simps
        split: option.splits)
qed

lemmas keeps_k_flush = touched_keeps [OF touched_k_flush]
  and keeps_set_pos = touched_keeps [OF touched_set_pos]
  and keeps_content = touched_keeps [OF touched_content]

lemma keeps_on_handle:
  "(\<And>h w. own_handle w f = Some h \<Longrightarrow> keeps f w (snd (k h w))) \<Longrightarrow> eff (keeps f) (on_handle f k)"
  unfolding on_handle_def
  by (intro keeps_eff.eff_syscall) (auto split: option.splits simp: keeps_refl)

lemma keeps_calls [eff_intros]:
  "eff (keeps f) (fh_seek f n)" "eff (keeps f) (fh_tell f)" "eff (keeps f) (os_lseek_cur f)"
  "eff (keeps f) (os_lseek_set f n)" "eff (keeps f) (get_osfhandle f)"
  "eff (keeps f) (msvcrt_locking f md n)" "eff (keeps f) (fcntl_call p f oper)"
  "eff (keeps f) (fh_truncate f n)" "eff (keeps f) (fh_write f s)" "eff (keeps f) (fh_flush f)"
  "eff (keeps f) (os_fsync f)" "eff (keeps f) (fh_read f)"
proof -
  show "eff (keeps f) (fh_write f s)"
    unfolding fh_write_def
    by (intro keeps_on_handle)
       (auto simp: keeps_refl own_handle_Some touched_def rely_but_def mine_iff wf_same_ino
         intro!: touched_keeps)
  show "eff (keeps f) (fcntl_call p f oper)"
    unfolding fcntl_call_def
    by (intro keeps_eff.eff_syscall) (simp add: keeps_flock keeps_lockf split: prim.splits)
  show "eff (keeps f) (fh_seek f n)"
    unfolding fh_seek_def
    by (intro keeps_on_handle) (auto intro: keeps_trans keeps_k_flush keeps_set_pos)
  show "eff (keeps f) (fh_truncate f n)"
    unfolding fh_truncate_def
    by (intro keeps_on_handle)
       (auto simp: Let_def keeps_refl intro: keeps_trans keeps_k_flush keeps_content)
qed (auto simp: fh_tell_def os_lseek_cur_def os_lseek_set_def get_osfhandle_def msvcrt_locking_def
      fh_flush_def os_fsync_def fh_read_def keeps_refl keeps_locking keeps_k_flush keeps_set_pos
     intro!: keeps_on_handle keeps_eff.eff_syscall
     split: option.splits)

lemma keeps_win32_call [eff_intros]: "eff (keeps f) (win32_call oper)"
  unfolding eff_def win32_call_def
  by (auto split: prod.splits option.splits) (metis keeps_eff.env snd_conv)+

lemma keeps_upd_instances [eff_intros]:
  "eff (keeps f) (upd_world (\<lambda>w. w\<lparr>locker_instances := c w\<rparr>))"
  by (auto simp: eff_def upd_world_def keeps_def rely_but_def mine_iff wf_world_def
      locks_compatible_def same_file_def)

lemma keeps_case_class [eff_intros]:
  "(\<And>n. eff (keeps f) (a n)) \<Longrightarrow> eff (keeps f) g
    \<Longrightarrow> eff (keeps f) (case c of CPyWinError n \<Rightarrow> a n | _ \<Rightarrow> g)"
  "(\<And>n. eff (keeps f) (a n)) \<Longrightarrow> eff (keeps f) g
    \<Longrightarrow> eff (keeps f) (case c of COSError n \<Rightarrow> a n | _ \<Rightarrow> g)"
  "(\<And>n. eff (keeps f) (a n)) \<Longrightarrow> (\<And>n. eff (keeps f) (k n)) \<Longrightarrow> eff (keeps f) g
    \<Longrightarrow> eff (keeps f) (case c of CPyWinError n \<Rightarrow> a n | COSError n \<Rightarrow> k n | _ \<Rightarrow> g)"
  by (cases c; simp)+

lemma keeps_restore [eff_intros]: "eff (keeps f) (restore_windows_file_pos f b p)"
  unfolding restore_windows_file_pos_def by (intro eff_intros)

text \<open>The file object of the locking functions of \<^verbatim>\<open>utils.py\<close> is always a Python file.\<close>

lemma fileno_andthen: "andthen (py_fileno f) k = andthen (py_fileno f) (\<lambda>_. k f)"
  by (rule ext) (auto simp: andthen_def py_fileno_def split: prod.splits)

lemma andthen_assoc: "andthen (andthen m k) k' = andthen m (\<lambda>x. andthen (k x) k')"
  by (rule ext) (auto simp: andthen_def split: prod.splits res.splits)

lemma andthen_ret: "andthen (ret x) k = k x"
  by (rule ext) (simp add: andthen_def ret_def)

lemma keeps_prepare:
  assumes "\<And>b p. eff (keeps f) (k (f, b, p))"
  shows "eff (keeps f) (andthen (prepare_windows_file (FFile f)) k)"
  unfolding prepare_windows_file.simps andthen_assoc andthen_ret
  by (subst fileno_andthen) (intro eff_intros assms)

lemma keeps_get_fd:
  assumes "eff (keeps f) (k f)"
  shows "eff (keeps f) (andthen (posix_get_fd (FFile f)) k)"
  unfolding posix_get_fd.simps
  by (subst fileno_andthen) (intro eff_intros assms)

lemma keeps_osfhandle:
  assumes "\<And>g. eff (keeps f) (k g)"
  shows "eff (keeps f) (andthen (get_osfhandle f) k)"
  by (intro eff_intros assms)

lemma keeps_call_locker [eff_intros]: "eff (keeps f) (call_locker lk f oper)"
  by (cases lk) (auto intro: eff_intros)

lemma keeps_posix_locker [eff_intros]: "eff (keeps f) (posix_locker c)"
  unfolding posix_locker_def by (intro eff_intros)

lemma keeps_posix [eff_intros]:
  "eff (keeps f) (posix_lock c (FFile f) flags)" "eff (keeps f) (posix_unlock c (FFile f))"
  unfolding posix_lock_def posix_unlock_def by (intro keeps_get_fd eff_intros)+

lemma keeps_win32 [eff_intros]:
  "eff (keeps f) (win32_lock (FFile f) flags)" "eff (keeps f) (win32_unlock (FFile f))"
  unfolding win32_lock_def win32_unlock_def prod.case
  by (intro keeps_eff.eff_andthen [OF keeps_eff.eff_env_get] keeps_eff.eff_if keeps_eff.eff_throw
      keeps_prepare; simp only: prod.case; intro eff_intros)+

lemma keeps_msvcrt [eff_intros]:
  "eff (keeps f) (msvcrt_lock b (FFile f) flags)" "eff (keeps f) (msvcrt_unlock b (FFile f))"
  unfolding msvcrt_lock_def msvcrt_unlock_def win32_fallback_def Let_def
  by (intro keeps_eff.eff_if keeps_eff.eff_throw keeps_win32 keeps_prepare;
      simp only: prod.case; intro eff_intros)+

lemma keeps_resolve [eff_intros]: "eff (keeps f) (resolve_locker_pair lk)"
  by (cases lk) (auto simp: resolve_locker_pair_def new_locker_def intro!: eff_intros)

lemma keeps_instance [eff_intros]:
  "eff (keeps f) (instance_lock i (FFile f) flags)" "eff (keeps f) (instance_unlock i (FFile f))"
  by (cases "li_cls i"; auto simp: instance_lock_def instance_unlock_def intro: eff_intros)+

lemma keeps_case_platform [eff_intros]:
  "eff (keeps f) m \<Longrightarrow> eff (keeps f) k \<Longrightarrow> eff (keeps f) (case p of POSIX \<Rightarrow> m | NT \<Rightarrow> k)"
  by (cases p) simp_all

lemma keeps_pl [eff_intros]:
  "eff (keeps f) (pl_lock (FFile f) flags)" "eff (keeps f) (pl_unlock (FFile f))"
  unfolding pl_lock_def nt_lock_def posix_dispatch_lock_def
    pl_unlock_def nt_unlock_def posix_dispatch_unlock_def
  by (intro eff_intros)+

text \<open>The two predicates together give a weakest precondition.\<close>

lemma wp_calm_eff:
  assumes "calm h m" "eff R m"
    and "\<And>x u. R w u \<Longrightarrow> Q x (l, u)"
    and "\<And>e u. R w u \<Longrightarrow> is_Exception (exn_class e) \<Longrightarrow> E e (l, u)"
  shows "wp h m Q E (l, w)"
proof -
  obtain r l' u where r: "m (l, w) = (r, (l', u))" by (metis prod.exhaust)
  note c = calmD [OF assms(1) r] and e = effD [OF assms(2) r]
  show ?thesis
  proof (cases r)
    case (Done x)
    with r c(1) assms(3) [OF e] show ?thesis by (simp add: wp_def)
  next
    case (Raise x)
    with c(3) have "is_Exception (exn_class x)" by blast
    with Raise r c(1) assms(4) [OF e] show ?thesis by (simp add: wp_def)
  next
    case Hang
    with r c(2) show ?thesis by (simp add: wp_def)
  qed
qed

section \<open>The default POSIX locker\<close>

text \<open>\<open>flock_world\<close>: a POSIX system with \<^verbatim>\<open>LOCKER\<close> as the module sets it.\<close>

definition flock_world :: "world \<Rightarrow> bool" where
  "flock_world w \<longleftrightarrow> plat w = POSIX \<and> locker w = LCallable FcntlFlock"

lemma flock_world_keeps: "rely_but f w u \<Longrightarrow> flock_world w \<Longrightarrow> flock_world u"
  by (simp add: flock_world_def rely_but_def)

lemma flock_world_rely: "rely w u \<Longrightarrow> flock_world w \<Longrightarrow> flock_world u"
  by (simp add: flock_world_def rely_def)

text \<open>
  What the translation makes of an error of the call, and the exceptions of a lock request:
  \<^verbatim>\<open>AlreadyLocked\<close> exactly for contention, \<^verbatim>\<open>LockException\<close> for the rest, with the cause.
\<close>

definition locker_exn :: "filearg \<Rightarrow> exn \<Rightarrow> bool" where
  "locker_exn fo e \<longleftrightarrow> exn_class e \<in> {CAlreadyLocked, CLockException} \<and>
     (\<exists>c. exn_cause e = Some c \<and> exn_args e = [AExn c, AStrOf c] \<and>
       (exn_class c = CEOFError \<or> is_OSError (exn_class c)) \<and>
       (exn_class e = CAlreadyLocked \<longleftrightarrow> exn_class c \<in> {COSError EACCES, COSError EAGAIN}))"

lemma posix_translate_exn:
  assumes "exn_class e = CEOFError \<or> is_OSError (exn_class e)"
  shows "locker_exn fo (posix_translate fo e)"
  using assms
  by (auto simp: posix_translate_def locker_exn_def is_OSError_def split: xcls.splits)

lemma locker_exn_fault: "locker_exn fo (posix_translate fo (fault_exn e))"
  by (rule posix_translate_exn) (cases e; simp add: is_OSError_def)

lemma locker_exn_class: "locker_exn fo e \<Longrightarrow> is_LockException (exn_class e)"
  by (auto simp: locker_exn_def)

lemma lmode_of_nb: "lmode_of (flags AND NOT 4) = Some m \<Longrightarrow> \<not> nb_without_type flags"
proof -
  assume "lmode_of (flags AND NOT 4) = Some m"
  then have "flags AND NOT 4 = 1 \<or> flags AND NOT 4 = 2" by (auto split: if_splits)
  then have "(flags AND NOT 4) AND 3 \<noteq> 0" by auto
  then show ?thesis by (simp add: nb_without_type_def has_flag_def and.assoc)
qed

lemma wp_pl_lock_flock:
  assumes "wf_world w" "mine w f" "flock_world w" "lmode_of (flags AND NOT 4) = Some m"
    and "\<not> has_flag flags 4 \<longrightarrow> h"
    and "\<And>u. locked f (Some m) w u \<Longrightarrow> wf_world u \<Longrightarrow> Q () (l, u)"
    and "\<And>u e. keeps f w u \<Longrightarrow> wf_world u \<Longrightarrow> locker_exn (FFile f) e \<Longrightarrow> E e (l, u)"
  shows "wp h (pl_lock (FFile f) flags) Q E (l, w)"
  using assms(2,3) lmode_of_nb [OF assms(4)]
  by (simp add: pl_lock_def posix_dispatch_lock_def resolve_locker_pair_def flock_world_def
      posix_lock_def posix_locker_def wp_simps, intro wp_fileno)
     (auto simp: wp_simps intro!: wp_flock_lock [OF assms(1,2,4,5)] assms(6,7)
       locker_exn_fault posix_translate_exn simp: is_OSError_def rely_keeps locked_keeps)

lemma wp_pl_unlock_flock:
  assumes "wf_world w" "mine w f" "flock_world w"
    and "\<And>u. locked f None w u \<Longrightarrow> wf_world u \<Longrightarrow> Q () (l, u)"
    and "\<And>u e. rely w u \<Longrightarrow> wf_world u \<Longrightarrow> E (fault_exn e) (l, u)"
  shows "wp h (pl_unlock (FFile f)) Q E (l, w)"
  using assms(2,3)
  by (simp add: pl_unlock_def posix_dispatch_unlock_def resolve_locker_pair_def flock_world_def
      posix_unlock_def posix_locker_def wp_simps, intro wp_fileno)
     (auto simp: wp_simps intro!: wp_flock_unlock [OF assms(1,2)] assms(4,5))

end
