(* ===== verification/Retry.thy ===== *)
theory Retry
  imports OsCalls
begin

text \<open>
  \<^verbatim>\<open>LockBase\<close> of \<^verbatim>\<open>utils.py\<close>: the defaults and \<^verbatim>\<open>coalesce\<close>, the retry policy every lock stores,
  and \<^verbatim>\<open>_timeout_generator\<close>, a generator with three suspension points. A \<^verbatim>\<open>for\<close> loop over it is
  \<open>retry_loop\<close>; the locale \<open>retrying\<close> is the contract between the generator and a loop body,
  and proves once that such a loop ends, how often it runs the body, and that the invariant of
  the body holds at the end.
\<close>

section \<open>Defaults and \<^verbatim>\<open>coalesce\<close>\<close>

definition DEFAULT_TIMEOUT :: time where
  "DEFAULT_TIMEOUT = 5"

definition DEFAULT_CHECK_INTERVAL :: time where
  "DEFAULT_CHECK_INTERVAL = 1 / 4"

definition DEFAULT_FAIL_WHEN_LOCKED :: bool where
  "DEFAULT_FAIL_WHEN_LOCKED = False"

text \<open>The first argument that is not the test value; \<^verbatim>\<open>None\<close> when there is none.\<close>

definition coalesce :: "'a option \<Rightarrow> 'a option list \<Rightarrow> 'a option" where
  "coalesce test_value args =
     (case find (\<lambda>a. a \<noteq> test_value) args of None \<Rightarrow> None | Some a \<Rightarrow> a)"

lemma coalesce_None_simps [simp]:
  "coalesce None [] = None"
  "coalesce None (None # xs) = coalesce None xs"
  "coalesce None (Some x # xs) = Some x"
  by (simp_all add: coalesce_def)

lemma coalesce_default: "coalesce None [x, Some d] = Some (case x of None \<Rightarrow> d | Some y \<Rightarrow> y)"
  by (cases x) simp_all

section \<open>The retry policy\<close>

record lockbase =
  lb_timeout :: time
  lb_check_interval :: time
  lb_fail_when_locked :: bool

definition lockbase_init :: "time option \<Rightarrow> time option \<Rightarrow> bool option \<Rightarrow> lockbase" where
  "lockbase_init t ci fwl =
     \<lparr> lb_timeout = the (coalesce None [t, Some DEFAULT_TIMEOUT]),
       lb_check_interval = the (coalesce None [ci, Some DEFAULT_CHECK_INTERVAL]),
       lb_fail_when_locked = the (coalesce None [fwl, Some DEFAULT_FAIL_WHEN_LOCKED]) \<rparr>"

section \<open>The generator\<close>

text \<open>
  Suspended before it started, at \<^verbatim>\<open>yield 0\<close>, or at \<^verbatim>\<open>yield i\<close> in the loop that began at
  \<open>start\<close>. Resuming runs to the next \<^verbatim>\<open>yield\<close> or to the end.
\<close>

datatype retry_gen = GenStart | GenFirst | GenLoop time nat

definition effective_timeout :: "'z lockbase_scheme \<Rightarrow> time option \<Rightarrow> time" where
  "effective_timeout sf t = the (coalesce None [t, Some (lb_timeout sf), Some 0])"

definition effective_interval :: "'z lockbase_scheme \<Rightarrow> time option \<Rightarrow> time" where
  "effective_interval sf ci = the (coalesce None [ci, Some (lb_check_interval sf), Some 0])"

definition gen_check ::
  "time \<Rightarrow> time \<Rightarrow> nat \<Rightarrow> ('l \<times> world, (nat \<times> retry_gen) option) act" where
  "gen_check f_timeout start i = andthen perf_counter (\<lambda>now.
     if start + f_timeout > now then ret (Some (Suc i, GenLoop start (Suc i))) else ret None)"

fun timeout_generator ::
  "'z lockbase_scheme \<Rightarrow> time option \<Rightarrow> time option
    \<Rightarrow> retry_gen \<Rightarrow> ('l \<times> world, (nat \<times> retry_gen) option) act" where
  "timeout_generator sf t ci GenStart = ret (Some (0, GenFirst))"
| "timeout_generator sf t ci GenFirst =
     andthen perf_counter (\<lambda>start. gen_check (effective_timeout sf t) start 0)"
| "timeout_generator sf t ci (GenLoop start i) =
     andthen perf_counter (\<lambda>now.
       let since_start_time = now - start in
       andthen (py_sleep (max (1 / 1000) (of_nat i * effective_interval sf ci - since_start_time)))
         (\<lambda>_. gen_check (effective_timeout sf t) start i))"

text \<open>
  The fuel of a loop over the generator: every round but the first two sleeps at least a
  millisecond, so more rounds than milliseconds never happen.
\<close>

definition attempt_bound :: "time \<Rightarrow> nat" where
  "attempt_bound t = nat \<lceil>1000 * t\<rceil> + 1"

definition retry_loop ::
  "'z lockbase_scheme \<Rightarrow> time option \<Rightarrow> time option \<Rightarrow> 'a
    \<Rightarrow> (nat \<Rightarrow> 'a \<Rightarrow> ('l \<times> world, ('a, 'b) flow) act) \<Rightarrow> ('l \<times> world, ('a, 'b) flow) act" where
  "retry_loop sf t ci a body =
     for_gen (attempt_bound (effective_timeout sf t) + 2) (timeout_generator sf t ci) GenStart a body"

section \<open>What the generator does\<close>

lemma wp_gen_check:
  assumes "wf_world w"
    and "\<And>u. rely w u \<Longrightarrow> wf_world u \<Longrightarrow> clock u < start + t \<Longrightarrow>
      Q (Some (Suc i, GenLoop start (Suc i))) (l, u)"
    and "\<And>u. rely w u \<Longrightarrow> wf_world u \<Longrightarrow> start + t \<le> clock u \<Longrightarrow> Q None (l, u)"
  shows "wp h (gen_check t start i) Q E (l, w)"
  unfolding gen_check_def wp_simps
  by (rule wp_perf_counter) (use assms in \<open>auto simp: wp_simps not_less\<close>)

lemma wp_gen_loop:
  assumes "wf_world w"
    and "\<And>u. rely w u \<Longrightarrow> wf_world u \<Longrightarrow> clock w + 1 / 1000 \<le> clock u \<Longrightarrow>
      start + of_nat i * effective_interval sf ci \<le> clock u \<Longrightarrow>
      clock u < start + effective_timeout sf t \<Longrightarrow>
      Q (Some (Suc i, GenLoop start (Suc i))) (l, u)"
    and "\<And>u. rely w u \<Longrightarrow> wf_world u \<Longrightarrow> start + effective_timeout sf t \<le> clock u \<Longrightarrow> Q None (l, u)"
  shows "wp h (timeout_generator sf t ci (GenLoop start i)) Q E (l, w)"
  unfolding timeout_generator.simps wp_simps Let_def
proof (rule wp_perf_counter [OF assms(1)], rule wp_sleep, assumption)
  fix u v
  assume u: "rely w u" "wf_world u"
    and v: "rely u v" "wf_world v"
      "clock u + max 0 (max (1 / 1000) (of_nat i * effective_interval sf ci - (clock u - start)))
        \<le> clock v"
  have wv: "rely w v" using u(1) v(1) by (rule rely_trans)
  have late: "clock w + 1 / 1000 \<le> clock v" "start + of_nat i * effective_interval sf ci \<le> clock v"
    using u(1) v(3) by (auto simp: rely_def)
  show "wp h (gen_check (effective_timeout sf t) start i) Q E (l, v)"
  proof (rule wp_gen_check [OF v(2)])
    fix x
    assume x: "rely v x" "wf_world x"
    then have "rely w x" "clock v \<le> clock x" using wv rely_trans by (auto simp: rely_def)
    with x late assms(2,3)
    show "clock x < start + effective_timeout sf t \<Longrightarrow> Q (Some (Suc i, GenLoop start (Suc i))) (l, x)"
      and "start + effective_timeout sf t \<le> clock x \<Longrightarrow> Q None (l, x)"
      by (auto intro: order_trans)
  qed
qed

section \<open>Loops over the generator\<close>

text \<open>
  The contract of a loop body: an invariant indexed by the number of attempts made so far, that
  other processes keep and every round keeps; the body does not turn the clock back; \<open>Q\<close> is
  what holds after the loop. \<open>h\<close> says whether the body may hang.
\<close>

locale retrying =
  fixes h :: bool
    and body :: "nat \<Rightarrow> 'a \<Rightarrow> ('l \<times> world, ('a, 'b) flow) act"
    and Inv :: "nat \<Rightarrow> 'a \<Rightarrow> 'l \<times> world \<Rightarrow> bool"
    and Q :: "('a, 'b) flow \<Rightarrow> 'l \<times> world \<Rightarrow> bool"
    and E :: "exn \<Rightarrow> 'l \<times> world \<Rightarrow> bool"
  assumes inv_wf: "Inv k a (l, w) \<Longrightarrow> wf_world w"
    and inv_rely: "Inv k a (l, w) \<Longrightarrow> rely w u \<Longrightarrow> Inv k a (l, u)"
    and body_round: "Inv k a s \<Longrightarrow> wp h (body k a)
      (\<lambda>r u. case r of Leave b \<Rightarrow> Q (Leave b) u
         | Cont a' \<Rightarrow> Inv (Suc k) a' u \<and> clock (snd s) \<le> clock (snd u)) E s"
    and exhausted: "Inv (Suc k) a s \<Longrightarrow> Q (Cont a) s"
begin

text \<open>The state of the loop: attempts made, and the time that has passed since the clock started.\<close>

definition loop_inv :: "time \<Rightarrow> retry_gen \<Rightarrow> 'a \<Rightarrow> 'l \<times> world \<Rightarrow> bool" where
  "loop_inv t g a s = (case g of
      GenStart \<Rightarrow> Inv 0 a s
    | GenFirst \<Rightarrow> Inv 1 a s
    | GenLoop start i \<Rightarrow> Inv (Suc i) a s \<and> 0 < i)"

definition loop_measure :: "time \<Rightarrow> retry_gen \<Rightarrow> 'l \<times> world \<Rightarrow> nat" where
  "loop_measure t g s = (case g of
      GenStart \<Rightarrow> nat \<lceil>1000 * t\<rceil> + 2
    | GenFirst \<Rightarrow> nat \<lceil>1000 * t\<rceil> + 1
    | GenLoop start i \<Rightarrow> nat \<lceil>1000 * (start + t - clock (snd s))\<rceil>)"

lemma loop_round:
  assumes "loop_inv (effective_timeout sf t) g a (l, w)"
  shows "wp False (timeout_generator sf t ci g)
     (\<lambda>y u. case y of None \<Rightarrow> Q (Cont a) u
        | Some (i, g') \<Rightarrow> Inv i a u \<and>
            (\<forall>a' v. Inv (Suc i) a' v \<longrightarrow> clock (snd u) \<le> clock (snd v) \<longrightarrow>
               loop_inv (effective_timeout sf t) g' a' v \<and>
               loop_measure (effective_timeout sf t) g' v
                 < loop_measure (effective_timeout sf t) g (l, w)))
     E (l, w)"
proof (cases g)
  case GenStart
  with assms show ?thesis by (simp add: loop_inv_def loop_measure_def wp_simps)
next
  case GenFirst
  with assms have I: "Inv 1 a (l, w)" by (simp add: loop_inv_def)
  show ?thesis
    unfolding GenFirst timeout_generator.simps wp_simps
  proof (rule wp_perf_counter [OF inv_wf [OF I]], rule wp_gen_check, assumption)
    fix u v
    assume uv: "rely w u" "rely u v"
    then have J: "Inv 1 a (l, v)" "clock u \<le> clock v"
      using inv_rely [OF I] rely_trans [of w u v] by (auto simp: rely_def)
    then show "case Some (Suc 0, GenLoop (clock u) (Suc 0)) of None \<Rightarrow> Q (Cont a) (l, v)
       | Some (i, g') \<Rightarrow> Inv i a (l, v) \<and>
            (\<forall>a' x. Inv (Suc i) a' x \<longrightarrow> clock (snd (l, v)) \<le> clock (snd x) \<longrightarrow>
               loop_inv (effective_timeout sf t) g' a' x \<and>
               loop_measure (effective_timeout sf t) g' x
                 < loop_measure (effective_timeout sf t) GenFirst (l, w))"
      by (auto simp: loop_inv_def loop_measure_def less_Suc_eq_le intro!: nat_mono ceiling_mono)
    show "case None of None \<Rightarrow> Q (Cont a) (l, v)
       | Some (i, g') \<Rightarrow> Inv i a (l, v) \<and>
            (\<forall>a' x. Inv (Suc i) a' x \<longrightarrow> clock (snd (l, v)) \<le> clock (snd x) \<longrightarrow>
               loop_inv (effective_timeout sf t) g' a' x \<and>
               loop_measure (effective_timeout sf t) g' x
                 < loop_measure (effective_timeout sf t) GenFirst (l, w))"
      using J exhausted [of 0 a] by simp
  qed
next
  case (GenLoop start i)
  with assms have I: "Inv (Suc i) a (l, w)" and "0 < i" by (simp_all add: loop_inv_def)
  have shrink: "nat \<lceil>1000 * (start + T - c')\<rceil> < nat \<lceil>1000 * (start + T - c)\<rceil>"
    if "c + 1 / 1000 \<le> d" "d < start + T" "d \<le> c'" for c c' d T :: rat
    using that by (intro nat_ceiling_shrink) (simp_all add: algebra_simps)
  have ex: "Q (Cont a) (l, u)" if "rely w u" for u
    using inv_rely [OF I that] by (rule exhausted)
  show ?thesis
    unfolding GenLoop
    by (rule wp_gen_loop [OF inv_wf [OF I]])
       (use inv_rely [OF I] \<open>0 < i\<close> ex shrink in
         \<open>auto simp: loop_inv_def loop_measure_def\<close>)
qed

theorem wp_retry:
  assumes "Inv 0 a (l, w)"
  shows "wp h (retry_loop sf t ci a body) Q E (l, w)"
proof -
  let ?t = "effective_timeout sf t"
  have round: "wp h (timeout_generator sf t ci g)
      (\<lambda>y u. case y of None \<Rightarrow> Q (Cont a) u
         | Some (i, g') \<Rightarrow> wp h (body i a)
             (\<lambda>r v. case r of Leave b \<Rightarrow> Q (Leave b) v
                | Cont a' \<Rightarrow> loop_inv ?t g' a' v \<and> loop_measure ?t g' v < loop_measure ?t g s) E u)
      E s" if "loop_inv ?t g a s" for g a s
  proof -
    have "wp False (timeout_generator sf t ci g)
       (\<lambda>y u. case y of None \<Rightarrow> Q (Cont a) u
          | Some (i, g') \<Rightarrow> Inv i a u \<and>
              (\<forall>a' v. Inv (Suc i) a' v \<longrightarrow> clock (snd u) \<le> clock (snd v) \<longrightarrow>
                 loop_inv ?t g' a' v \<and> loop_measure ?t g' v < loop_measure ?t g s)) E s"
      using loop_round [of sf t g a "fst s" "snd s" ci] that by (simp only: prod.collapse)
    then show ?thesis
    proof (rule wp_mono)
      fix y u
      assume y: "case y of None \<Rightarrow> Q (Cont a) u
          | Some (i, g') \<Rightarrow> Inv i a u \<and>
              (\<forall>a' v. Inv (Suc i) a' v \<longrightarrow> clock (snd u) \<le> clock (snd v) \<longrightarrow>
                 loop_inv ?t g' a' v \<and> loop_measure ?t g' v < loop_measure ?t g s)"
      show "case y of None \<Rightarrow> Q (Cont a) u
         | Some (i, g') \<Rightarrow> wp h (body i a)
             (\<lambda>r v. case r of Leave b \<Rightarrow> Q (Leave b) v
                | Cont a' \<Rightarrow> loop_inv ?t g' a' v \<and> loop_measure ?t g' v < loop_measure ?t g s) E u"
      proof (cases y)
        case None
        with y show ?thesis by simp
      next
        case (Some p)
        with y have "Inv (fst p) a u" by (cases p) simp
        from body_round [OF this] Some y show ?thesis
          by (cases p) (auto split: flow.splits elim!: wp_mono)
      qed
    qed simp_all
  qed
  show ?thesis
    unfolding retry_loop_def
    by (rule wp_for_gen_measure [where Inv = "loop_inv ?t" and M = "loop_measure ?t"])
       (use assms round in \<open>auto simp: loop_inv_def loop_measure_def attempt_bound_def\<close>)
qed

end

end
