(* ===== verification/ContextManager.thy ===== *)
theory ContextManager
  imports PyMonad
begin

text \<open>
  Python's \<^verbatim>\<open>with\<close> statement, and the contract of the objects it works on. Every lock of the
  program is a context manager; the locale says what its \<^verbatim>\<open>__enter__\<close> and \<^verbatim>\<open>__exit__\<close> owe each
  other, and proves once what a block may rely on.
\<close>

text \<open>
  \<^verbatim>\<open>__exit__\<close> never suppresses the exception of the block in this program; what it may change is
  the exception object, so it gives the object back: the exception as it propagates.
\<close>

definition with_statement ::
  "('s, 'a) act \<Rightarrow> (exn option \<Rightarrow> ('s, exn option) act) \<Rightarrow> ('a \<Rightarrow> ('s, 'b) act) \<Rightarrow> ('s, 'b) act" where
  "with_statement enter exit body = andthen enter (\<lambda>x.
     try_else (body x)
       (\<lambda>e. andthen (exit (Some e)) (\<lambda>r. throw (case r of None \<Rightarrow> e | Some e' \<Rightarrow> e')))
       (\<lambda>y. andthen (exit None) (\<lambda>_. ret y)))"

locale context_manager =
  fixes h :: bool
    and enter :: "('s, 'a) act"
    and exit :: "exn option \<Rightarrow> ('s, exn option) act"
    and Free Held :: "'s \<Rightarrow> bool"
  assumes enter_ok: "Free s \<Longrightarrow> wp h enter (\<lambda>_. Held) (\<lambda>_. Free) s"
    and exit_ok: "Held s \<Longrightarrow> wp h (exit x) (\<lambda>_. Free) (\<lambda>_. Free) s"
begin

text \<open>However the block ends, the resource is free afterwards.\<close>

theorem with_frees:
  assumes "Free s"
    and body: "\<And>x s. Held s \<Longrightarrow> wp h (body x) (\<lambda>_. Held) (\<lambda>_. Held) s"
  shows "wp h (with_statement enter exit body) (\<lambda>_. Free) (\<lambda>_. Free) s"
  unfolding with_statement_def wp_simps
proof (rule wp_mono [OF enter_ok [OF assms(1)]])
  fix x t
  assume "Held t"
  from body [OF this, of x]
  show "wp h (body x) (\<lambda>x. wp h (exit None) (\<lambda>_. Free) (\<lambda>_. Free))
      (\<lambda>e. wp h (exit (Some e)) (\<lambda>_. Free) (\<lambda>_. Free)) t"
    by (rule wp_mono) (simp_all add: exit_ok)
qed simp_all

end

text \<open>
  A context manager whose exit keeps the exception of the block: it does not raise one of its own
  in its place, and the one it passes on has the same class.
\<close>

locale faithful_manager = context_manager +
  assumes exit_faithful: "Held s \<Longrightarrow> wp h (exit (Some e))
    (\<lambda>r _. \<exists>e'. r = Some e' \<and> exn_class e' = exn_class e \<and> exn_args e' = exn_args e) (\<lambda>_ _. False) s"
begin

text \<open>When the block raises, that is the exception that leaves the statement.\<close>

theorem with_keeps_exception:
  assumes "enter s = (Done x, t)" "body x t = (Raise e, u)" "Held u"
  shows "(h \<and> fst (with_statement enter exit body s) = Hang) \<or>
    (\<exists>e' v. with_statement enter exit body s = (Raise e', v) \<and>
       exn_class e' = exn_class e \<and> exn_args e' = exn_args e \<and> Free v)"
proof -
  have "with_statement enter exit body s =
      andthen (exit (Some e)) (\<lambda>r. throw (case r of None \<Rightarrow> e | Some e' \<Rightarrow> e')) u"
    using assms(1,2) by (simp add: with_statement_def andthen_def try_else_def)
  with wp_conj [OF exit_ok [OF assms(3), of "Some e"] exit_faithful [OF assms(3), of e]] show ?thesis
    by (auto simp: wp_def andthen_def throw_def split: prod.splits res.splits)
qed

end

end
