(* ===== verification/FileLock.thy ===== *)
theory FileLock
  imports LockerFacts Retry ContextManager
begin

text \<open>
  The class \<^verbatim>\<open>Lock\<close> of \<^verbatim>\<open>utils.py\<close>: opens a file, locks it under the retry policy, hands the file
  object out, and unlocks and closes it. The object is a record that extends the retry policy;
  the subclasses extend it further, so every method is stated over the extensible record.
\<close>

section \<open>The object\<close>

record flock = lockbase +
  fl_fh :: "fd option"
  fl_filename :: path
  fl_mode :: string
  fl_truncate :: bool
  fl_flags :: int
  fl_raise :: bool

definition blocking_warning :: string where
  "blocking_warning = ''timeout has no effect in blocking mode''"

text \<open>
  \<^verbatim>\<open>Lock.__init__\<close>. The keyword arguments for \<^verbatim>\<open>open\<close> (an encoding, a buffering policy) are not
  modelled; a warning is recorded in the world.
\<close>

definition lock_init ::
  "path \<Rightarrow> string \<Rightarrow> time option \<Rightarrow> time \<Rightarrow> bool \<Rightarrow> int \<Rightarrow> bool \<Rightarrow> ('l \<times> world, flock) act" where
  "lock_init filename mode timeout check_interval fwl flags raise_on_release_error =
     (let truncate = CHR ''w'' \<in> set mode;
          mode' = (if truncate then replace_w mode else mode)
      in andthen (on_cond (timeout \<noteq> None \<and> \<not> non_blocking flags) (warn blocking_warning))
           (\<lambda>_. ret (lockbase.extend
             (lockbase_init (Some (case timeout of None \<Rightarrow> DEFAULT_TIMEOUT | Some t \<Rightarrow> t))
               (Some check_interval) (Some fwl))
             (flock.fields None filename mode' truncate flags raise_on_release_error))))"

section \<open>Acquiring\<close>

definition lock_get_fh :: "('z flock_scheme \<times> world, fd) act" where
  "lock_get_fh = andthen self (\<lambda>sf. sys_open (fl_filename sf) (fl_mode sf))"

definition lock_get_lock :: "fd \<Rightarrow> ('z flock_scheme \<times> world, fd) act" where
  "lock_get_lock f = andthen self (\<lambda>sf. andthen (pl_lock (FFile f) (fl_flags sf)) (\<lambda>_. ret f))"

definition lock_prepare_fh :: "fd \<Rightarrow> ('z flock_scheme \<times> world, fd) act" where
  "lock_prepare_fh f = andthen self (\<lambda>sf.
     andthen (on_cond (fl_truncate sf) (andthen (fh_seek f 0) (\<lambda>_. fh_truncate f 0))) (\<lambda>_. ret f))"

definition try_close :: "fd \<Rightarrow> ('l \<times> world, unit) act" where
  "try_close f = suppress is_Exception (fh_close f)"

text \<open>
  One round of the loop: \<open>Leave\<close> is the \<^verbatim>\<open>break\<close> with the handle, \<open>Cont (Some exc)\<close> goes on with
  the local variable \<^verbatim>\<open>exception\<close> set.
\<close>

definition lock_attempt ::
  "bool \<Rightarrow> fd \<Rightarrow> nat \<Rightarrow> exn option \<Rightarrow> ('z flock_scheme \<times> world, (exn option, fd) flow) act" where
  "lock_attempt fail_when_locked f i exception =
     try_else (lock_get_lock f)
       (\<lambda>exc. if is_LockException (exn_class exc) then
                if fail_when_locked then
                  andthen (try_close f) (\<lambda>_. throw (set_cause (AlreadyLocked [AExn exc] None) exc))
                else ret (Cont (Some exc))
              else if is_Exception (exn_class exc) then
                andthen (try_close f) (\<lambda>_. throw (set_cause (LockException [AExn exc] None) exc))
              else throw exc)
       (\<lambda>f'. ret (Leave f'))"

definition lock_finish :: "fd \<Rightarrow> ('z flock_scheme \<times> world, fd) act" where
  "lock_finish f = andthen (lock_prepare_fh f) (\<lambda>f'.
     andthen (upd_self (fl_fh_update (\<lambda>_. Some f'))) (\<lambda>_. ret f'))"

definition lock_acquire ::
  "time option \<Rightarrow> time option \<Rightarrow> bool option \<Rightarrow> ('z flock_scheme \<times> world, fd) act" where
  "lock_acquire timeout check_interval fail_when_locked = andthen self (\<lambda>sf.
     let fwl = the (coalesce None [fail_when_locked, Some (lb_fail_when_locked sf)]) in
     andthen (on_cond (\<not> non_blocking (fl_flags sf) \<and> timeout \<noteq> None) (warn blocking_warning)) (\<lambda>_.
       case fl_fh sf of
         Some f \<Rightarrow> ret f
       | None \<Rightarrow> andthen lock_get_fh (\<lambda>f.
           andthen (retry_loop sf timeout check_interval None (lock_attempt fwl f)) (\<lambda>r. case r of
               Leave f' \<Rightarrow> lock_finish f'
             | Cont (Some exc) \<Rightarrow> andthen (try_close f) (\<lambda>_. throw exc)
             | Cont None \<Rightarrow> lock_finish f))))"

section \<open>Releasing\<close>

text \<open>
  \<^verbatim>\<open>Lock.release\<close>: \<open>lock_report\<close> is its last part, with \<^verbatim>\<open>release_errors\<close> as the error of the
  unlock and of the close. Unlock and close are both attempted, the handle is always forgotten. The
  inner \<^verbatim>\<open>try/finally\<close> cannot leave early, since every \<^verbatim>\<open>Exception\<close> is caught inside.
\<close>

definition lock_report ::
  "bool \<Rightarrow> exn option \<Rightarrow> exn option \<Rightarrow> ('z flock_scheme \<times> world, unit) act" where
  "lock_report raise_on_release_error unlock_error close_error =
     (if \<not> raise_on_release_error then ret ()
      else case (unlock_error, close_error) of
          (None, None) \<Rightarrow> ret ()
        | (Some e, None) \<Rightarrow> throw e
        | (None, Some e) \<Rightarrow> throw e
        | (Some e1, Some e2) \<Rightarrow> throw (set_cause e1 e2))"

definition lock_release :: "('z flock_scheme \<times> world, unit) act" where
  "lock_release = andthen self (\<lambda>sf. case fl_fh sf of
      None \<Rightarrow> ret ()
    | Some f \<Rightarrow>
        try_else (catch_Exception (pl_unlock (FFile f)))
          (\<lambda>e. andthen (catch_Exception (fh_close f)) (\<lambda>_.
             andthen (upd_self (fl_fh_update (\<lambda>_. None))) (\<lambda>_. throw e)))
          (\<lambda>e1. andthen (catch_Exception (fh_close f)) (\<lambda>e2.
             andthen (upd_self (fl_fh_update (\<lambda>_. None))) (\<lambda>_.
               lock_report (fl_raise sf) e1 e2))))"

section \<open>\<^verbatim>\<open>with\<close> statements and finalizers\<close>

definition lock_enter :: "('z flock_scheme \<times> world, fd) act" where
  "lock_enter = lock_acquire None None None"

definition release_note :: string where
  "release_note = ''portalocker release failed; see exception context''"

text \<open>
  \<^verbatim>\<open>Lock.__exit__\<close> returns \<^verbatim>\<open>None\<close>; what it does to the exception of the block is its result
  here: the exception object as it propagates afterwards. \<open>rel\<close> is the \<^verbatim>\<open>release\<close> of the class.
\<close>

definition lock_exit ::
  "('z flock_scheme \<times> world, unit) act \<Rightarrow> exn option \<Rightarrow> ('z flock_scheme \<times> world, exn option) act" where
  "lock_exit rel exc_value = andthen self (\<lambda>sf.
     case exc_value of
       None \<Rightarrow> andthen rel (\<lambda>_. ret None)
     | Some exc \<Rightarrow>
         if \<not> fl_raise sf then andthen rel (\<lambda>_. ret (Some exc))
         else andthen (catch_Exception rel) (\<lambda>r. case r of
             None \<Rightarrow> ret (Some exc)
           | Some release_error \<Rightarrow>
               ret (Some (add_note
                 (set_context exc (Some (set_context release_error (exn_context exc))))
                 release_note))))"

text \<open>
  \<^verbatim>\<open>LockBase.__exit__\<close>, \<^verbatim>\<open>LockBase.__delete__\<close> and \<^verbatim>\<open>LockBase.__del__\<close>, for the release of the
  class; that of \<^verbatim>\<open>__delete__\<close> is the release of the object the attribute was deleted from.
\<close>

definition lockbase_exit ::
  "('l \<times> world, unit) act \<Rightarrow> exn option \<Rightarrow> ('l \<times> world, exn option) act" where
  "lockbase_exit rel exc_value = andthen rel (\<lambda>_. ret exc_value)"

definition lockbase_delete :: "('l \<times> world, unit) act \<Rightarrow> ('l \<times> world, unit) act" where
  "lockbase_delete instance_release = instance_release"

definition lockbase_del :: "('l \<times> world, unit) act \<Rightarrow> ('l \<times> world, unit) act" where
  "lockbase_del rel = suppress is_Exception rel"

end
