(* ===== verification/FileLockFacts.thy ===== *)
theory FileLockFacts
  imports FileLock
begin

text \<open>
  What \<^verbatim>\<open>Lock\<close> guarantees. The locale \<open>locker_contract\<close> is the interface between a file lock and
  the locker below it: a request leaves the file object open and, when it returns, has granted
  something that later uses of the file object keep. Inside it the methods of \<^verbatim>\<open>Lock\<close> are verified
  once; it is interpreted for every locker (what is granted is only that the file is open) and
  for the default POSIX locker (a \<^verbatim>\<open>flock\<close> of the requested mode is held).
\<close>

section \<open>Handles before and after\<close>

text \<open>\<open>own_same\<close>: the same handles are open, with the same locks.\<close>

definition own_same :: "world \<Rightarrow> world \<Rightarrow> bool" where
  "own_same w u \<longleftrightarrow> mypid u = mypid w \<and> plat u = plat w \<and> locker u = locker w \<and> clock w \<le> clock u \<and> (\<forall>g. mine u g = mine w g) \<and>
     (\<forall>g. mine w g \<longrightarrow> handles u g = handles w g \<and> flocks u g = flocks w g)"

lemma own_sameI: "rely_but f w u \<Longrightarrow> \<not> mine w f \<Longrightarrow> \<not> mine u f \<Longrightarrow> own_same w u"
  unfolding own_same_def rely_but_def by metis

lemma rely_own_same: "rely w u \<Longrightarrow> own_same w u"
  by (simp add: rely_def own_same_def)

lemma keeps_rely_but: "keeps f w u \<Longrightarrow> wf_world w \<Longrightarrow> rely_but f w u"
  by (simp add: keeps_def)

lemma keeps_mine: "keeps f w u \<Longrightarrow> wf_world w \<Longrightarrow> mine w f \<Longrightarrow> mine u f"
  by (simp add: keeps_def)

lemma keeps_wf: "keeps f w u \<Longrightarrow> wf_world w \<Longrightarrow> wf_world u"
  by (simp add: keeps_def rely_but_def)

lemma rely_but_clock: "rely_but f w u \<Longrightarrow> clock w \<le> clock u"
  by (simp add: rely_but_def)

lemma released_rely_but: "released f w u \<Longrightarrow> rely_but f w u"
  by (simp add: released_def)

lemma opened_warned:
  "opened p f (w\<lparr>warned := ws\<rparr>) u = opened p f w u"
  "rely_but f (w\<lparr>warned := ws\<rparr>) u = rely_but f w u"
  "own_same (w\<lparr>warned := ws\<rparr>) u = own_same w u"
  "mine (w\<lparr>warned := ws\<rparr>) f = mine w f"
  by (simp_all add: opened_def rely_but_def own_same_def mine_iff)

text \<open>Closing a handle quietly.\<close>

lemma wp_try_close:
  assumes "wf_world w" "\<And>u. released f w u \<Longrightarrow> wf_world u \<Longrightarrow> Q () (l, u)"
  shows "wp h (try_close f) Q E (l, w)"
  unfolding try_close_def wp_simps
  by (rule wp_fh_close [OF assms(1)]) (use assms(2) lib_exnD in auto)

section \<open>The contract\<close>

locale locker_contract =
  fixes W :: "world \<Rightarrow> bool"
    and flags :: int
    and h :: bool
    and granted :: "fd \<Rightarrow> world \<Rightarrow> bool"
  assumes W_stable: "rely_but f w u \<Longrightarrow> W w \<Longrightarrow> W u"
    and granted_stable: "granted f w \<Longrightarrow> mine w f \<Longrightarrow> touched f w u \<Longrightarrow> granted f u"
    and lock_ok: "wf_world w \<Longrightarrow> mine w f \<Longrightarrow> W w \<Longrightarrow>
      wp h (pl_lock (FFile f) flags :: ('z flock_scheme \<times> world, unit) act)
        (\<lambda>_ s. fst s = l \<and> keeps f w (snd s) \<and> granted f (snd s))
        (\<lambda>e s. fst s = l \<and> keeps f w (snd s) \<and> is_Exception (exn_class e)) (l, w)"
begin

text \<open>The state of the retry loop of \<^verbatim>\<open>acquire\<close>, its two exits and its exceptions.\<close>

definition open_inv :: "fd \<Rightarrow> 'z flock_scheme \<Rightarrow> world \<Rightarrow> 'z flock_scheme \<times> world \<Rightarrow> bool" where
  "open_inv f l0 w0 s \<longleftrightarrow> fst s = l0 \<and> fl_flags l0 = flags \<and> wf_world w0 \<and> wf_world (snd s) \<and>
     W (snd s) \<and> rely_but f w0 (snd s) \<and> mine (snd s) f"

definition attempt_inv ::
  "fd \<Rightarrow> 'z flock_scheme \<Rightarrow> world \<Rightarrow> nat \<Rightarrow> exn option \<Rightarrow> 'z flock_scheme \<times> world \<Rightarrow> bool" where
  "attempt_inv f l0 w0 k a s \<longleftrightarrow> open_inv f l0 w0 s \<and>
     (0 < k \<longrightarrow> (\<exists>e. a = Some e \<and> is_LockException (exn_class e)))"

definition attempt_end ::
  "fd \<Rightarrow> 'z flock_scheme \<Rightarrow> world \<Rightarrow> (exn option, fd) flow \<Rightarrow> 'z flock_scheme \<times> world \<Rightarrow> bool" where
  "attempt_end f l0 w0 r s \<longleftrightarrow> open_inv f l0 w0 s \<and> (case r of
      Leave f' \<Rightarrow> f' = f \<and> granted f (snd s)
    | Cont a \<Rightarrow> \<exists>e. a = Some e \<and> is_LockException (exn_class e))"

definition attempt_raises ::
  "fd \<Rightarrow> 'z flock_scheme \<Rightarrow> world \<Rightarrow> exn \<Rightarrow> 'z flock_scheme \<times> world \<Rightarrow> bool" where
  "attempt_raises f l0 w0 e s \<longleftrightarrow> fst s = l0 \<and> wf_world (snd s) \<and> rely_but f w0 (snd s) \<and>
     \<not> mine (snd s) f \<and> is_LockException (exn_class e)"

lemma open_inv_keeps: "open_inv f l0 w0 (l, w) \<Longrightarrow> keeps f w u \<Longrightarrow> open_inv f l0 w0 (l, u)"
  unfolding open_inv_def keeps_def
  by (auto intro: rely_but_trans W_stable rely_but_wf)

lemma attempt_body:
  assumes "attempt_inv f l0 w0 k a s"
  shows "wp h (lock_attempt fwl f k a)
    (\<lambda>r u. case r of Leave b \<Rightarrow> attempt_end f l0 w0 (Leave b) u
       | Cont a' \<Rightarrow> attempt_inv f l0 w0 (Suc k) a' u \<and> clock (snd s) \<le> clock (snd u))
    (attempt_raises f l0 w0) s"
proof -
  obtain l w where s [simp]: "s = (l, w)" by (cases s)
  from assms have I: "open_inv f l0 w0 (l, w)" by (simp add: attempt_inv_def)
  then have wf: "wf_world w" "mine w f" "W w" and flags: "fl_flags l = flags"
    by (auto simp: open_inv_def)
  have clock: "keeps f w u \<Longrightarrow> clock w \<le> clock u" for u
    using wf(1) by (simp add: keeps_def rely_but_def)
  have close: "wp h (try_close f) (\<lambda>_. attempt_raises f l0 w0 e) (attempt_raises f l0 w0) (l, u)"
    if "keeps f w u" "is_LockException (exn_class e)" for u e
  proof (rule wp_try_close)
    have J: "open_inv f l0 w0 (l, u)" using I that(1) by (rule open_inv_keeps)
    then show "wf_world u" by (simp add: open_inv_def)
    fix v assume v: "released f u v" "wf_world v"
    with J that(2) show "attempt_raises f l0 w0 e (l, v)"
      by (auto simp: attempt_raises_def open_inv_def released_def dest: rely_but_trans)
  qed
  have "wp h (pl_lock (FFile f) flags)
      (\<lambda>_ s. fst s = l \<and> keeps f w (snd s) \<and> granted f (snd s))
      (\<lambda>e s. fst s = l \<and> keeps f w (snd s) \<and> is_Exception (exn_class e)) (l, w)"
    using wf by (intro lock_ok)
  then show ?thesis
    unfolding s lock_attempt_def lock_get_lock_def wp_simps prod.case flags
    by (rule wp_mono)
       (use open_inv_keeps [OF I] close clock in
         \<open>auto simp: attempt_inv_def attempt_end_def if_apply\<close>)
qed

end

sublocale locker_contract \<subseteq> attempts: retrying h "lock_attempt fwl f" "attempt_inv f l0 w0"
    "attempt_end f l0 w0" "attempt_raises f l0 w0"
  for fwl f l0 w0
proof unfold_locales
  fix k a l w u s
  show "attempt_inv f l0 w0 k a (l, w) \<Longrightarrow> wf_world w"
    by (simp add: attempt_inv_def open_inv_def)
  show "attempt_inv f l0 w0 k a (l, w) \<Longrightarrow> rely w u \<Longrightarrow> attempt_inv f l0 w0 k a (l, u)"
    unfolding attempt_inv_def using open_inv_keeps rely_keeps by blast
  show "attempt_inv f l0 w0 k a s \<Longrightarrow> wp h (lock_attempt fwl f k a)
    (\<lambda>r u. case r of Leave b \<Rightarrow> attempt_end f l0 w0 (Leave b) u
       | Cont a' \<Rightarrow> attempt_inv f l0 w0 (Suc k) a' u \<and> clock (snd s) \<le> clock (snd u))
    (attempt_raises f l0 w0) s" for s
    by (rule attempt_body)
  show "attempt_inv f l0 w0 (Suc k) a s \<Longrightarrow> attempt_end f l0 w0 (Cont a) s" for s
    by (auto simp: attempt_inv_def attempt_end_def)
qed

context locker_contract
begin

text \<open>\<open>got f\<close>: \<open>f\<close> is a new handle, the lock on it is granted, the other handles are as before.\<close>

definition got :: "fd \<Rightarrow> world \<Rightarrow> world \<Rightarrow> bool" where
  "got f w u \<longleftrightarrow> rely_but f w u \<and> \<not> mine w f \<and> mine u f \<and> granted f u \<and> wf_world u"

lemma got_warned: "got f (w\<lparr>warned := ws\<rparr>) u = got f w u"
  by (simp add: got_def opened_warned)

lemma finish_wp:
  assumes "open_inv f l w0 (l, w)" "granted f w" "\<not> mine w0 f"
  shows "wp h (lock_finish f)
    (\<lambda>f' s. f' = f \<and> fst s = l\<lparr>fl_fh := Some f\<rparr> \<and> got f w0 (snd s) \<and> W (snd s))
    (\<lambda>e s. fst s = l \<and> fl_truncate l \<and> got f w0 (snd s) \<and> lib_exn e) (l, w)"
proof -
  from assms have I: "wf_world w" "mine w f" "W w" "rely_but f w0 w" by (auto simp: open_inv_def)
  have T: "got f w0 u \<and> W u" if "touched f w u" for u
    unfolding got_def using that I assms(2,3)
    by (meson granted_stable touched_wf touched_mine rely_but_trans W_stable touched_rely_but)
  note TT = T [OF touched_trans]
  show ?thesis
  proof (cases "fl_truncate l")
    case True
    show ?thesis
      unfolding lock_finish_def lock_prepare_fh_def wp_simps prod.case if_P [OF True]
      by (rule wp_seek [OF I(1,2)], rule wp_truncate)
         (use T TT I(2) True touched_mine in \<open>auto\<close>)
  next
    case False
    with T [OF touched_refl] show ?thesis
      by (simp add: lock_finish_def lock_prepare_fh_def wp_simps)
  qed
qed

theorem acquire_wp:
  fixes l :: "'z flock_scheme"
  assumes "wf_world w" "W w" "fl_fh l = None" "fl_flags l = flags"
  shows "wp h (lock_acquire t ci fwl)
    (\<lambda>f s. fst s = l\<lparr>fl_fh := Some f\<rparr> \<and> got f w (snd s) \<and> W (snd s))
    (\<lambda>e s. fst s = l \<and> wf_world (snd s) \<and> W (snd s) \<and>
       (is_LockException (exn_class e) \<or> lib_exn e) \<and>
       (own_same w (snd s) \<or> fl_truncate l \<and> lib_exn e \<and> (\<exists>f. got f w (snd s)))) (l, w)"
    (is "wp h _ ?Q ?E _")
proof -
  let ?f = "the (coalesce None [fwl, Some (lb_fail_when_locked l)])"
  let ?loop = "\<lambda>f. andthen (retry_loop l t ci None (lock_attempt ?f f)) (\<lambda>r. case r of
               Leave f' \<Rightarrow> lock_finish f'
             | Cont (Some exc) \<Rightarrow> andthen (try_close f) (\<lambda>_. throw exc)
             | Cont None \<Rightarrow> lock_finish f)"
  have W1: "W (w\<lparr>warned := ws\<rparr>)" for ws
    by (rule W_stable [OF _ assms(2)]) (auto simp: rely_but_def mine_iff)
  have loop: "wp h (?loop f) ?Q ?E (l, u)"
    if o: "opened p f w u" and u: "wf_world u" for f p u
  proof -
    have new: "\<not> mine w f" "mine u f" "rely_but f w u" "W u"
      using o assms(2) W_stable by (auto simp: opened_def)
    have "attempt_inv f l w 0 None (l, u)"
      using assms u new by (simp add: attempt_inv_def open_inv_def)
    from attempts.wp_retry [OF this] show ?thesis
      unfolding wp_andthen
    proof (rule wp_mono)
      fix r and s :: "'z flock_scheme \<times> world"
      assume r: "attempt_end f l w r s"
      then obtain v where s: "s = (l, v)" and I: "open_inv f l w (l, v)"
        by (cases s) (auto simp: attempt_end_def open_inv_def)
      then have v: "wf_world v" "rely_but f w v" by (auto simp: open_inv_def)
      have W2: "released f v u \<Longrightarrow> W u" for u
        using v(2) assms(2) W_stable rely_but_trans released_rely_but by blast
      show "wp h (case r of Leave f' \<Rightarrow> lock_finish f'
             | Cont (Some exc) \<Rightarrow> andthen (try_close f) (\<lambda>_. throw exc)
             | Cont None \<Rightarrow> lock_finish f) ?Q ?E s"
      proof (cases r)
        case (Leave f')
        with r s finish_wp [OF I _ new(1)] show ?thesis
          by (auto simp: attempt_end_def got_def intro: W_stable [OF _ assms(2)] elim!: wp_mono)
      next
        case (Cont a)
        with r obtain e where e: "a = Some e" "is_LockException (exn_class e)"
          by (auto simp: attempt_end_def)
        have "wp h (try_close f) (\<lambda>_. ?E e) ?E (l, v)"
          by (rule wp_try_close [OF v(1)])
             (use v(2) new(1) e W2 in \<open>auto simp: released_def intro: own_sameI rely_but_trans\<close>)
        with Cont e(1) s show ?thesis by (simp add: wp_simps)
      qed
    qed (use new assms(2) W_stable in \<open>auto simp: attempt_raises_def intro: own_sameI\<close>)
  qed
  have main: "wp h (andthen lock_get_fh ?loop) ?Q ?E (l, w1)"
    if "wf_world w1" "\<And>p f u. opened p f w1 u = opened p f w u" "\<And>u. own_same w1 u = own_same w u"
      "\<And>u. rely w1 u \<Longrightarrow> W u"
    for w1
    unfolding lock_get_fh_def wp_andthen wp_self prod.case
    by (rule wp_sys_open [OF that(1)])
       (use loop [unfolded wp_andthen] that(2) rely_own_same [of w1, unfolded that(3)] that(4)
         in simp_all)
  have W2: "W u" if "W v" "rely v u" for u v
    using W_stable rely_rely_but that by blast
  from main [of w] main [of "w\<lparr>warned := warned w @ [blocking_warning]\<rparr>"] assms
    W2 [OF assms(2)] W2 [OF W1]
  show ?thesis
    by (auto simp: lock_acquire_def Let_def wp_simps opened_warned)
qed

end

section \<open>Releasing\<close>

lemma lib_exn_Exception: "lib_exn e \<Longrightarrow> is_Exception (exn_class e)"
  by (auto dest: lib_exnD)

lemma keeps_released: "keeps f w u \<Longrightarrow> wf_world w \<Longrightarrow> released f u v \<Longrightarrow> released f w v"
  by (auto simp: released_def dest: keeps_rely_but intro: rely_but_trans)

lemma wp_release:
  assumes "wf_world w" "fl_fh l = Some f"
    and "\<And>u. released f w u \<Longrightarrow> wf_world u \<Longrightarrow> Q () (l\<lparr>fl_fh := None\<rparr>, u)"
    and "\<And>u e. released f w u \<Longrightarrow> wf_world u \<Longrightarrow> fl_raise l \<Longrightarrow> is_Exception (exn_class e) \<Longrightarrow>
      E e (l\<lparr>fl_fh := None\<rparr>, u)"
  shows "wp h lock_release Q E (l, w)"
proof -
  have fin: "wp h (lock_report (fl_raise l) e1 e2) Q E (l\<lparr>fl_fh := None\<rparr>, u)"
    if "released f w u" "wf_world u" "\<forall>e. e1 = Some e \<or> e2 = Some e \<longrightarrow> is_Exception (exn_class e)"
    for e1 e2 u
    using that assms(3,4) by (auto simp: lock_report_def wp_simps split: option.splits)
  have close: "wp h (catch_Exception (fh_close f))
      (\<lambda>e2. wp h (upd_self (fl_fh_update (\<lambda>_. None))) (\<lambda>_. wp h (lock_report (fl_raise l) e1 e2) Q E) X)
      X (l, u)"
    if "keeps f w u" "\<forall>e. e1 = Some e \<longrightarrow> is_Exception (exn_class e)" for X e1 u
    unfolding wp_catch_Exception wp_upd_self
    by (rule wp_fh_close [OF keeps_wf [OF that(1) assms(1)]])
       (use that lib_exn_Exception fin keeps_released [OF that(1) assms(1)] in simp_all)
  note unlock = wp_calm_eff [OF calm_pl_unlock keeps_pl(2) [of f]]
  show ?thesis
    unfolding lock_release_def wp_andthen wp_self prod.case assms(2) option.case wp_try_else
      wp_catch_Exception [of _ "pl_unlock _"]
    by (rule unlock) (use close in auto)
qed

section \<open>The contract holds\<close>

interpretation any_locker: locker_contract "\<lambda>_. True" flags "\<not> has_flag flags 4" "\<lambda>f w. mine w f"
  for flags
proof unfold_locales
  fix f w l
  assume "wf_world w" "mine w f"
  then show "wp (\<not> has_flag flags 4) (pl_lock (FFile f) flags)
      (\<lambda>_ s. fst s = l \<and> keeps f w (snd s) \<and> mine (snd s) f)
      (\<lambda>e s. fst s = l \<and> keeps f w (snd s) \<and> is_Exception (exn_class e)) (l, w)"
    by (intro wp_calm_eff [OF calm_pl_lock keeps_pl(1)]) (auto intro: keeps_mine)
qed (auto simp: touched_mine)

interpretation flock_locker: locker_contract
  "\<lambda>w. flock_world w \<and> lmode_of (flags AND NOT 4) = Some m" flags "\<not> has_flag flags 4"
  "\<lambda>f w. mine w f \<and> flocks w f = Some m"
  for flags m
proof unfold_locales
  fix f w u
  show "rely_but f w u \<Longrightarrow> flock_world w \<and> lmode_of (flags AND NOT 4) = Some m
      \<Longrightarrow> flock_world u \<and> lmode_of (flags AND NOT 4) = Some m"
    using flock_world_keeps by blast
  show "mine w f \<and> flocks w f = Some m \<Longrightarrow> mine w f \<Longrightarrow> touched f w u
      \<Longrightarrow> mine u f \<and> flocks u f = Some m"
    by (simp add: touched_def)
  show "wf_world w \<Longrightarrow> mine w f \<Longrightarrow> flock_world w \<and> lmode_of (flags AND NOT 4) = Some m \<Longrightarrow>
    wp (\<not> has_flag flags 4) (pl_lock (FFile f) flags)
      (\<lambda>_ s. fst s = l \<and> keeps f w (snd s) \<and> mine (snd s) f \<and> flocks (snd s) f = Some m)
      (\<lambda>e s. fst s = l \<and> keeps f w (snd s) \<and> is_Exception (exn_class e)) (l, w)" for l
    by (rule wp_pl_lock_flock [where m = m])
       (auto simp: locked_keeps locked_def dest: locker_exn_class)
qed

section \<open>Properties of \<^verbatim>\<open>Lock\<close>\<close>

text \<open>
  C1: A successful \<^verbatim>\<open>acquire\<close> on the default POSIX locker, under every interleaving with other
  processes and every failure of earlier calls: the returned file object is new, open, and holds
  a lock of the requested mode when the call returns; it is what the object stores; every other
  handle of the process is as it was.
\<close>

theorem lock_acquire_success:
  assumes "wf_world w" "flock_world w" "fl_fh l = None"
    and "lmode_of (fl_flags l AND NOT 4) = Some m"
    and "lock_acquire t ci fwl (l, w) = (Done f, (l', w'))"
  shows "l' = l\<lparr>fl_fh := Some f\<rparr> \<and> \<not> mine w f \<and> mine w' f \<and> flocks w' f = Some m \<and>
    wf_world w' \<and> (\<forall>g. mine w g \<longrightarrow> handles w' g = handles w g \<and> flocks w' g = flocks w g)"
proof -
  from wp_DoneD [OF flock_locker.acquire_wp [OF assms(1) conjI [OF assms(2,4)] assms(3) refl] assms(5)]
  show ?thesis by (auto simp: flock_locker.got_def rely_but_def)
qed


text \<open>
  C22: With non-blocking flags \<^verbatim>\<open>acquire\<close> returns, whatever the locker, the retry settings, the
  other processes and the failing calls: the retry loop always ends within its bound.
\<close>

theorem lock_acquire_returns:
  assumes "wf_world w" "non_blocking (fl_flags l)"
  shows "fst (lock_acquire t ci fwl (l, w)) \<noteq> Hang"
proof (cases "fl_fh l")
  case None
  note any_locker.acquire_wp [OF assms(1) TrueI None refl, of t ci fwl]
  with assms(2) show ?thesis
    by (auto simp: non_blocking_def intro!: wp_no_hang simp del: is_Exception_iff is_LockException_iff)
next
  case (Some f)
  then show ?thesis
    by (simp add: lock_acquire_def andthen_def self_def on_cond_def warn_def ret_def)
qed

text \<open>
  C23: \<^verbatim>\<open>release\<close> of a held lock always forgets and closes the handle, whether the unlock and the
  close succeed or fail, and raises only when the lock was built to report release errors.
\<close>

theorem lock_release_always_closes:
  assumes "wf_world w" "fl_fh l = Some f" "lock_release (l, w) = (r, (l', w'))"
  shows "r \<noteq> Hang \<and> l' = l\<lparr>fl_fh := None\<rparr> \<and> \<not> mine w' f \<and>
    (\<forall>g. g \<noteq> f \<longrightarrow> mine w g \<longrightarrow> handles w' g = handles w g \<and> flocks w' g = flocks w g) \<and>
    (\<forall>e. r = Raise e \<longrightarrow> fl_raise l \<and> is_Exception (exn_class e))"
proof -
  have "wp False lock_release
      (\<lambda>_ s. fst s = l\<lparr>fl_fh := None\<rparr> \<and> released f w (snd s))
      (\<lambda>e s. fst s = l\<lparr>fl_fh := None\<rparr> \<and> released f w (snd s) \<and> fl_raise l \<and>
         is_Exception (exn_class e)) (l, w)"
    by (rule wp_release [OF assms(1,2)]) auto
  with assms(3) show ?thesis
    by (cases r) (auto simp: wp_def released_def rely_but_def)
qed

section \<open>\<^verbatim>\<open>Lock\<close> as a context manager\<close>

definition lock_free :: "'z flock_scheme \<times> world \<Rightarrow> bool" where
  "lock_free s \<longleftrightarrow> wf_world (snd s) \<and> fl_fh (fst s) = None"

definition lock_held :: "'z flock_scheme \<times> world \<Rightarrow> bool" where
  "lock_held s \<longleftrightarrow> wf_world (snd s) \<and> (\<exists>f. fl_fh (fst s) = Some f \<and> mine (snd s) f)"

lemma lock_enter_ok: "lock_free s \<Longrightarrow> wp True lock_enter (\<lambda>_. lock_held) (\<lambda>_. lock_free) s"
  using any_locker.acquire_wp [of "snd s" "fst s" _ None None None]
  by (auto simp: lock_free_def lock_held_def lock_enter_def any_locker.got_def elim!: wp_mono)

text \<open>
  The exception that leaves the block: the one it raised, or, when reporting is on, that one with
  the release error as its context, the old context behind it, and a note.
\<close>

definition exit_exception :: "bool \<Rightarrow> exn \<Rightarrow> exn \<Rightarrow> bool" where
  "exit_exception reports e e' \<longleftrightarrow> e' = e \<or>
     (reports \<and> (\<exists>re. is_Exception (exn_class re) \<and>
        e' = add_note (set_context e (Some (set_context re (exn_context e)))) release_note))"

lemma exit_exception_same:
  "exit_exception b e e' \<Longrightarrow> exn_class e' = exn_class e \<and> exn_args e' = exn_args e"
  by (auto simp: exit_exception_def)

lemma lock_exit_faithful:
  assumes "lock_held s"
  shows "wp h (lock_exit lock_release (Some e))
    (\<lambda>r t. lock_free t \<and> (\<exists>e'. r = Some e' \<and> exit_exception (fl_raise (fst s)) e e'))
    (\<lambda>_ _. False) s"
proof -
  obtain l w f where s: "s = (l, w)" "wf_world w" "fl_fh l = Some f"
    using assms by (cases s) (auto simp: lock_held_def)
  show ?thesis
  proof (cases "fl_raise l")
    case True
    then show ?thesis
      unfolding s lock_exit_def wp_simps prod.case option.case
      by (simp add: wp_simps del: is_Exception_iff)
         (rule wp_release [OF s(2,3)]; auto simp: lock_free_def exit_exception_def)
  next
    case False
    then show ?thesis
      unfolding s lock_exit_def wp_simps prod.case option.case
      by (simp add: wp_simps)
         (rule wp_release [OF s(2,3)]; simp add: lock_free_def exit_exception_def)
  qed
qed

lemma lock_exit_ok:
  assumes "lock_held s"
  shows "wp h (lock_exit lock_release x) (\<lambda>_. lock_free) (\<lambda>_. lock_free) s"
proof (cases x)
  case None
  obtain l w f where s: "s = (l, w)" "wf_world w" "fl_fh l = Some f"
    using assms by (cases s) (auto simp: lock_held_def)
  show ?thesis
    unfolding None s lock_exit_def wp_simps prod.case option.case
    by (rule wp_release [OF s(2,3)]) (simp_all add: lock_free_def)
next
  case (Some e)
  with lock_exit_faithful [OF assms, of h e] show ?thesis by (auto elim: wp_mono)
qed

interpretation lock_manager: faithful_manager True lock_enter "lock_exit lock_release"
  lock_free lock_held
  by unfold_locales
     (auto intro: lock_enter_ok lock_exit_ok wp_mono [OF lock_exit_faithful]
       dest: exit_exception_same)


section \<open>Effect of a run\<close>

text \<open>
  The effect of a run of \<^verbatim>\<open>acquire\<close>, whatever its outcome, on the object and on the handles that
  were open before.
\<close>

definition acquire_effect :: "lmode \<Rightarrow> 'z flock_scheme \<Rightarrow> world \<Rightarrow> 'z flock_scheme \<Rightarrow> world \<Rightarrow> bool" where
  "acquire_effect m l w l' w' \<longleftrightarrow> wf_world w' \<and> flock_world w' \<and> fl_flags l' = fl_flags l \<and>
     (\<forall>g. mine w g \<longrightarrow> mine w' g \<and> handles w' g = handles w g \<and> flocks w' g = flocks w g) \<and>
     (fl_fh l' = fl_fh l \<or> (\<exists>f. fl_fh l' = Some f \<and> \<not> mine w f \<and> mine w' f \<and> flocks w' f = Some m))"

lemma acquire_effectI:
  assumes "wf_world w" "flock_world w" "lmode_of (fl_flags l AND NOT 4) = Some m"
    and "lock_acquire t ci fwl (l, w) = (r, (l', w'))" "r \<noteq> Hang"
  shows "acquire_effect m l w l' w'"
proof (cases "fl_fh l")
  case (Some f)
  with assms show ?thesis
    by (auto simp: lock_acquire_def andthen_def self_def on_cond_def warn_def ret_def acquire_effect_def
        flock_world_def mine_iff split: if_splits)
next
  case None
  note wp = flock_locker.acquire_wp [OF assms(1) conjI [OF assms(2,3)] None refl, of t ci fwl]
  show ?thesis
  proof (cases r)
    case (Done f)
    with wp_DoneD [OF wp, of f "(l', w')"] assms(4) show ?thesis
      by (auto simp: acquire_effect_def flock_locker.got_def rely_but_def)
  next
    case (Raise e)
    with wp_RaiseD [OF wp, of e "(l', w')"] assms(4) show ?thesis
      by (auto simp: acquire_effect_def flock_locker.got_def rely_but_def own_same_def) metis+
  next
    case Hang
    with assms(5) show ?thesis by simp
  qed
qed

end
