(* ===== verification/MutualExclusion.thy ===== *)
theory MutualExclusion
  imports FileLockFacts
begin

text \<open>
  A process with any number of \<^verbatim>\<open>Lock\<close> objects on any files, whose methods are called in any
  order, among other processes that open, lock, unlock, close, write and unlink as they like, and
  with any pattern of failing calls. The invariant: an object that stores a handle holds its lock.
  With the kernel's promise it gives mutual exclusion.
\<close>

type_synonym lock_system = "(nat \<Rightarrow> flock) \<times> world"

text \<open>
  One step: a method of one object runs to its end (a call that never returns takes no step),
  another process acts, or the future changes: the rest of the tape is replaced.
\<close>

inductive lock_step :: "lock_system \<Rightarrow> lock_system \<Rightarrow> bool" where
  acquire: "lock_acquire t ci fwl (objs i, w) = (r, (l', w')) \<Longrightarrow> r \<noteq> Hang
    \<Longrightarrow> lock_step (objs, w) (objs(i := l'), w')"
| release: "lock_release (objs i, w) = (r, (l', w')) \<Longrightarrow> lock_step (objs, w) (objs(i := l'), w')"
| exit: "lock_exit lock_release x (objs i, w) = (r, (l', w'))
    \<Longrightarrow> lock_step (objs, w) (objs(i := l'), w')"
| env: "lock_step (objs, w) (objs, env_step ev w)"
| future: "lock_step (objs, w) (objs, w\<lparr>tape := cells\<rparr>)"

inductive_cases lock_stepE: "lock_step (objs, w) y"

definition lock_initial :: "(nat \<Rightarrow> lmode) \<Rightarrow> lock_system \<Rightarrow> bool" where
  "lock_initial md s \<longleftrightarrow> wf_world (snd s) \<and> flock_world (snd s) \<and>
     (\<forall>i. fl_fh (fst s i) = None \<and> lmode_of (fl_flags (fst s i) AND NOT 4) = Some (md i))"

section \<open>The invariant\<close>

definition holds :: "lock_system \<Rightarrow> nat \<Rightarrow> fd \<Rightarrow> bool" where
  "holds s i f \<longleftrightarrow> fl_fh (fst s i) = Some f"

definition lock_inv :: "(nat \<Rightarrow> lmode) \<Rightarrow> lock_system \<Rightarrow> bool" where
  "lock_inv md s \<longleftrightarrow> wf_world (snd s) \<and> flock_world (snd s) \<and>
     (\<forall>i. lmode_of (fl_flags (fst s i) AND NOT 4) = Some (md i)) \<and>
     (\<forall>i f. holds s i f \<longrightarrow> mine (snd s) f \<and> flocks (snd s) f = Some (md i)) \<and>
     (\<forall>i j f. holds s i f \<longrightarrow> holds s j f \<longrightarrow> i = j)"

lemma lock_inv_initial: "lock_initial md s \<Longrightarrow> lock_inv md s"
  by (simp add: lock_initial_def lock_inv_def holds_def)

lemma lock_inv_acquire:
  assumes "lock_inv md (objs, w)" "lock_acquire t ci fwl (objs i, w) = (r, (l', w'))" "r \<noteq> Hang"
  shows "lock_inv md (objs(i := l'), w')"
proof -
  from assms(1) have I: "wf_world w" "flock_world w"
    "\<And>j. lmode_of (fl_flags (objs j) AND NOT 4) = Some (md j)"
    "\<And>j f. fl_fh (objs j) = Some f \<Longrightarrow> mine w f \<and> flocks w f = Some (md j)"
    "\<And>j k f. fl_fh (objs j) = Some f \<Longrightarrow> fl_fh (objs k) = Some f \<Longrightarrow> j = k"
    by (auto simp: lock_inv_def holds_def)
  have e: "acquire_effect (md i) (objs i) w l' w'"
    by (rule acquire_effectI [OF I(1,2,3) assms(2,3)])
  then show ?thesis
    using I(3-5) unfolding lock_inv_def acquire_effect_def holds_def fst_conv snd_conv
    by (auto simp del: lmode_of.simps split: if_splits) metis+
qed

lemma lock_inv_drop:
  assumes "lock_inv md (objs, w)" "fl_fh (objs i) = Some f" "released f w w'" "wf_world w'"
  shows "lock_inv md (objs(i := (objs i)\<lparr>fl_fh := None\<rparr>), w')"
  using assms unfolding lock_inv_def released_def holds_def
  by (auto simp: rely_but_def flock_world_def simp del: lmode_of.simps split: if_splits) metis+

lemma lock_inv_release:
  assumes "lock_inv md (objs, w)"
  shows "wp False lock_release (\<lambda>_ s. lock_inv md (objs(i := fst s), snd s))
    (\<lambda>_ s. lock_inv md (objs(i := fst s), snd s)) (objs i, w)"
proof (cases "fl_fh (objs i)")
  case None
  with assms show ?thesis by (simp add: lock_release_def wp_simps fun_upd_idem)
next
  case (Some f)
  show ?thesis
    by (rule wp_release [OF _ Some]) (use lock_inv_drop [OF assms Some] assms in \<open>auto simp: lock_inv_def\<close>)
qed

lemma lock_inv_exit:
  assumes "lock_inv md (objs, w)"
  shows "wp False (lock_exit lock_release x) (\<lambda>_ s. lock_inv md (objs(i := fst s), snd s))
    (\<lambda>_ s. lock_inv md (objs(i := fst s), snd s)) (objs i, w)"
  using lock_inv_release [OF assms, of i]
  by (cases x)
     (auto simp: lock_exit_def wp_simps simp del: is_Exception_iff elim!: wp_mono split: option.splits)

lemma lock_inv_rely:
  assumes "lock_inv md (objs, w)" "rely w w'"
  shows "lock_inv md (objs, w')"
proof -
  have "mine w' f \<and> flocks w' f = flocks w f" if "mine w f" for f
    using assms(2) that by (simp add: rely_def)
  then show ?thesis
    using assms(1) flock_world_rely [OF assms(2)] rely_wf [OF assms(2)]
    unfolding lock_inv_def holds_def fst_conv snd_conv by metis
qed

lemma lock_inv_step: "lock_step s s' \<Longrightarrow> lock_inv md s \<Longrightarrow> lock_inv md s'"
proof (induction rule: lock_step.induct)
  case (release objs i w r l' w')
  then have "r \<noteq> Hang" using wp_no_hang [OF lock_inv_release] by (metis fst_conv)
  with release lock_inv_release [of md objs w i] show ?case
    by (cases r) (auto simp: wp_def)
next
  case (exit x objs i w r l' w')
  then have "r \<noteq> Hang" using wp_no_hang [OF lock_inv_exit] by (metis fst_conv)
  with exit lock_inv_exit [of md objs w x i] show ?case
    by (cases r) (auto simp: wp_def)
next
  case (env objs w ev)
  then have "rely w (env_step ev w)" by (simp add: lock_inv_def rely_env_step)
  with env show ?case by (rule lock_inv_rely)
next
  case (future objs w cells)
  then show ?case by (auto simp: lock_inv_def holds_def flock_world_def mine_iff)
qed (rule lock_inv_acquire)

text \<open>
  C2: Mutual exclusion. In every reachable state of the system, if one object holds an exclusive
  lock, no other object of the process holds a lock on the same file, and no handle of another
  process holds a \<^verbatim>\<open>flock\<close> on it.
\<close>

theorem lock_mutual_exclusion:
  assumes "lock_initial md s0" "lock_step\<^sup>*\<^sup>* s0 s" "holds s i f" "md i = Ex"
  shows "(\<forall>j g. j \<noteq> i \<longrightarrow> holds s j g \<longrightarrow> \<not> same_file (snd s) f g) \<and>
    (\<forall>g. foreign (snd s) g \<longrightarrow> flocks (snd s) g \<noteq> None \<longrightarrow> \<not> same_file (snd s) f g)"
proof -
  from assms(2) have "lock_inv md s"
    by (induction rule: rtranclp_induct) (use assms(1) lock_inv_initial lock_inv_step in blast)+
  then have I: "locks_compatible (snd s)" "flocks (snd s) f = Some Ex" "mine (snd s) f"
    "\<And>j g. holds s j g \<Longrightarrow> flocks (snd s) g \<noteq> None" "\<And>j. holds s j f \<Longrightarrow> j = i"
    using assms(3,4) by (auto simp: lock_inv_def wf_world_def)
  have no: "\<not> same_file (snd s) f g" if "g \<noteq> f" "flocks (snd s) g \<noteq> None" for g
    using I(1,2) that unfolding locks_compatible_def by (metis lmode.distinct(1) not_None_eq)
  have "\<not> foreign (snd s) f" using I(3) by (auto simp: foreign_def mine_iff)
  with no I(4,5) show ?thesis by metis
qed

end
