(* ===== verification/ReentrantLock.thy ===== *)
theory ReentrantLock
  imports FileLockFacts
begin

text \<open>
  The class \<^verbatim>\<open>RLock\<close> of \<^verbatim>\<open>utils.py\<close>: a \<^verbatim>\<open>Lock\<close> with an acquire count. The abstract specification
  is a counter; the methods refine it, and only the first acquire and the last release touch the
  file.
\<close>

record rlock = flock +
  rl_count :: nat

definition rlock_init ::
  "path \<Rightarrow> string \<Rightarrow> time \<Rightarrow> time \<Rightarrow> bool \<Rightarrow> int \<Rightarrow> ('l \<times> world, rlock) act" where
  "rlock_init filename mode timeout check_interval fwl flags =
     andthen (lock_init filename mode (Some timeout) check_interval fwl flags False)
       (\<lambda>l. ret (flock.extend l (rlock.fields 0)))"

definition rlock_acquire ::
  "time option \<Rightarrow> time option \<Rightarrow> bool option \<Rightarrow> ('z rlock_scheme \<times> world, fd) act" where
  "rlock_acquire timeout check_interval fail_when_locked = andthen self (\<lambda>sf.
     andthen
       (if rl_count sf \<ge> 1 then (case fl_fh sf of
            None \<Rightarrow> throw (plain_exn CAssertionError [])
          | Some f \<Rightarrow> ret f)
        else lock_acquire timeout check_interval fail_when_locked)
       (\<lambda>f. andthen (upd_self (\<lambda>s. s\<lparr>rl_count := rl_count s + 1\<rparr>)) (\<lambda>_. ret f)))"

definition rlock_over_release :: exn where
  "rlock_over_release = LockException [AStr ''Cannot release more times than acquired''] None"

definition rlock_release :: "('z rlock_scheme \<times> world, unit) act" where
  "rlock_release = andthen self (\<lambda>sf.
     if rl_count sf = 0 then throw rlock_over_release
     else andthen (on_cond (rl_count sf = 1) lock_release)
       (\<lambda>_. upd_self (\<lambda>s. s\<lparr>rl_count := rl_count s - 1\<rparr>)))"

section \<open>The counter\<close>

text \<open>
  The invariant: the count is positive exactly when a handle is stored, which is open; release
  errors are never reported, as the constructor does not offer it.
\<close>

definition rlock_ok :: "'z rlock_scheme \<times> world \<Rightarrow> bool" where
  "rlock_ok s \<longleftrightarrow> wf_world (snd s) \<and> \<not> fl_raise (fst s) \<and>
     (rl_count (fst s) = 0 \<longleftrightarrow> fl_fh (fst s) = None) \<and>
     (\<forall>f. fl_fh (fst s) = Some f \<longrightarrow> mine (snd s) f)"

text \<open>
  The specification of a reentrant lock: a count, and an error for a release too many.
\<close>

fun counter_acquire :: "nat \<Rightarrow> nat" where
  "counter_acquire n = Suc n"

fun counter_release :: "nat \<Rightarrow> nat option" where
  "counter_release 0 = None"
| "counter_release (Suc n) = Some n"

lemma rlock_acquire_wp:
  assumes "rlock_ok (l, w)"
  shows "wp True (rlock_acquire t ci fwl)
    (\<lambda>f s. rlock_ok s \<and> rl_count (fst s) = counter_acquire (rl_count l) \<and> fl_fh (fst s) = Some f \<and>
       (0 < rl_count l \<longrightarrow> fl_fh l = Some f \<and> snd s = w))
    (\<lambda>e s. rlock_ok s \<and> fst s = l \<and> rl_count l = 0) (l, w)"
proof (cases "rl_count l = 0")
  case True
  with assms have I: "wf_world w" "fl_fh l = None" "\<not> fl_raise l" by (simp_all add: rlock_ok_def)
  have "wp True (lock_acquire t ci fwl)
      (\<lambda>f s. fst s = l\<lparr>fl_fh := Some f\<rparr> \<and> any_locker.got f w (snd s))
      (\<lambda>e s. fst s = l \<and> wf_world (snd s)) (l, w)"
    by (rule wp_mono [OF any_locker.acquire_wp [OF I(1) TrueI I(2) refl]]) auto
  then show ?thesis
    unfolding rlock_acquire_def wp_simps prod.case
    using True I by (auto simp: rlock_ok_def any_locker.got_def elim!: wp_mono)
next
  case False
  with assms obtain f where "fl_fh l = Some f" by (auto simp: rlock_ok_def)
  with False assms show ?thesis
    unfolding rlock_acquire_def wp_simps prod.case by (simp add: wp_simps rlock_ok_def)
qed

lemma rlock_release_wp:
  assumes "rlock_ok (l, w)"
  shows "wp False rlock_release
    (\<lambda>_ s. rlock_ok s \<and> counter_release (rl_count l) = Some (rl_count (fst s)) \<and>
       (if rl_count l = 1 then \<not> mine (snd s) (the (fl_fh l))
        else fl_fh (fst s) = fl_fh l \<and> snd s = w))
    (\<lambda>e s. s = (l, w) \<and> e = rlock_over_release \<and> counter_release (rl_count l) = None) (l, w)"
proof (cases "rl_count l = 1")
  case True
  with assms obtain f where f: "fl_fh l = Some f" "wf_world w" "\<not> fl_raise l"
    by (auto simp: rlock_ok_def)
  have "wp False lock_release
      (\<lambda>_ s. fst s = l\<lparr>fl_fh := None\<rparr> \<and> released f w (snd s) \<and> wf_world (snd s)) (\<lambda>_ _. False) (l, w)"
    by (rule wp_release [OF f(2,1)]) (use f(3) in auto)
  then show ?thesis
    unfolding rlock_release_def wp_simps prod.case
    using True f by (auto simp: rlock_ok_def released_def numeral_eq_Suc elim!: wp_mono)
next
  case False
  with assms show ?thesis
    by (cases "rl_count l") (auto simp: rlock_release_def wp_simps rlock_ok_def)
qed

section \<open>Properties\<close>

text \<open>
  C25: A successful \<^verbatim>\<open>RLock.acquire\<close> refines the counter's increment and returns the stored
  handle; a nested one returns the handle of the first and makes no system call, so it cannot
  fail or wait.
\<close>

theorem rlock_acquire_refines_counter:
  assumes "rlock_ok (l, w)" "rlock_acquire t ci fwl (l, w) = (Done f, (l', w'))"
  shows "rlock_ok (l', w') \<and> rl_count l' = counter_acquire (rl_count l) \<and> fl_fh l' = Some f \<and>
    (0 < rl_count l \<longrightarrow> fl_fh l = Some f \<and> w' = w)"
  using wp_DoneD [OF rlock_acquire_wp [OF assms(1)] assms(2)] by simp

text \<open>
  C10: \<^verbatim>\<open>RLock.release\<close> refines the counter's decrement. Only the last release closes the handle,
  the others make no system call; one release too many raises and changes nothing. A release
  never hangs and never raises anything else, whatever the unlock and the close do.
\<close>

theorem rlock_release_refines_counter:
  assumes "rlock_ok (l, w)" "rlock_release (l, w) = (r, (l', w'))"
  shows "case counter_release (rl_count l) of
      None \<Rightarrow> r = Raise rlock_over_release \<and> l' = l \<and> w' = w
    | Some n \<Rightarrow> r = Done () \<and> rlock_ok (l', w') \<and> rl_count l' = n \<and>
        (if n = 0 then \<not> mine w' (the (fl_fh l)) else fl_fh l' = fl_fh l \<and> w' = w)"
  using rlock_release_wp [OF assms(1)] assms(2)
  by (cases "rl_count l"; cases r) (auto simp: wp_def split: if_splits)

text \<open>As a context manager: inside the block the lock is held at least once.\<close>

definition rlock_at :: "nat \<Rightarrow> 'z rlock_scheme \<times> world \<Rightarrow> bool" where
  "rlock_at n s \<longleftrightarrow> rlock_ok s \<and> rl_count (fst s) = n"

lemma rlock_exit_ok:
  assumes "rlock_at (Suc n) s"
  shows "wp False (lock_exit rlock_release x) (\<lambda>r t. rlock_at n t \<and> r = x) (\<lambda>_ _. False) s"
proof -
  obtain l w where s: "s = (l, w)" by (cases s)
  with assms have "wp False rlock_release (\<lambda>_. rlock_at n) (\<lambda>_ _. False) (l, w)"
    by (intro wp_mono [OF rlock_release_wp [of l w]]) (auto simp: rlock_at_def)
  moreover have "\<not> fl_raise l" using assms s by (simp add: rlock_at_def rlock_ok_def)
  ultimately show ?thesis
    by (cases x) (auto simp: s lock_exit_def wp_simps elim!: wp_mono)
qed

interpretation rlock_manager: faithful_manager True "rlock_acquire None None None"
  "lock_exit rlock_release" "rlock_at n" "rlock_at (Suc n)"
  for n
proof unfold_locales
  fix s :: "'a rlock_scheme \<times> world" and x e
  show "rlock_at n s \<Longrightarrow>
      wp True (rlock_acquire None None None) (\<lambda>_. rlock_at (Suc n)) (\<lambda>_. rlock_at n) s"
    by (cases s) (auto simp: rlock_at_def elim!: wp_mono [OF rlock_acquire_wp])
  show "rlock_at (Suc n) s \<Longrightarrow>
      wp True (lock_exit rlock_release x) (\<lambda>_. rlock_at n) (\<lambda>_. rlock_at n) s"
    by (erule wp_mono [OF rlock_exit_ok]) auto
  show "rlock_at (Suc n) s \<Longrightarrow> wp True (lock_exit rlock_release (Some e))
      (\<lambda>r _. \<exists>e'. r = Some e' \<and> exn_class e' = exn_class e \<and> exn_args e' = exn_args e)
      (\<lambda>_ _. False) s"
    by (erule wp_mono [OF rlock_exit_ok]) auto
qed

end
