(* ===== verification/TempFileLock.thy ===== *)
theory TempFileLock
  imports FileLockFacts
begin

text \<open>
  The class \<^verbatim>\<open>TemporaryFileLock\<close> of \<^verbatim>\<open>utils.py\<close>: a \<^verbatim>\<open>Lock\<close> whose file exists while it is held.
  \<^verbatim>\<open>acquire\<close> verifies after locking that the path still names the locked inode and otherwise
  starts again; \<^verbatim>\<open>release\<close> unlinks the path before it gives the lock up.
\<close>

section \<open>The methods\<close>

text \<open>
  \<^verbatim>\<open>__init__\<close> fixes the mode to \<^verbatim>\<open>w\<close>. The handler it registers at interpreter exit calls
  \<^verbatim>\<open>release\<close> with errors suppressed, like the finalizer (\<^const>\<open>lockbase_del\<close>).
\<close>

definition temp_init ::
  "path \<Rightarrow> time \<Rightarrow> time \<Rightarrow> bool \<Rightarrow> int \<Rightarrow> ('l \<times> world, flock) act" where
  "temp_init filename timeout check_interval fwl flags =
     lock_init filename ''w'' (Some timeout) check_interval fwl flags False"

definition fh_matches_path :: "fd \<Rightarrow> path \<Rightarrow> ('l \<times> world, bool) act" where
  "fh_matches_path f filename =
     try_except
       (andthen (py_fileno f) (\<lambda>n.
        andthen (os_fstat_ino n) (\<lambda>i.
        andthen (os_stat_ino filename) (\<lambda>j. ret (i = j)))))
       (\<lambda>e. if is_FileNotFoundError (exn_class e) then ret False else throw e)"

definition split_brain_error :: "path \<Rightarrow> exn" where
  "split_brain_error filename = AlreadyLocked [AInt LOCK_FAILED,
     AJoin [AStr filename, AStr '' kept being replaced while locking (split-brain)'']] None"

text \<open>One round of \<^verbatim>\<open>_acquire_verified\<close>: the \<^verbatim>\<open>return\<close> leaves the loop.\<close>

definition verified_attempt ::
  "path \<Rightarrow> time option \<Rightarrow> time option \<Rightarrow> bool option \<Rightarrow> nat \<Rightarrow> unit
    \<Rightarrow> ('z flock_scheme \<times> world, (unit, fd) flow) act" where
  "verified_attempt filename timeout check_interval fail_when_locked i u =
     andthen (lock_acquire timeout check_interval fail_when_locked) (\<lambda>f.
     andthen (env_get plat) (\<lambda>os_name.
       if os_name = NT then ret (Leave f)
       else andthen (fh_matches_path f filename) (\<lambda>ok.
         if ok then ret (Leave f)
         else andthen lock_release (\<lambda>_. ret (Cont ())))))"

definition acquire_verified ::
  "path \<Rightarrow> time option \<Rightarrow> time option \<Rightarrow> bool option \<Rightarrow> ('z flock_scheme \<times> world, fd) act" where
  "acquire_verified filename timeout check_interval fail_when_locked = andthen self (\<lambda>sf.
     andthen (retry_loop sf timeout check_interval ()
         (verified_attempt filename timeout check_interval fail_when_locked)) (\<lambda>r. case r of
       Leave f \<Rightarrow> ret f
     | Cont _ \<Rightarrow> throw (split_brain_error filename)))"

definition temp_acquire ::
  "time option \<Rightarrow> time option \<Rightarrow> bool option \<Rightarrow> ('z flock_scheme \<times> world, fd) act" where
  "temp_acquire timeout check_interval fail_when_locked = andthen self (\<lambda>sf.
     acquire_verified (fl_filename sf) timeout check_interval fail_when_locked)"

text \<open>The Windows removal: up to five tries, 50 milliseconds apart.\<close>

fun unlink_retry :: "nat \<Rightarrow> path \<Rightarrow> ('l \<times> world, unit) act" where
  "unlink_retry 0 p = ret ()"
| "unlink_retry (Suc n) p =
     try_else (os_unlink p)
       (\<lambda>e. if is_PermissionError (exn_class e) then andthen (py_sleep (1 / 20)) (\<lambda>_. unlink_retry n p)
            else if is_FileNotFoundError (exn_class e) then ret ()
            else throw e)
       ret"

definition temp_release :: "('z flock_scheme \<times> world, unit) act" where
  "temp_release = andthen self (\<lambda>sf. case fl_fh sf of
      None \<Rightarrow> ret ()
    | Some f \<Rightarrow> andthen (env_get plat) (\<lambda>os_name.
        if os_name = NT then
          andthen lock_release (\<lambda>_. andthen (os_path_exists (fl_filename sf)) (\<lambda>isfile.
            on_cond isfile (unlink_retry 5 (fl_filename sf))))
        else try_finally
          (suppress is_FileNotFoundError (os_unlink (fl_filename sf)))
          lock_release))"

section \<open>What \<^verbatim>\<open>acquire\<close> establishes\<close>

text \<open>\<open>names_path p f\<close>: the path leads to the file that is open as \<open>f\<close>.\<close>

definition names_path :: "path \<Rightarrow> fd \<Rightarrow> world \<Rightarrow> bool" where
  "names_path p f w \<longleftrightarrow> (case handles w f of None \<Rightarrow> False | Some h \<Rightarrow> paths w p = Some (h_ino h))"

lemma names_path_iff: "names_path p f w \<longleftrightarrow> (\<exists>h. handles w f = Some h \<and> paths w p = Some (h_ino h))"
  by (simp add: names_path_def split: option.splits)

lemma wp_matches_path:
  assumes "wf_world w" "mine w f"
    and "\<And>u b. rely w u \<Longrightarrow> wf_world u \<Longrightarrow> (b \<longrightarrow> names_path p f u) \<Longrightarrow> Q b (l, u)"
    and "\<And>u e. rely w u \<Longrightarrow> wf_world u \<Longrightarrow> lib_exn e \<Longrightarrow> E e (l, u)"
  shows "wp h (fh_matches_path f p) Q E (l, w)"
proof -
  have fail: "if is_FileNotFoundError (exn_class e) then Q False (l, u) else E e (l, u)"
    if "rely w u" "wf_world u" "lib_exn e" for u e
    using that assms(3) [of u False] assms(4) by simp
  have match: "Q (h_ino hx = i) (l, v)"
    if u: "rely w u" "handles u f = Some hx" and v: "rely u v" "wf_world v" "paths v p = Some i"
    for u hx v i
  proof -
    have "mine u f" using u(1) assms(2) rely_mine by blast
    then have "handles v f = Some hx" using v(1) u(2) by (simp add: rely_def)
    with v(3) have "h_ino hx = i \<longrightarrow> names_path p f v" by (simp add: names_path_def)
    then show ?thesis using rely_trans [OF u(1) v(1)] v(2) by (intro assms(3)) auto
  qed
  show ?thesis
    unfolding fh_matches_path_def wp_simps
    by (rule wp_fileno, rule wp_fstat_ino [OF assms(1,2)], rule wp_stat_ino, assumption)
       (rule match fail; (assumption | erule rely_trans | simp add: assms(2)); assumption?)+
qed

text \<open>The handles that were open are as they were; new ones may exist.\<close>

definition others_kept :: "world \<Rightarrow> world \<Rightarrow> bool" where
  "others_kept w u \<longleftrightarrow> clock w \<le> clock u \<and> mypid u = mypid w \<and>
     (\<forall>g. mine w g \<longrightarrow> mine u g \<and> handles u g = handles w g \<and> flocks u g = flocks w g)"

lemma own_same_others: "own_same w u \<Longrightarrow> others_kept w u"
  by (simp add: own_same_def others_kept_def)

lemma others_kept_rely_but:
  "own_same w0 w \<Longrightarrow> \<not> mine w f \<Longrightarrow> rely_but f w u \<Longrightarrow> others_kept w0 u"
  unfolding own_same_def others_kept_def rely_but_def by (metis order_trans)

lemma own_same_trans: "own_same u v \<Longrightarrow> own_same v w \<Longrightarrow> own_same u w"
  unfolding own_same_def by (metis order_trans)

lemma others_kept_rely: "others_kept w0 w \<Longrightarrow> rely w u \<Longrightarrow> others_kept w0 u"
  unfolding others_kept_def rely_def by (metis order_trans)

definition own_but :: "fd \<Rightarrow> world \<Rightarrow> world \<Rightarrow> bool" where
  "own_but f w u \<longleftrightarrow> mypid u = mypid w \<and> plat u = plat w \<and> locker u = locker w \<and> clock w \<le> clock u \<and>
     (\<forall>g. g \<noteq> f \<longrightarrow> mine u g = mine w g) \<and>
     (\<forall>g. g \<noteq> f \<longrightarrow> mine w g \<longrightarrow> handles u g = handles w g \<and> flocks u g = flocks w g)"

lemma own_but_others: "own_but f w u \<Longrightarrow> \<not> mine w f \<Longrightarrow> others_kept w u"
  unfolding own_but_def others_kept_def by metis

lemma own_but_rely_but:
  "own_same w0 w \<Longrightarrow> \<not> mine w f \<Longrightarrow> rely_but f w u \<Longrightarrow> own_but f w0 u"
  unfolding own_same_def own_but_def rely_but_def by (metis order_trans)

lemma own_but_rely: "own_but f w0 w \<Longrightarrow> rely w u \<Longrightarrow> own_but f w0 u"
  unfolding own_but_def rely_def by (metis order_trans)

lemma own_but_same: "own_but f w u \<Longrightarrow> own_same u v \<Longrightarrow> own_but f w v"
  unfolding own_but_def own_same_def by (metis order_trans)

lemma own_but_released:
  "own_but f w u \<Longrightarrow> \<not> mine w f \<Longrightarrow> released f u v \<Longrightarrow> own_same w v"
  unfolding own_but_def released_def rely_but_def own_same_def by (metis order_trans)

lemma own_same_mine: "own_same w u \<Longrightarrow> mine u g = mine w g"
  by (simp add: own_same_def)

lemma fl_fh_None_idem: "fl_fh l = None \<Longrightarrow> l\<lparr>fl_fh := None\<rparr> = l"
  by (cases l) simp

context locker_contract
begin

definition holding :: "fd \<Rightarrow> 'z flock_scheme \<Rightarrow> world \<Rightarrow> 'z flock_scheme \<times> world \<Rightarrow> bool" where
  "holding f l0 w0 s \<longleftrightarrow> fst s = l0\<lparr>fl_fh := Some f\<rparr> \<and> wf_world (snd s) \<and> W (snd s) \<and>
     \<not> mine w0 f \<and> mine (snd s) f \<and> granted f (snd s) \<and> own_but f w0 (snd s)"

definition vfree :: "'z flock_scheme \<Rightarrow> world \<Rightarrow> 'z flock_scheme \<times> world \<Rightarrow> bool" where
  "vfree l0 w0 s \<longleftrightarrow> fst s = l0 \<and> fl_fh l0 = None \<and> \<not> fl_raise l0 \<and> fl_flags l0 = flags \<and>
     wf_world (snd s) \<and> W (snd s) \<and> own_same w0 (snd s)"

definition vend :: "path \<Rightarrow> 'z flock_scheme \<Rightarrow> world \<Rightarrow> (unit, fd) flow \<Rightarrow> 'z flock_scheme \<times> world \<Rightarrow> bool" where
  "vend p l0 w0 r s = (case r of
      Leave f \<Rightarrow> holding f l0 w0 s \<and> (plat (snd s) = POSIX \<longrightarrow> names_path p f (snd s))
    | Cont _ \<Rightarrow> vfree l0 w0 s)"

definition vraises :: "'z flock_scheme \<Rightarrow> world \<Rightarrow> exn \<Rightarrow> 'z flock_scheme \<times> world \<Rightarrow> bool" where
  "vraises l0 w0 e s \<longleftrightarrow> wf_world (snd s) \<and> W (snd s) \<and> others_kept w0 (snd s) \<and>
     is_Exception (exn_class e) \<and>
     (fst s = l0 \<and> (own_same w0 (snd s) \<or> fl_truncate l0) \<or> lib_exn e \<and> (\<exists>f. holding f l0 w0 s))"

lemma vfree_facts:
  "vfree l0 w0 (l0, w) \<Longrightarrow> wf_world w \<and> W w \<and> fl_fh l0 = None \<and> fl_flags l0 = flags \<and>
     own_same w0 w \<and> \<not> fl_raise l0"
  by (simp add: vfree_def)

text \<open>After the inner lock was granted; after it was given up again; after it failed.\<close>

lemma hold_after:
  assumes "vfree l0 w0 (l0, w)" "got f w u" "W u" "rely u v"
  shows "holding f l0 w0 (l0\<lparr>fl_fh := Some f\<rparr>, v)"
proof -
  have "touched f u v" "rely_but f w v"
    using assms(2-4) rely_touched rely_rely_but rely_but_trans by (auto simp: got_def)
  with assms(2-4) vfree_facts [OF assms(1)] show ?thesis
    unfolding holding_def got_def fst_conv snd_conv
    by (meson granted_stable rely_mine rely_wf W_stable rely_rely_but own_same_mine own_but_rely_but)
qed

lemma free_after:
  assumes "vfree l0 w0 (l0, w)" "got f w u" "W u" "rely u v" "released f v x" "wf_world x"
  shows "vfree l0 w0 (l0, x) \<and> clock w \<le> clock x"
proof -
  have "rely_but f w x" "\<not> mine x f"
    using assms unfolding got_def released_def by (meson rely_rely_but rely_but_trans)+
  with assms vfree_facts [OF assms(1)] show ?thesis
    unfolding vfree_def fst_conv snd_conv
    by (meson W_stable own_sameI own_same_trans rely_but_clock got_def)
qed

lemma raised_after:
  assumes "vfree l0 w0 (l0, w)"
    and "fst t = l0 \<and> wf_world (snd t) \<and> W (snd t) \<and> (is_LockException (exn_class e) \<or> lib_exn e) \<and>
       (own_same w (snd t) \<or> fl_truncate l0 \<and> lib_exn e \<and> (\<exists>f. got f w (snd t)))"
  shows "vraises l0 w0 e t"
proof -
  have w: "own_same w0 w" using vfree_facts [OF assms(1)] by blast
  have "is_Exception (exn_class e)" using assms(2) by (auto dest: lib_exnD)
  moreover have "others_kept w0 (snd t)"
    using assms(2) w own_same_trans own_same_others others_kept_rely_but unfolding got_def by blast
  moreover have "own_same w0 (snd t) \<or> fl_truncate l0" using assms(2) w own_same_trans by blast
  ultimately show ?thesis using assms(2) by (simp add: vraises_def)
qed

definition vround :: "path \<Rightarrow> 'z flock_scheme \<Rightarrow> world \<Rightarrow> world \<Rightarrow> (unit, fd) flow
    \<Rightarrow> 'z flock_scheme \<times> world \<Rightarrow> bool" where
  "vround p l0 w0 w r u = (case r of
      Leave b \<Rightarrow> vend p l0 w0 (Leave b) u
    | Cont a \<Rightarrow> vfree l0 w0 u \<and> clock w \<le> clock (snd u))"

lemma verify_after:
  assumes free: "vfree l0 w0 (l0, w)" and got: "got f w u" "W u"
  shows "wp h (andthen (env_get plat) (\<lambda>os_name. if os_name = NT then ret (Leave f)
       else andthen (fh_matches_path f p) (\<lambda>ok. if ok then ret (Leave f)
         else andthen lock_release (\<lambda>_. ret (Cont ()))))) (vround p l0 w0 w) (vraises l0 w0)
       (l0\<lparr>fl_fh := Some f\<rparr>, u)"
proof -
  have u: "wf_world u" "mine u f" using got by (simp_all add: got_def)
  have facts: "fl_fh l0 = None" "\<not> fl_raise l0" using vfree_facts [OF free] by simp_all
  note hold = hold_after [OF free got]
  have rel: "wp h lock_release (\<lambda>_. (\<lambda>s. vfree l0 w0 s \<and> clock w \<le> clock (snd s))) (vraises l0 w0)
      (l0\<lparr>fl_fh := Some f\<rparr>, v)" if v: "rely u v" "wf_world v" for v
  proof (rule wp_release [OF v(2)])
    fix x
    assume "released f v x" "wf_world x"
    from free_after [OF free got v(1) this]
    show "vfree l0 w0 (l0\<lparr>fl_fh := Some f, fl_fh := None\<rparr>, x) \<and>
        clock w \<le> clock (snd (l0\<lparr>fl_fh := Some f, fl_fh := None\<rparr>, x))"
      by (simp add: fl_fh_None_idem [OF facts(1)])
  qed (use facts in simp_all)
  have "wp h (fh_matches_path f p)
      (\<lambda>ok. if ok then (\<lambda>s. vend p l0 w0 (Leave f) s)
        else wp h lock_release (\<lambda>_ s. vfree l0 w0 s \<and> clock w \<le> clock (snd s)) (vraises l0 w0))
      (vraises l0 w0) (l0\<lparr>fl_fh := Some f\<rparr>, u)"
  proof (rule wp_matches_path [OF u])
    fix v e
    assume "rely u v" "wf_world v" "lib_exn e"
    with hold show "vraises l0 w0 e (l0\<lparr>fl_fh := Some f\<rparr>, v)"
      by (auto simp: vraises_def holding_def dest: lib_exn_Exception own_but_others)
  qed (use hold rel in \<open>simp add: vend_def if_apply\<close>)
  with hold [OF rely_refl] show ?thesis
    by (simp add: wp_simps vround_def vend_def if_apply cong: if_cong)
qed

lemma verified_body:
  assumes "vfree l0 w0 s"
  shows "wp h (verified_attempt p t ci fwl k a) (vround p l0 w0 (snd s)) (vraises l0 w0) s"
proof -
  obtain w where s: "s = (l0, w)" using assms by (cases s) (simp add: vfree_def)
  note free = assms [unfolded s] and facts = vfree_facts [OF assms [unfolded s]]
  show ?thesis
    unfolding s verified_attempt_def wp_andthen [of _ "lock_acquire t ci fwl"] snd_conv
  proof (rule wp_mono [OF acquire_wp], goal_cases)
    case (5 f u)
    then show ?case using verify_after [OF free, of f "snd u" p] by (cases u) simp
  next
    case (6 e u)
    then show ?case by (rule raised_after [OF free])
  qed (use facts in simp_all)
qed

end

sublocale locker_contract \<subseteq> verified: retrying h "verified_attempt p t ci fwl"
    "\<lambda>k a s. vfree l0 w0 s" "vend p l0 w0" "vraises l0 w0"
  for p t ci fwl l0 w0
proof unfold_locales
  fix k :: nat and a l w u and s :: "'z flock_scheme \<times> world"
  show "vfree l0 w0 (l, w) \<Longrightarrow> wf_world w" by (simp add: vfree_def)
  show "vfree l0 w0 (l, w) \<Longrightarrow> rely w u \<Longrightarrow> vfree l0 w0 (l, u)"
    unfolding vfree_def fst_conv snd_conv
    by (meson W_stable rely_rely_but rely_wf own_same_trans rely_own_same)
  show "vfree l0 w0 s \<Longrightarrow> wp h (verified_attempt p t ci fwl k a)
    (\<lambda>r u. case r of Leave b \<Rightarrow> vend p l0 w0 (Leave b) u
       | Cont a' \<Rightarrow> vfree l0 w0 u \<and> clock (snd s) \<le> clock (snd u))
    (vraises l0 w0) s" unfolding vround_def [symmetric] by (rule verified_body)
  show "vfree l0 w0 s \<Longrightarrow> vend p l0 w0 (Cont a) s" by (simp add: vend_def)
qed

context locker_contract
begin

theorem verified_wp:
  fixes l :: "'z flock_scheme"
  assumes "vfree l w (l, w)"
  shows "wp h (acquire_verified p t ci fwl)
    (\<lambda>f s. holding f l w s \<and> (plat (snd s) = POSIX \<longrightarrow> names_path p f (snd s)))
    (vraises l w) (l, w)"
  unfolding acquire_verified_def wp_andthen wp_self prod.case
proof (rule wp_mono [OF verified.wp_retry [OF assms]])
  fix r and s :: "'z flock_scheme \<times> world"
  assume "vend p l w r s"
  then show "wp h (case r of Leave f \<Rightarrow> ret f | Cont _ \<Rightarrow> throw (split_brain_error p))
     (\<lambda>f s. holding f l w s \<and> (plat (snd s) = POSIX \<longrightarrow> names_path p f (snd s))) (vraises l w) s"
    by (cases r)
       (auto simp: vend_def wp_simps vraises_def vfree_def split_brain_error_def dest: own_same_others)
qed simp_all

end

section \<open>Releasing\<close>

lemma wp_temp_release_posix:
  assumes "wf_world w" "plat w = POSIX" "fl_fh l = Some f"
    and "\<And>u. released f w u \<Longrightarrow> wf_world u \<Longrightarrow> Q () (l\<lparr>fl_fh := None\<rparr>, u)"
    and "\<And>u e. released f w u \<Longrightarrow> wf_world u \<Longrightarrow> is_Exception (exn_class e) \<Longrightarrow>
      E e (l\<lparr>fl_fh := None\<rparr>, u)"
  shows "wp h temp_release Q E (l, w)"
proof -
  have rel: "wp h lock_release Q' E (l, u)"
    if "rely w u" "wf_world u"
      "\<And>v. released f w v \<Longrightarrow> wf_world v \<Longrightarrow> Q' () (l\<lparr>fl_fh := None\<rparr>, v)"
    for Q' :: "unit \<Rightarrow> 'a flock_scheme \<times> world \<Rightarrow> bool" and u
    by (rule wp_release [OF that(2) assms(3)])
       (use keeps_released [OF rely_keeps [OF that(1)] assms(1)] that(3) assms(5) in auto)
  show ?thesis
    using assms(2,3)
    by (simp add: temp_release_def wp_simps)
       (rule wp_unlink [OF assms(1)];
        auto simp: if_apply intro!: rel assms(4,5) dest: lib_exn_Exception)
qed

text \<open>
  C27: \<^verbatim>\<open>TemporaryFileLock.release\<close> on POSIX always gives the lock up: also when the unlink fails,
  for instance in a read-only directory, the handle is closed and forgotten. A release of an
  object that holds nothing does nothing at all, so it cannot remove the path of another holder.
\<close>

theorem temp_release_gives_up_lock:
  assumes "wf_world w" "plat w = POSIX" "temp_release (l, w) = (r, (l', w'))"
  shows "fl_fh l' = None \<and> r \<noteq> Hang \<and> (case fl_fh l of
      None \<Rightarrow> r = Done () \<and> l' = l \<and> w' = w
    | Some f \<Rightarrow> \<not> mine w' f \<and>
        (\<forall>g. g \<noteq> f \<longrightarrow> mine w g \<longrightarrow> handles w' g = handles w g \<and> flocks w' g = flocks w g))"
proof (cases "fl_fh l")
  case None
  with assms(3) show ?thesis by (auto simp: temp_release_def andthen_def self_def ret_def)
next
  case (Some f)
  have "wp False temp_release (\<lambda>_ s. fst s = l\<lparr>fl_fh := None\<rparr> \<and> released f w (snd s))
      (\<lambda>_ s. fst s = l\<lparr>fl_fh := None\<rparr> \<and> released f w (snd s)) (l, w)"
    by (rule wp_temp_release_posix [OF assms(1,2) Some]) auto
  with assms(3) Some show ?thesis
    by (cases r) (auto simp: wp_def released_def rely_but_def)
qed

section \<open>Properties of \<^verbatim>\<open>acquire\<close>\<close>

lemma flock_vfree:
  assumes "wf_world w" "flock_world w" "fl_fh l = None" "\<not> fl_raise l"
    and "lmode_of (fl_flags l AND NOT 4) = Some m"
  shows "flock_locker.vfree (fl_flags l) m l w (l, w)"
  using assms unfolding flock_locker.vfree_def by (simp add: own_same_def del: lmode_of.simps)

lemma temp_acquire_holding:
  assumes "wf_world w" "flock_world w" "fl_fh l = None" "\<not> fl_raise l"
    and "lmode_of (fl_flags l AND NOT 4) = Some m"
    and "temp_acquire t ci fwl (l, w) = (Done f, (l', w'))"
  shows "flock_locker.holding (fl_flags l) m f l w (l', w') \<and> names_path (fl_filename l) f w'"
proof -
  have "acquire_verified (fl_filename l) t ci fwl (l, w) = (Done f, (l', w'))"
    using assms(6) by (simp add: temp_acquire_def andthen_def self_def)
  from wp_DoneD [OF flock_locker.verified_wp [OF flock_vfree [OF assms(1-5)]] this]
  show ?thesis
    unfolding flock_locker.holding_def by (auto simp: flock_world_def simp del: lmode_of.simps)
qed

text \<open>
  C26: The split-brain guard. When \<^verbatim>\<open>TemporaryFileLock.acquire\<close> returns a handle on POSIX, then at
  that moment the handle holds the requested lock and the path of the lock leads to the very file
  that is locked, whatever other processes unlinked and created meanwhile.
\<close>

theorem temp_acquire_verified:
  assumes "wf_world w" "flock_world w" "fl_fh l = None" "\<not> fl_raise l"
    and "lmode_of (fl_flags l AND NOT 4) = Some m"
    and "temp_acquire t ci fwl (l, w) = (Done f, (l', w'))"
  shows "l' = l\<lparr>fl_fh := Some f\<rparr> \<and> \<not> mine w f \<and> mine w' f \<and> flocks w' f = Some m \<and>
    names_path (fl_filename l) f w' \<and> wf_world w' \<and> others_kept w w'"
  using temp_acquire_holding [OF assms] unfolding flock_locker.holding_def
  by (auto intro: own_but_others)

text \<open>
  \<^verbatim>\<open>TemporaryFileLock.acquire\<close> with non-blocking flags returns, although it retries a retrying
  acquire: neither a holder that stays nor a path that is replaced over and over makes it spin.
\<close>

lemma temp_acquire_returns:
  assumes "wf_world w" "fl_fh l = None" "\<not> fl_raise l" "non_blocking (fl_flags l)"
  shows "fst (temp_acquire t ci fwl (l, w)) \<noteq> Hang"
proof -
  have free: "any_locker.vfree (fl_flags l) l w (l, w)"
    using assms by (simp add: any_locker.vfree_def own_same_def)
  have "fst (acquire_verified (fl_filename l) t ci fwl (l, w)) \<noteq> Hang"
    using any_locker.verified_wp [OF free, of "fl_filename l" t ci fwl] assms(4)
    by (auto simp: non_blocking_def intro!: wp_no_hang)
  then show ?thesis by (simp add: temp_acquire_def andthen_def self_def)
qed

section \<open>Exclusion by path\<close>

text \<open>
  The protocol of the path: only a holder unlinks it. \<open>sole_holder\<close> is what \<^const>\<open>temp_acquire\<close>
  establishes with exclusive flags; \<open>polite\<close> says that an event of another process follows the
  protocol: a process that unlinks the path has itself an exclusive lock on the file it names.
  Opening, locking, closing, writing and creating are not restricted.
\<close>

definition sole_holder :: "path \<Rightarrow> fd \<Rightarrow> world \<Rightarrow> bool" where
  "sole_holder p f w \<longleftrightarrow> wf_world w \<and> mine w f \<and> flocks w f = Some Ex \<and> names_path p f w"

definition polite :: "path \<Rightarrow> env_event \<Rightarrow> world \<Rightarrow> bool" where
  "polite p e w \<longleftrightarrow> (e = EvUnlink p \<longrightarrow>
     (\<exists>g. foreign w g \<and> names_path p g w \<and> flocks w g = Some Ex))"

fun polite_run :: "path \<Rightarrow> env_event list \<Rightarrow> world \<Rightarrow> bool" where
  "polite_run p [] w \<longleftrightarrow> True"
| "polite_run p (e # es) w \<longleftrightarrow> polite p e w \<and> polite_run p es (env_step e w)"

lemma foreign_not_mine: "foreign w g \<Longrightarrow> \<not> mine w g"
  by (auto simp: foreign_def mine_iff)

lemma names_path_same_file: "names_path p f w \<Longrightarrow> names_path p g w \<Longrightarrow> same_file w f g"
  by (cases "handles w f"; cases "handles w g") (auto simp: names_path_iff same_file_def)

lemma sole_holder_excludes:
  assumes "sole_holder p f w" "names_path p g w" "g \<noteq> f"
  shows "flocks w g = None"
proof -
  have "same_file w f g" using assms(1,2) names_path_same_file by (auto simp: sole_holder_def)
  with assms(1,3) show ?thesis
    unfolding sole_holder_def wf_world_def locks_compatible_def
    by (metis lmode.distinct(1) not_None_eq)
qed

lemma paths_env_step: "e \<noteq> EvUnlink p \<Longrightarrow> paths w p = Some i \<Longrightarrow> paths (env_step e w) p = Some i"
  by (cases e) (auto simp: k_open_def add_handle_def create_file_def drop_handle_def k_unlink_def
      split: option.splits prod.splits)

lemma sole_holder_step:
  assumes "sole_holder p f w" "polite p e w"
  shows "sole_holder p f (env_step e w)"
proof -
  have "e \<noteq> EvUnlink p"
    using assms(2) sole_holder_excludes [OF assms(1)] foreign_not_mine [of w] assms(1)
    unfolding polite_def sole_holder_def by (metis option.distinct(1))
  moreover have r: "rely w (env_step e w)"
    using assms(1) by (simp add: sole_holder_def rely_env_step)
  ultimately show ?thesis
    using assms(1) paths_env_step [of e p w]
    by (auto simp: sole_holder_def names_path_iff rely_def)
qed

lemma sole_holder_run: "sole_holder p f w \<Longrightarrow> polite_run p es w \<Longrightarrow> sole_holder p f (fold env_step es w)"
  by (induction es arbitrary: w) (simp_all add: sole_holder_step)

text \<open>
  C5: From a successful exclusive \<^verbatim>\<open>TemporaryFileLock.acquire\<close> on POSIX on, as long as the other
  processes follow the protocol, the path keeps naming the locked file and no other handle whose
  file is the one at the path has any lock: two processes are never both holders of the path.
\<close>

theorem temp_lock_exclusive:
  assumes "wf_world w" "flock_world w" "fl_fh l = None" "\<not> fl_raise l"
    and "lmode_of (fl_flags l AND NOT 4) = Some Ex"
    and "temp_acquire t ci fwl (l, w) = (Done f, (l', w'))"
    and "polite_run (fl_filename l) es w'"
  shows "names_path (fl_filename l) f (fold env_step es w') \<and>
    (\<forall>g. g \<noteq> f \<longrightarrow> names_path (fl_filename l) g (fold env_step es w') \<longrightarrow>
       flocks (fold env_step es w') g = None)"
proof -
  have "sole_holder (fl_filename l) f w'"
    using temp_acquire_holding [OF assms(1-6)] unfolding flock_locker.holding_def
    by (simp add: sole_holder_def)
  from sole_holder_run [OF this assms(7)] sole_holder_excludes show ?thesis
    by (auto simp: sole_holder_def)
qed


end
