(* ===== verification/PidFile.thy ===== *)
theory PidFile
  imports TempFileLock
begin

text \<open>
  The class \<^verbatim>\<open>PidFileLock\<close> of \<^verbatim>\<open>utils.py\<close> and its fail-closed context: a PID file, and a sidecar
  lock file that carries the lock. The sidecar is a \<^verbatim>\<open>Lock\<close> object of its own, held in the
  attribute \<^verbatim>\<open>_inner_lock\<close>.
\<close>

section \<open>Numbers as text\<close>

text \<open>\<^verbatim>\<open>str(n)\<close> of a process id.\<close>

definition digit_char :: "nat \<Rightarrow> char" where
  "digit_char d = char_of (48 + d)"

fun decimal :: "nat \<Rightarrow> string" where
  "decimal n = (if n < 10 then [digit_char n] else decimal (n div 10) @ [digit_char (n mod 10)])"

declare decimal.simps [simp del]

text \<open>
  \<^verbatim>\<open>int(text)\<close>: surrounding white space, a sign, digits with single underscores between them;
  \<open>None\<close> is the \<^verbatim>\<open>ValueError\<close>.
\<close>

definition is_digit :: "char \<Rightarrow> bool" where
  "is_digit c \<longleftrightarrow> (let n = (of_char c :: nat) in 48 \<le> n \<and> n \<le> 57)"

definition digit_value :: "char \<Rightarrow> nat" where
  "digit_value c = of_char c - 48"

fun int_tail :: "nat \<Rightarrow> string \<Rightarrow> nat option" where
  "int_tail a [] = Some a"
| "int_tail a (c # s) =
     (if is_digit c then int_tail (10 * a + digit_value c) s
      else if c = CHR ''_'' then (case s of
          [] \<Rightarrow> None
        | d # s' \<Rightarrow> if is_digit d then int_tail (10 * a + digit_value d) s' else None)
      else None)"

definition int_digits :: "string \<Rightarrow> nat option" where
  "int_digits s = (case s of
      [] \<Rightarrow> None
    | c # s' \<Rightarrow> if is_digit c then int_tail (digit_value c) s' else None)"

definition py_int :: "string \<Rightarrow> int option" where
  "py_int s = (case py_strip s of
      [] \<Rightarrow> None
    | c # s' \<Rightarrow>
        if c = CHR ''-'' then map_option (\<lambda>n. - int n) (int_digits s')
        else if c = CHR ''+'' then map_option int (int_digits s')
        else map_option int (int_digits (c # s')))"

section \<open>The object\<close>

record pidlock = flock +
  pl_acquired :: bool
  pl_lockfile :: path
  pl_inner :: "flock option"

definition pidlock_init ::
  "path \<Rightarrow> time \<Rightarrow> time \<Rightarrow> bool \<Rightarrow> int \<Rightarrow> ('l \<times> world, pidlock) act" where
  "pidlock_init filename timeout check_interval fwl flags =
     andthen (temp_init filename timeout check_interval fwl flags)
       (\<lambda>l. ret (flock.extend l (pidlock.fields False (fl_filename l @ ''.lock'') None)))"

section \<open>Publishing the PID\<close>

definition write_pid_body :: "fd \<Rightarrow> ('l \<times> world, unit) act" where
  "write_pid_body f =
     andthen (fh_seek f 0) (\<lambda>_.
     andthen (fh_truncate f 0) (\<lambda>_.
     andthen (env_get mypid) (\<lambda>pid.
     andthen (fh_write f (decimal pid)) (\<lambda>_.
     andthen (fh_flush f) (\<lambda>_.
       try_except (andthen (py_fileno f) os_fsync)
         (\<lambda>error. case exn_class error of
            COSError n \<Rightarrow> if n \<notin> {EINVAL, ENOTSUP} then throw error else ret ()
          | _ \<Rightarrow> throw error))))))"

definition write_pid :: "('z pidlock_scheme \<times> world, unit) act" where
  "write_pid = andthen self (\<lambda>sf. andthen (sys_open (fl_filename sf) ''a+'') (\<lambda>f.
     try_else (write_pid_body f)
       (\<lambda>error. if is_Exception (exn_class error) then
            try_else (fh_close f)
              (\<lambda>close_error. if is_Exception (exn_class close_error)
                 then throw (set_cause error close_error) else throw close_error)
              (\<lambda>_. throw error)
          else throw error)
       (\<lambda>_. fh_close f)))"

section \<open>Acquiring\<close>

text \<open>
  Calls of methods of the sidecar object. Replacing the last reference to a lock object
  finalizes it: CPython runs \<^verbatim>\<open>__del__\<close> at once, which releases the lock.
\<close>

definition drop_inner :: "('z pidlock_scheme \<times> world, unit) act" where
  "drop_inner = andthen self (\<lambda>sf. case pl_inner sf of
      None \<Rightarrow> ret ()
    | Some k \<Rightarrow> andthen (on_object k (lockbase_del lock_release)) (\<lambda>_. ret ()))"

definition set_inner :: "flock option \<Rightarrow> ('z pidlock_scheme \<times> world, unit) act" where
  "set_inner k = upd_self (pl_inner_update (\<lambda>_. k))"

definition new_inner_lock ::
  "bool \<Rightarrow> time option \<Rightarrow> time option \<Rightarrow> ('z pidlock_scheme \<times> world, flock) act" where
  "new_inner_lock fwl timeout check_interval = andthen self (\<lambda>sf. andthen (env_get plat) (\<lambda>p.
     lock_init (pl_lockfile sf) ''a'' (if \<not> fwl then timeout else Some 0)
       (the (coalesce None [if \<not> fwl then check_interval else Some 0, Some DEFAULT_CHECK_INTERVAL]))
       True (LOCK_METHOD p) False))"

text \<open>
  \<^verbatim>\<open>_rollback_failed_acquire\<close>, with the sidecar as it is stored in the object; the result is the
  cleanup error.
\<close>

definition rollback_failed_acquire :: "('z pidlock_scheme \<times> world, exn option) act" where
  "rollback_failed_acquire = andthen self (\<lambda>sf. case pl_inner sf of
      None \<Rightarrow> ret None
    | Some inner \<Rightarrow>
        andthen (on_object inner (catch_Exception lock_release)) (\<lambda>(r, inner').
          case r of
            Raise e \<Rightarrow> andthen (set_inner (Some inner')) (\<lambda>_. throw e)
          | Hang \<Rightarrow> hang
          | Done cleanup_error \<Rightarrow>
              andthen (case fl_fh inner' of
                  None \<Rightarrow> ret cleanup_error
                | Some f \<Rightarrow> andthen (catch_Exception (fh_close f)) (\<lambda>close_error. case close_error of
                      None \<Rightarrow> ret cleanup_error
                    | Some ce \<Rightarrow> ret (Some (case cleanup_error of
                          None \<Rightarrow> ce | Some e \<Rightarrow> set_cause e ce))))
                (\<lambda>err. andthen (upd_self (\<lambda>s. s\<lparr>pl_inner := None, pl_acquired := False\<rparr>))
                  (\<lambda>_. ret err))))"

text \<open>The loop that appends the cause of the publication error to the chain of the cleanup error.\<close>

fun append_cause :: "exn \<Rightarrow> exn \<Rightarrow> exn" where
  "append_cause (Exn c as fh se hp None cx ns) e = Exn c as fh se hp (Some e) cx ns"
| "append_cause (Exn c as fh se hp (Some ca) cx ns) e = Exn c as fh se hp (Some (append_cause ca e)) cx ns"

definition publication_error :: "exn \<Rightarrow> exn option \<Rightarrow> exn" where
  "publication_error error cleanup_error = (case cleanup_error of
      None \<Rightarrow> error
    | Some ce \<Rightarrow> set_cause error (case exn_cause error of None \<Rightarrow> ce | Some pc \<Rightarrow> append_cause ce pc))"

definition normalize_lock_error :: "exn \<Rightarrow> exn" where
  "normalize_lock_error exc =
     (if is_LockException (exn_class exc) \<and> \<not> is_AlreadyLocked (exn_class exc)
      then set_cause (AlreadyLocked (exn_args exc) None) exc else exc)"

definition pid_publish :: "('z pidlock_scheme \<times> world, fd) act" where
  "pid_publish = try_else write_pid
     (\<lambda>error. if is_Exception (exn_class error)
        then andthen rollback_failed_acquire (\<lambda>ce. throw (publication_error error ce))
        else throw error)
     (\<lambda>_. andthen (upd_self (pl_acquired_update (\<lambda>_. True))) (\<lambda>_. andthen self (\<lambda>sf.
        case Option.bind (pl_inner sf) fl_fh of
          None \<Rightarrow> throw (plain_exn CAssertionError [])
        | Some f \<Rightarrow> ret f)))"

definition pid_acquire ::
  "time option \<Rightarrow> time option \<Rightarrow> bool option \<Rightarrow> ('z pidlock_scheme \<times> world, fd) act" where
  "pid_acquire timeout check_interval fail_when_locked = andthen self (\<lambda>sf.
     let fwl = the (coalesce None [fail_when_locked, Some (lb_fail_when_locked sf)]) in
     andthen (new_inner_lock fwl timeout check_interval) (\<lambda>inner.
     andthen drop_inner (\<lambda>_.
     andthen (set_inner (Some inner)) (\<lambda>_.
     andthen (on_object inner
         (acquire_verified (pl_lockfile sf) timeout check_interval (Some fwl))) (\<lambda>(r, inner').
       case r of
         Raise exc \<Rightarrow>
           if is_Exception (exn_class exc)
           then andthen (set_inner None) (\<lambda>_. throw (normalize_lock_error exc))
           else andthen (set_inner (Some inner')) (\<lambda>_. throw exc)
       | Hang \<Rightarrow> hang
       | Done f \<Rightarrow> andthen (set_inner (Some inner')) (\<lambda>_. pid_publish))))))"

section \<open>Reading and the context managers\<close>

definition read_pid :: "('z pidlock_scheme \<times> world, int option) act" where
  "read_pid = andthen self (\<lambda>sf.
     try_except
       (andthen (os_path_exists (fl_filename sf)) (\<lambda>ex.
          if \<not> ex then ret None
          else andthen (sys_open (fl_filename sf) ''r'') (\<lambda>f.
            try_finally
              (andthen (fh_read f) (\<lambda>text.
                 let content = py_strip text in
                 if content = [] then ret None
                 else (case py_int content of
                     None \<Rightarrow> throw (plain_exn CValueError [AStr content])
                   | Some n \<Rightarrow> ret (Some n))))
              (fh_close f))))
       (\<lambda>e. if issubclass (exn_class e) CValueError \<or> is_OSError (exn_class e)
            then ret None else throw e))"

definition pid_enter :: "('z pidlock_scheme \<times> world, int option) act" where
  "pid_enter = try_else (pid_acquire None None None)
     (\<lambda>e. if is_AlreadyLocked (exn_class e) then read_pid else throw e)
     (\<lambda>_. ret None)"

text \<open>\<^verbatim>\<open>release\<close>: on POSIX both names go while the sidecar is locked, and the sidecar always after.\<close>

definition finish_inner :: "flock \<Rightarrow> ('z pidlock_scheme \<times> world, unit) act" where
  "finish_inner inner = andthen (set_inner None) (\<lambda>_.
     andthen (on_object inner (suppress is_Exception lock_release)) (\<lambda>(r, inner'). case r of
        Raise e \<Rightarrow> throw e | Hang \<Rightarrow> hang | Done _ \<Rightarrow> ret ()))"

definition pid_release :: "('z pidlock_scheme \<times> world, unit) act" where
  "pid_release = andthen self (\<lambda>sf. case pl_inner sf of
      None \<Rightarrow> ret ()
    | Some inner \<Rightarrow> andthen (env_get plat) (\<lambda>os_name.
        if os_name = NT then
          andthen (finish_inner inner) (\<lambda>_.
          andthen (suppress is_Exception (os_unlink (fl_filename sf))) (\<lambda>_.
            suppress is_Exception
              (andthen (os_path_exists (pl_lockfile sf)) (\<lambda>isfile.
                 on_cond isfile (os_unlink (pl_lockfile sf))))))
        else try_finally
          (andthen (suppress is_FileNotFoundError (os_unlink (fl_filename sf))) (\<lambda>_.
             suppress is_FileNotFoundError (os_unlink (pl_lockfile sf))))
          (finish_inner inner)))"

definition pid_exit :: "exn option \<Rightarrow> ('z pidlock_scheme \<times> world, exn option) act" where
  "pid_exit exc_value = andthen self (\<lambda>sf.
     andthen (on_cond (pl_acquired sf) (andthen pid_release (\<lambda>_.
        upd_self (pl_acquired_update (\<lambda>_. False))))) (\<lambda>_. ret exc_value))"

text \<open>\<^verbatim>\<open>_PidFileLockFailClosedContext\<close>, over the lock it wraps.\<close>

definition fail_closed_enter :: "('z pidlock_scheme \<times> world, unit) act" where
  "fail_closed_enter = try_else (pid_acquire None None None)
     (\<lambda>exc. if is_AlreadyLocked (exn_class exc)
        then andthen read_pid (\<lambda>pid. throw (set_holder_pid exc pid)) else throw exc)
     (\<lambda>_. ret ())"

definition fail_closed_exit :: "exn option \<Rightarrow> ('z pidlock_scheme \<times> world, exn option) act" where
  "fail_closed_exit exc_value = pid_exit exc_value"

end
