(* ===== verification/PidFacts.thy ===== *)
theory PidFacts
  imports PidFile
begin

text \<open>
  What \<^verbatim>\<open>PidFileLock\<close> guarantees: a failed acquire leaves no
  lock behind, every failure of the lock is \<^verbatim>\<open>AlreadyLocked\<close>, and a fail-closed block runs only
  under the lock.
\<close>

section \<open>Publishing\<close>

lemma wp_write_pid_body:
  assumes "wf_world w" "mine w f"
    and "\<And>u. touched f w u \<Longrightarrow> wf_world u \<Longrightarrow> Q () (l, u)"
    and "\<And>u e. touched f w u \<Longrightarrow> wf_world u \<Longrightarrow> lib_exn e \<Longrightarrow> E e (l, u)"
  shows "wp h (write_pid_body f) Q E (l, w)"
proof -
  define J where "J s \<longleftrightarrow> fst s = l \<and> touched f w (snd s) \<and> wf_world (snd s)" for s
  define X where "X e s \<longleftrightarrow> J s \<and> lib_exn e" for e s
  have step: "J s \<Longrightarrow> (\<And>u. wf_world u \<Longrightarrow> mine u f \<Longrightarrow>
      (\<And>v. touched f u v \<Longrightarrow> wf_world v \<Longrightarrow> J (l, v)) \<Longrightarrow>
      (\<And>v e. touched f u v \<Longrightarrow> wf_world v \<Longrightarrow> lib_exn e \<Longrightarrow> X e (l, v)) \<Longrightarrow>
      wp h m (\<lambda>_. J) X (l, u)) \<Longrightarrow> wp h m (\<lambda>_. J) X s"
    for s and m :: "('a \<times> world, unit) act"
    using assms(1,2) touched_trans touched_mine unfolding J_def X_def
    by (cases s) (metis (no_types, lifting) fst_conv snd_conv)
  have handler: "wp h (case exn_class e of
            COSError n \<Rightarrow> if n \<notin> {EINVAL, ENOTSUP} then throw e else ret ()
          | _ \<Rightarrow> throw e) (\<lambda>_. J) X s" if "J s" "lib_exn e" for e s
    using that by (cases "exn_class e") (auto simp: wp_throw wp_ret X_def)
  have sync: "wp h (try_except (andthen (py_fileno f) os_fsync)
         (\<lambda>error. case exn_class error of
            COSError n \<Rightarrow> if n \<notin> {EINVAL, ENOTSUP} then throw error else ret ()
          | _ \<Rightarrow> throw error)) (\<lambda>_. J) X s" if "J s" for s
  proof (rule step [OF that])
    fix u
    assume u: "wf_world u" "mine u f" "\<And>v. touched f u v \<Longrightarrow> wf_world v \<Longrightarrow> J (l, v)"
      "\<And>v e. touched f u v \<Longrightarrow> wf_world v \<Longrightarrow> lib_exn e \<Longrightarrow> X e (l, v)"
    show "wp h (try_except (andthen (py_fileno f) os_fsync)
         (\<lambda>error. case exn_class error of
            COSError n \<Rightarrow> if n \<notin> {EINVAL, ENOTSUP} then throw error else ret ()
          | _ \<Rightarrow> throw error)) (\<lambda>_. J) X (l, u)"
      unfolding wp_try_except wp_andthen
      by (rule wp_fileno, rule wp_fsync [OF u(1,2)]) (use u handler in auto)
  qed
  have calls: "wp h (fh_seek f n) (\<lambda>_. J) X s" "wp h (fh_truncate f n) (\<lambda>_. J) X s"
    "wp h (fh_write f t) (\<lambda>_. J) X s" "wp h (fh_flush f) (\<lambda>_. J) X s"
    "wp h (env_get mypid) (\<lambda>_. J) X s" if "J s" for s n t
    by (rule step [OF that], rule wp_seek wp_truncate wp_fh_write wp_fh_flush; assumption)+
       (use that in \<open>simp add: wp_simps split: prod.splits\<close>)
  have "J (l, w)" using assms(1,2) by (simp add: J_def touched_refl)
  have "wp h (write_pid_body f) (\<lambda>_. J) X (l, w)"
    unfolding write_pid_body_def
    by (intro wp_andthenI [where J = J] calls sync; (rule \<open>J (l, w)\<close> | assumption))
  then show ?thesis
    by (rule wp_mono) (use assms(3,4) in \<open>auto simp: J_def X_def\<close>)
qed

lemma wp_write_pid:
  assumes "wf_world w"
    and "\<And>u. own_same w u \<Longrightarrow> wf_world u \<Longrightarrow> Q () (l, u)"
    and "\<And>u e. own_same w u \<Longrightarrow> wf_world u \<Longrightarrow> lib_exn e \<Longrightarrow> E e (l, u)"
  shows "wp h write_pid Q E (l, w)"
proof -
  have close: "wp h (fh_close f) Q' E' (l, v)"
    if "rely_but f w u" "\<not> mine w f" "touched f u v" "wf_world v"
      "\<And>x. own_same w x \<Longrightarrow> wf_world x \<Longrightarrow> Q' () (l, x)"
      "\<And>x e. own_same w x \<Longrightarrow> wf_world x \<Longrightarrow> lib_exn e \<Longrightarrow> E' e (l, x)"
    for f u v Q' E'
  proof (rule wp_fh_close [OF that(4)])
    have "own_same w x" if "released f v x" for x
      using \<open>rely_but f w u\<close> \<open>\<not> mine w f\<close> \<open>touched f u v\<close> that
      unfolding released_def touched_def by (meson own_sameI rely_but_trans)
    then show "released f v x \<Longrightarrow> wf_world x \<Longrightarrow> Q' () (l, x)"
      "released f v x \<Longrightarrow> wf_world x \<Longrightarrow> lib_exn e \<Longrightarrow> E' e (l, x)" for x e
      using that(5,6) by blast+
  qed
  have lib: "lib_exn e \<Longrightarrow> is_Exception (exn_class e)" "lib_exn (set_cause e c) = lib_exn e" for e c
    by (auto simp: lib_exn_def is_OSError_def)
  show ?thesis
    unfolding write_pid_def wp_andthen wp_self prod.case
    by (rule wp_sys_open [OF assms(1)])
       (auto simp: wp_simps opened_def lib simp del: is_Exception_iff
         intro!: wp_write_pid_body close assms(2,3) rely_own_same)
qed

section \<open>Acquiring\<close>

text \<open>The sidecar lock object that \<^verbatim>\<open>acquire\<close> creates; its constructor makes no call and no warning.\<close>

lemma new_inner_lock_run:
  "\<exists>k. new_inner_lock fwl t ci (l, w) = (Done k, (l, w)) \<and> fl_fh k = None \<and> \<not> fl_raise k \<and>
     \<not> fl_truncate k \<and> fl_flags k = LOCK_METHOD (plat w) \<and> fl_filename k = pl_lockfile l"
  by (auto simp: new_inner_lock_def lock_init_def andthen_def self_def env_get_def on_cond_def
      ret_def Let_def flock.defs lockbase.defs)

lemma lmode_LOCK_METHOD: "lmode_of (LOCK_METHOD POSIX AND NOT 4) = Some Ex"
  by simp

text \<open>\<open>pid_holding\<close>: the object says it is acquired, and its sidecar holds the exclusive lock.\<close>

definition pid_holding :: "fd \<Rightarrow> world \<Rightarrow> 'z pidlock_scheme \<times> world \<Rightarrow> bool" where
  "pid_holding f w s \<longleftrightarrow> pl_acquired (fst s) \<and>
     (\<exists>k. pl_inner (fst s) = Some k \<and> fl_fh k = Some f \<and> \<not> fl_raise k) \<and>
     \<not> mine w f \<and> mine (snd s) f \<and> flocks (snd s) f = Some Ex \<and> wf_world (snd s) \<and> flock_world (snd s)"

definition pid_failed :: "world \<Rightarrow> exn \<Rightarrow> 'z pidlock_scheme \<times> world \<Rightarrow> bool" where
  "pid_failed w e s \<longleftrightarrow> wf_world (snd s) \<and> pl_inner (fst s) = None \<and>
     is_Exception (exn_class e) \<and> (is_LockException (exn_class e) \<longrightarrow> is_AlreadyLocked (exn_class e)) \<and>
     (own_same w (snd s) \<or> lib_exn e \<and> (\<exists>f. \<not> mine w f \<and> mine (snd s) f))"

lemma own_same_flock_world: "own_same w u \<Longrightarrow> flock_world w \<Longrightarrow> flock_world u"
  by (simp add: own_same_def flock_world_def)

lemma lib_exn_not_lock: "lib_exn e \<Longrightarrow> \<not> is_LockException (exn_class e)"
  by (auto dest: lib_exnD)

lemma publication_error_class [simp]: "exn_class (publication_error e ce) = exn_class e"
  by (simp add: publication_error_def split: option.splits)

lemma publication_error_lib: "lib_exn (publication_error e ce) = lib_exn e"
  by (simp add: lib_exn_def)

text \<open>The sidecar is released again when the PID cannot be written.\<close>

lemma wp_rollback:
  assumes "wf_world w" "pl_inner l = Some k" "fl_fh k = Some f" "\<not> fl_raise k"
    and "\<And>u. released f w u \<Longrightarrow> wf_world u \<Longrightarrow>
      Q None (l\<lparr>pl_inner := None, pl_acquired := False\<rparr>, u)"
  shows "wp h rollback_failed_acquire Q E (l, w)"
  unfolding rollback_failed_acquire_def wp_andthen wp_self prod.case assms(2) option.case
    wp_on_object wp_catch_Exception [of _ lock_release]
  by (rule wp_release [OF assms(1,3)]) (simp_all add: wp_simps assms(4,5))

lemma wp_pid_publish:
  assumes "wf_world u" "flock_world u" "pl_inner l = Some k" "fl_fh k = Some f" "\<not> fl_raise k"
    and "mine u f" "flocks u f = Some Ex" "\<not> mine w f" "own_but f w u"
  shows "wp h pid_publish (\<lambda>f' s. f' = f \<and> pid_holding f w s) (pid_failed w) (l, u)"
  unfolding pid_publish_def wp_try_else
proof (rule wp_write_pid [OF assms(1)])
  fix v
  assume v: "own_same u v" "wf_world v"
  have "mine v f" "flocks v f = Some Ex" using v(1) assms(6,7) by (simp_all add: own_same_def)
  then show "wp h (andthen (upd_self (pl_acquired_update (\<lambda>_. True)))
      (\<lambda>_. andthen self (\<lambda>sf. case Option.bind (pl_inner sf) fl_fh of
          None \<Rightarrow> throw (plain_exn CAssertionError []) | Some f \<Rightarrow> ret f)))
      (\<lambda>f' s. f' = f \<and> pid_holding f w s) (pid_failed w) (l, v)"
    using v assms own_same_flock_world [OF v(1) assms(2)] by (simp add: wp_simps pid_holding_def)
next
  fix v e
  assume v: "own_same u v" "wf_world v" "lib_exn e"
  have "own_same w x" if "released f v x" for x
    using own_but_released [OF own_but_same [OF assms(9) v(1)] assms(8) that] .
  then have "wp h rollback_failed_acquire
      (\<lambda>ce s. pid_failed w (publication_error e ce) s) (pid_failed w) (l, v)"
    using v lib_exn_Exception [OF v(3)] lib_exn_not_lock [OF v(3)]
    by (intro wp_rollback [OF v(2) assms(3,4,5)])
       (simp add: pid_failed_def del: is_Exception_iff is_LockException_iff)
  then show "wp h (if is_Exception (exn_class e)
      then andthen rollback_failed_acquire (\<lambda>ce. throw (publication_error e ce)) else throw e)
      (\<lambda>f' s. f' = f \<and> pid_holding f w s) (pid_failed w) (l, v)"
    using lib_exn_Exception [OF v(3)] by (simp add: wp_simps)
qed

lemma normalize_lock_error_class:
  "exn_class (normalize_lock_error e) =
     (if is_LockException (exn_class e) then CAlreadyLocked else exn_class e)"
  by (auto simp: normalize_lock_error_def)

lemma wp_pid_acquire:
  fixes l :: "'z pidlock_scheme"
  assumes "wf_world w" "flock_world w" "pl_inner l = None"
  shows "wp False (pid_acquire t ci fwl) (\<lambda>f. pid_holding f w) (pid_failed w) (l, w)"
proof -
  let ?fwl = "the (coalesce None [fwl, Some (lb_fail_when_locked l)])"
  obtain k where k: "new_inner_lock ?fwl t ci (l, w) = (Done k, (l, w))" "fl_fh k = None"
    "\<not> fl_raise k" "\<not> fl_truncate k" "fl_flags k = LOCK_METHOD (plat w)"
    using new_inner_lock_run by blast
  have posix: "plat w = POSIX" using assms(2) by (simp add: flock_world_def)
  have free: "flock_locker.vfree 6 Ex k w (k, w)"
    using flock_vfree [of w k Ex] assms(1,2) k posix by simp
  let ?l = "pl_inner_update (\<lambda>_. Some k) l"
  define K :: "fd res \<times> flock \<Rightarrow> ('z pidlock_scheme \<times> world, fd) act" where "K = (\<lambda>(r, inner'). case r of
         Raise exc \<Rightarrow>
           if is_Exception (exn_class exc)
           then andthen (set_inner None) (\<lambda>_. throw (normalize_lock_error exc))
           else andthen (set_inner (Some inner')) (\<lambda>_. throw exc)
       | Hang \<Rightarrow> hang
       | Done f \<Rightarrow> andthen (set_inner (Some inner')) (\<lambda>_. pid_publish))"
  have ok: "wp False (K (Done f, fst s)) (\<lambda>f. pid_holding f w) (pid_failed w) (?l, snd s)"
    if "flock_locker.holding 6 Ex f k w s" for f s
  proof -
    from that have u: "fst s = k\<lparr>fl_fh := Some f\<rparr>" "wf_world (snd s)" "flock_world (snd s)"
      "\<not> mine w f" "mine (snd s) f" "flocks (snd s) f = Some Ex" "own_but f w (snd s)"
      unfolding flock_locker.holding_def by auto
    have "wp False pid_publish (\<lambda>f' s. f' = f \<and> pid_holding f w s) (pid_failed w)
        (pl_inner_update (\<lambda>_. Some (fst s)) l, snd s)"
      by (rule wp_pid_publish [where k = "fst s", OF u(2,3) _ _ _ u(5,6,4,7)])
         (use u(1) k(3) in simp_all)
    then show ?thesis
      by (auto simp: K_def set_inner_def wp_simps elim!: wp_mono)
  qed
  have bad: "wp False (K (Raise e, fst s)) (\<lambda>f. pid_holding f w) (pid_failed w) (?l, snd s)"
    if "flock_locker.vraises 6 Ex k w e s" for e s
  proof -
    from that have u: "wf_world (snd s)" "is_Exception (exn_class e)"
      "own_same w (snd s) \<or> lib_exn e \<and> (\<exists>f. \<not> mine w f \<and> mine (snd s) f)"
      unfolding flock_locker.vraises_def flock_locker.holding_def using k(4) by auto
    have "\<not> is_LockException (exn_class e) \<Longrightarrow> normalize_lock_error e = e"
      by (simp add: normalize_lock_error_def)
    with u show ?thesis
      using lib_exn_not_lock [of e]
      by (auto simp: K_def set_inner_def wp_simps pid_failed_def normalize_lock_error_class)
  qed
  have "wp False (acquire_verified (pl_lockfile l) t ci (Some ?fwl))
     (\<lambda>f. flock_locker.holding 6 Ex f k w) (flock_locker.vraises 6 Ex k w) (k, w)"
    by (rule wp_mono [OF flock_locker.verified_wp [OF free]]) (simp_all add: has_flag_def)
  then have "wp False (on_object k (acquire_verified (pl_lockfile l) t ci (Some ?fwl)))
     (\<lambda>x. wp False (K x) (\<lambda>f. pid_holding f w) (pid_failed w)) (pid_failed w) (?l, w)"
    unfolding wp_on_object prod.case
  proof (rule wp_mono)
    show "flock_locker.holding 6 Ex f k w s \<Longrightarrow> case s of (k', u) \<Rightarrow>
        wp False (K (Done f, k')) (\<lambda>f. pid_holding f w) (pid_failed w) (?l, u)" for f s
      using ok [of f s] by (cases s) simp
    show "flock_locker.vraises 6 Ex k w e s \<Longrightarrow> case s of (k', u) \<Rightarrow>
        wp False (K (Raise e, k')) (\<lambda>f. pid_holding f w) (pid_failed w) (?l, u)" for e s
      using bad [of e s] by (cases s) simp
  qed simp
  then have "wp False (andthen (on_object k (acquire_verified (pl_lockfile l) t ci (Some ?fwl))) K)
     (\<lambda>f. pid_holding f w) (pid_failed w) (?l, w)"
    unfolding wp_andthen [of _ "on_object k _"] .
  moreover have "pid_acquire t ci fwl (l, w) =
      andthen (on_object k (acquire_verified (pl_lockfile l) t ci (Some ?fwl))) K (?l, w)"
    using k(1) assms(3)
    by (simp add: pid_acquire_def Let_def andthen_def self_def drop_inner_def set_inner_def
        upd_self_def ret_def K_def split: prod.split res.split)
  ultimately show ?thesis by (simp add: wp_def)
qed

section \<open>Releasing\<close>

lemma wp_finish_inner:
  assumes "wf_world w" "pl_inner l = Some k"
    and "\<And>u. wf_world u \<Longrightarrow> (case fl_fh k of None \<Rightarrow> own_same w u | Some f \<Rightarrow> released f w u) \<Longrightarrow>
      Q () (pl_inner_update (\<lambda>_. None) l, u)"
  shows "wp h (finish_inner k) Q E (l, w)"
proof -
  have fin: "wp h (suppress is_Exception lock_release)
      (\<lambda>_ s. Q () (pl_inner_update (\<lambda>_. None) l, snd s)) (\<lambda>_ _. False) (k, w)"
  proof (cases "fl_fh k")
    case None
    with assms(1) assms(3) [of w] show ?thesis by (simp add: lock_release_def wp_simps own_same_def)
  next
    case (Some f)
    show ?thesis
      unfolding wp_suppress
      by (rule wp_release [OF assms(1) Some]) (use assms(3) Some in auto)
  qed
  show ?thesis
    unfolding finish_inner_def wp_andthen set_inner_def wp_upd_self prod.case wp_on_object
    by (rule wp_mono [OF fin]) (auto simp: wp_simps)
qed

lemma released_rely: "rely w v \<Longrightarrow> released f v u \<Longrightarrow> released f w u"
  unfolding released_def by (meson rely_rely_but rely_but_trans)

lemma wp_pid_release_posix:
  assumes "wf_world w" "plat w = POSIX" "pl_inner l = Some k" "fl_fh k = Some f"
    and "\<And>u. released f w u \<Longrightarrow> wf_world u \<Longrightarrow> Q () (pl_inner_update (\<lambda>_. None) l, u)"
    and "\<And>u e. released f w u \<Longrightarrow> wf_world u \<Longrightarrow> is_Exception (exn_class e) \<Longrightarrow>
      E e (pl_inner_update (\<lambda>_. None) l, u)"
  shows "wp h pid_release Q E (l, w)"
proof -
  define J where "J s \<longleftrightarrow> fst s = l \<and> rely w (snd s) \<and> wf_world (snd s)" for s
  have un: "wp h (suppress is_FileNotFoundError (os_unlink p)) (\<lambda>_. J)
      (\<lambda>e s. J s \<and> lib_exn e) s" if "J s" for p s
  proof -
    obtain u where s: "s = (l, u)" "rely w u" "wf_world u"
      using \<open>J s\<close> by (cases s) (auto simp: J_def)
    have "J (l, v)" if "rely u v" "wf_world v" for v
      using rely_trans [OF s(2)] that by (simp add: J_def)
    then show ?thesis
      unfolding s(1) wp_suppress by (intro wp_unlink [OF s(3)]) (auto simp: if_apply)
  qed
  have both: "wp h (andthen (suppress is_FileNotFoundError (os_unlink p)) (\<lambda>_.
      suppress is_FileNotFoundError (os_unlink q))) (\<lambda>_. J) (\<lambda>e s. J s \<and> lib_exn e) (l, w)" for p q
    by (rule wp_andthenI [OF un un]) (use assms(1) in \<open>simp add: J_def rely_refl\<close>)
  have fin: "wp h (finish_inner k) Q' E s"
    if "J s" "\<And>u. released f w u \<Longrightarrow> wf_world u \<Longrightarrow> Q' () (pl_inner_update (\<lambda>_. None) l, u)" for s Q'
  proof -
    obtain u where s: "s = (l, u)" "rely w u" "wf_world u"
      using \<open>J s\<close> by (cases s) (auto simp: J_def)
    show ?thesis
      unfolding s(1)
      by (rule wp_finish_inner [OF s(3) assms(3)])
         (use that(2) assms(4) released_rely [OF s(2)] in simp)
  qed
  show ?thesis
    unfolding pid_release_def wp_andthen [of _ self] wp_andthen [of _ "env_get _"] wp_self
      wp_env_get prod.case assms(3) option.case
    using assms(2)
    by (simp add: wp_try_finally, intro wp_mono [OF both])
       (use fin assms(5,6) lib_exn_Exception in \<open>auto simp del: is_Exception_iff\<close>)
qed

section \<open>Properties\<close>

text \<open>
  C28: A successful \<^verbatim>\<open>PidFileLock.acquire\<close>, under every interleaving: the object is marked as
  acquired, and its sidecar holds an exclusive lock through a new handle when the call returns.
\<close>

theorem pid_acquire_success:
  assumes "wf_world w" "flock_world w" "pl_inner l = None"
    and "pid_acquire t ci fwl (l, w) = (Done f, (l', w'))"
  shows "pid_holding f w (l', w')"
  using wp_DoneD [OF wp_pid_acquire [OF assms(1-3)] assms(4)] .

text \<open>
  C9: A failing \<^verbatim>\<open>PidFileLock.acquire\<close>: the object forgets its sidecar, every failure of locking
  is an \<^verbatim>\<open>AlreadyLocked\<close>, and no handle and no lock is left behind; a failure to write the PID
  file rolls the sidecar back. The one exception is an error of the \<^verbatim>\<open>stat\<close> calls that verify the
  path, which leaves the locked handle open until the sidecar object is finalized.
\<close>

theorem pid_acquire_failure:
  assumes "wf_world w" "flock_world w" "pl_inner l = None"
    and "pid_acquire t ci fwl (l, w) = (Raise e, (l', w'))"
  shows "pl_inner l' = None \<and>
    (is_LockException (exn_class e) \<longrightarrow> is_AlreadyLocked (exn_class e) \<and> own_same w w') \<and>
    (own_same w w' \<or> lib_exn e)"
  using wp_RaiseD [OF wp_pid_acquire [OF assms(1-3)] assms(4)] lib_exn_not_lock [of e]
  by (auto simp: pid_failed_def)

text \<open>
  C29: The fail-closed context enters its block only while this process owns the lock.
\<close>

theorem fail_closed_block_owns_lock:
  assumes "wf_world w" "flock_world w" "pl_inner l = None"
    and "fail_closed_enter (l, w) = (Done (), (l', w'))"
  shows "\<exists>f. pid_holding f w (l', w')"
proof -
  have "wp True fail_closed_enter (\<lambda>_ s. \<exists>f. pid_holding f w s) (\<lambda>_ _. True) (l, w)"
    unfolding fail_closed_enter_def wp_try_else
    by (rule wp_mono [OF wp_pid_acquire [OF assms(1-3)]])
       (auto simp: wp_simps intro: wpI split: if_splits)
  from wp_DoneD [OF this assms(4)] show ?thesis by simp
qed

text \<open>
  \<^verbatim>\<open>PidFileLock.release\<close> on POSIX always gives the sidecar lock up, also when an unlink
  fails, and does nothing when the object does not hold the sidecar, so a stale object cannot
  remove the files of another holder.
\<close>

lemma pid_release_gives_up_lock:
  assumes "wf_world w" "plat w = POSIX" "pid_release (l, w) = (r, (l', w'))"
  shows "case pl_inner l of
      None \<Rightarrow> r = Done () \<and> l' = l \<and> w' = w
    | Some k \<Rightarrow> (\<forall>f. fl_fh k = Some f \<longrightarrow> r \<noteq> Hang \<and> pl_inner l' = None \<and> \<not> mine w' f \<and>
        (\<forall>g. g \<noteq> f \<longrightarrow> mine w g \<longrightarrow> handles w' g = handles w g \<and> flocks w' g = flocks w g))"
proof (cases "pl_inner l")
  case None
  with assms(3) show ?thesis by (auto simp: pid_release_def andthen_def self_def ret_def)
next
  case (Some k)
  have "r \<noteq> Hang \<and> pl_inner l' = None \<and> released f w w'" if f: "fl_fh k = Some f" for f
  proof -
    have "wp False pid_release
        (\<lambda>_ s. pl_inner (fst s) = None \<and> released f w (snd s))
        (\<lambda>_ s. pl_inner (fst s) = None \<and> released f w (snd s)) (l, w)"
      by (rule wp_pid_release_posix [OF assms(1,2) Some f]) auto
    with assms(3) show ?thesis by (cases r) (auto simp: wp_def)
  qed
  with Some show ?thesis by (auto simp: released_def rely_but_def)
qed

text \<open>
  The retry settings and the flags that the constructor of \<^verbatim>\<open>PidFileLock\<close> takes do not reach
  the lock: whatever the object was built with, an acquire without arguments that is meant to wait
  creates its sidecar with the module's default timeout, check interval and flags.
\<close>

lemma pid_lock_ignores_constructor_settings:
  "\<exists>k. new_inner_lock False None None (l, w) = (Done k, (l, w)) \<and>
     lb_timeout k = DEFAULT_TIMEOUT \<and> lb_check_interval k = DEFAULT_CHECK_INTERVAL \<and>
     fl_flags k = LOCK_METHOD (plat w)"
  by (auto simp: new_inner_lock_def lock_init_def andthen_def self_def env_get_def on_cond_def
      ret_def Let_def lockbase_init_def flock.defs lockbase.defs)

end
