(* ===== verification/PidText.thy ===== *)
theory PidText
  imports PidFile
begin

text \<open>
  The PID as text: \<^verbatim>\<open>str\<close>, \<^verbatim>\<open>strip\<close> and \<^verbatim>\<open>int\<close> on a process id.
\<close>

section \<open>Numbers\<close>

lemma of_char_digit: "d < 10 \<Longrightarrow> of_char (digit_char d) = 48 + d"
  by (simp add: digit_char_def)

lemma digit_char_simps:
  assumes "d < 10"
  shows "is_digit (digit_char d)" "digit_value (digit_char d) = d" "\<not> py_space (digit_char d)"
  using assms by (simp_all add: is_digit_def digit_value_def py_space_def Let_def of_char_digit)

lemma decimal_digits: "c \<in> set (decimal n) \<Longrightarrow> \<exists>d<10. c = digit_char d"
proof (induction n rule: decimal.induct)
  case (1 n)
  have "\<exists>d<10. digit_char (n mod 10) = digit_char d" by (rule exI [of _ "n mod 10"]) simp
  with 1 show ?case
    by (subst (asm) (2) decimal.simps) (auto split: if_splits)
qed

lemma decimal_nonempty: "decimal n \<noteq> []"
  by (subst decimal.simps) simp

lemma int_tail_append:
  assumes "\<forall>c \<in> set s. is_digit c" "d < 10"
  shows "int_tail a (s @ [digit_char d]) = map_option (\<lambda>x. 10 * x + d) (int_tail a s)"
  using assms by (induction s arbitrary: a) (simp_all add: digit_char_simps)

lemma int_digits_append:
  assumes "\<forall>c \<in> set s. is_digit c" "s \<noteq> []" "d < 10"
  shows "int_digits (s @ [digit_char d]) = map_option (\<lambda>x. 10 * x + d) (int_digits s)"
  using assms by (cases s) (simp_all add: int_digits_def int_tail_append)

lemma int_digits_decimal: "int_digits (decimal n) = Some n"
proof (induction n rule: decimal.induct)
  case (1 n)
  show ?case
  proof (cases "n < 10")
    case True
    then show ?thesis by (subst decimal.simps) (simp add: int_digits_def digit_char_simps)
  next
    case False
    have "\<forall>c \<in> set (decimal (n div 10)). is_digit c"
      using decimal_digits digit_char_simps(1) by blast
    with 1 False show ?thesis
      by (subst decimal.simps) (simp add: int_digits_append decimal_nonempty)
  qed
qed

lemma py_strip_digits:
  assumes "\<forall>c \<in> set s. \<not> py_space c"
  shows "py_strip s = s"
proof -
  have "dropWhile py_space t = t" if "set t \<subseteq> set s" for t
    using that assms by (cases t) auto
  from this [of s] this [of "rev s"] show ?thesis by (simp add: py_strip_def)
qed

lemma py_strip_decimal: "py_strip (decimal n) = decimal n"
  by (rule py_strip_digits) (use decimal_digits digit_char_simps in blast)

text \<open>\<^verbatim>\<open>int(str(n))\<close>, with the stripping of \<^verbatim>\<open>read_pid\<close>, is \<^verbatim>\<open>n\<close>.\<close>

lemma pid_text_reads: "py_int (decimal n) = Some (int n)"
proof -
  obtain c s where d: "decimal n = c # s" using decimal_nonempty by (cases "decimal n") auto
  obtain k where k: "k < 10" "c = digit_char k" using decimal_digits [of c n] d by auto
  have "c \<noteq> CHR ''-''" "c \<noteq> CHR ''+''"
    using k of_char_digit [OF k(1)] by (auto simp del: of_char_digit)
  with d show ?thesis
    using int_digits_decimal [of n] by (simp add: py_int_def py_strip_decimal [of n, unfolded d])
qed

end
