(* ===== verification/PidRoundtrip.thy ===== *)
theory PidRoundtrip
  imports PidText
begin

text \<open>
  The PID file when no other process interferes and no call fails: what is published is what is
  read back.
\<close>

lemma pop_quiet: "tape w = [] \<Longrightarrow> pop w = (None, w)"
  by (simp add: pop_def)

text \<open>
  The world while \<^verbatim>\<open>_write_pid\<close> runs: the handle \<open>f\<close> appends to the inode \<open>i\<close>, \<open>b\<close> is buffered
  and \<open>c\<close> is in the file; the names, the process and the lock object are fixed.
\<close>

definition publishing ::
  "'l \<Rightarrow> (path \<rightharpoonup> ino) \<Rightarrow> pid \<Rightarrow> fd \<Rightarrow> ino \<Rightarrow> string \<Rightarrow> string \<Rightarrow> 'l \<times> world \<Rightarrow> bool" where
  "publishing l names me f i b c = (\<lambda>(l', w). l' = l \<and> tape w = [] \<and> paths w = names \<and>
     mypid w = me \<and> content w i = c \<and> (\<exists>h. handles w f = Some h \<and> h_ino h = i \<and>
     h_owner h = me \<and> h_writable h \<and> h_append h \<and> h_buf h = b))"

lemmas quiet_defs = publishing_def pop_quiet syscall_def on_handle_def own_handle_def mine_def wp_def

lemma publishing_open:
  assumes "tape w = []"
  shows "\<exists>names i c w'. sys_open p ''a+'' (l, w) = (Done (next_fd w), (l, w')) \<and>
    names p = Some i \<and> publishing l names (mypid w) (next_fd w) i [] c (l, w')"
proof -
  have "parse_mode ''a+'' = Some (OpenAppend, True)" by (simp add: parse_mode_def)
  with assms show ?thesis
    by (cases "paths w p")
       (auto simp: sys_open_def k_open_def add_handle_def create_file_def
         new_handle_def quiet_defs)
qed

lemma publishing_seek:
  "publishing l names me f i [] c s \<Longrightarrow>
   wp False (fh_seek f n) (\<lambda>_. publishing l names me f i [] c) (\<lambda>_ _. False) s"
  by (cases s) (auto simp: fh_seek_def set_pos_def k_flush_def quiet_defs)

lemma publishing_truncate:
  "publishing l names me f i [] c s \<Longrightarrow>
   wp False (fh_truncate f 0) (\<lambda>_. publishing l names me f i [] []) (\<lambda>_ _. False) s"
  by (cases s) (auto simp: fh_truncate_def k_flush_def quiet_defs Let_def)

lemma publishing_pid:
  "publishing l names me f i b c s \<Longrightarrow>
   wp False (env_get mypid) (\<lambda>p t. p = me \<and> publishing l names me f i b c t) (\<lambda>_ _. False) s"
  by (cases s) (auto simp: env_get_def quiet_defs)

lemma publishing_write:
  "publishing l names me f i [] c s \<Longrightarrow>
   wp False (fh_write f t) (\<lambda>_. publishing l names me f i t c) (\<lambda>_ _. False) s"
  by (cases s) (auto simp: fh_write_def quiet_defs)

lemma publishing_flush:
  "publishing l names me f i b [] s \<Longrightarrow>
   wp False (fh_flush f) (\<lambda>_. publishing l names me f i [] b) (\<lambda>_ _. False) s"
  by (cases s) (auto simp: fh_flush_def k_flush_def write_at_def quiet_defs Let_def)

lemma publishing_sync:
  "publishing l names me f i b c s \<Longrightarrow>
   wp False (andthen (py_fileno f) os_fsync) (\<lambda>_. publishing l names me f i b c) (\<lambda>_ _. False) s"
  by (cases s) (auto simp: py_fileno_def os_fsync_def andthen_def quiet_defs)

lemma publishing_body:
  assumes "publishing l names me f i [] c s"
  shows "wp False (write_pid_body f) (\<lambda>_. publishing l names me f i [] (decimal me)) (\<lambda>_ _. False) s"
  unfolding write_pid_body_def
proof (rule wp_andthenI [OF publishing_seek [OF assms]], rule wp_andthenI [OF publishing_truncate],
    assumption)
  fix t assume t: "publishing l names me f i [] [] t"
  show "wp False (andthen (env_get mypid) (\<lambda>pid. andthen (fh_write f (decimal pid)) (\<lambda>_.
      andthen (fh_flush f) (\<lambda>_. try_except (andthen (py_fileno f) os_fsync)
         (\<lambda>error. case exn_class error of
            COSError n \<Rightarrow> if n \<notin> {EINVAL, ENOTSUP} then throw error else ret ()
          | _ \<Rightarrow> throw error))))) (\<lambda>_. publishing l names me f i [] (decimal me)) (\<lambda>_ _. False) t"
    unfolding wp_andthen
  proof (rule wp_mono [OF publishing_pid [OF t]], goal_cases)
    case (1 p u)
    then have "wp False (fh_write f (decimal p)) (\<lambda>_. publishing l names me f i (decimal me) [])
        (\<lambda>_ _. False) u"
      using publishing_write [of l names me f i "[]" u "decimal p"] by simp
    then show ?case
    proof (rule wp_mono, goal_cases)
      case (1 x v)
      show ?case
        by (rule wp_mono [OF publishing_flush [OF 1]])
           (auto simp: wp_try_except intro: wp_mono [OF publishing_sync])
    qed auto
  qed auto
qed

lemma publishing_close:
  "publishing l names me f i [] c s \<Longrightarrow>
   wp False (fh_close f) (\<lambda>_ (l', w). l' = l \<and> tape w = [] \<and> paths w = names \<and> content w i = c)
     (\<lambda>_ _. False) s"
  by (cases s) (clarsimp simp: fh_close_def k_flush_def drop_handle_def quiet_defs)

lemma write_pid_quiet:
  assumes "tape w = []"
  shows "wp False write_pid
    (\<lambda>_ (l', w'). l' = l \<and> tape w' = [] \<and>
       (\<exists>i. paths w' (fl_filename l) = Some i \<and> content w' i = decimal (mypid w)))
    (\<lambda>_ _. False) (l, w)"
proof -
  obtain names i c w' where o: "sys_open (fl_filename l) ''a+'' (l, w) = (Done (next_fd w), (l, w'))"
    "names (fl_filename l) = Some i" "publishing l names (mypid w) (next_fd w) i [] c (l, w')"
    using publishing_open [OF assms, of "fl_filename l" l] by (elim exE conjE) (rule that)
  have "wp False (try_else (write_pid_body (next_fd w))
       (\<lambda>error. if is_Exception (exn_class error) then
            try_else (fh_close (next_fd w))
              (\<lambda>close_error. if is_Exception (exn_class close_error)
                 then throw (set_cause error close_error) else throw close_error)
              (\<lambda>_. throw error)
          else throw error)
       (\<lambda>_. fh_close (next_fd w)))
    (\<lambda>_ (l', w'). l' = l \<and> tape w' = [] \<and>
       (\<exists>i. paths w' (fl_filename l) = Some i \<and> content w' i = decimal (mypid w)))
    (\<lambda>_ _. False) (l, w')"
    unfolding wp_try_else [of _ "write_pid_body _"]
    by (rule wp_mono [OF publishing_body [OF o(3)]])
       (use o(2) in \<open>auto intro!: wp_mono [OF publishing_close]\<close>)
  with o(1) show ?thesis
    by (simp add: write_pid_def wp_def andthen_def self_def)
qed

text \<open>The other side: a file that holds a number.\<close>

lemma read_open_quiet:
  assumes "tape w = []" "paths w p = Some i"
  shows "sys_open p ''r'' (l, w) =
    (Done (next_fd w), (l, add_handle (new_handle (mypid w) i OpenRead False) w))"
  using assms by (simp add: sys_open_def syscall_def pop_quiet k_open_def parse_mode_def)

lemma read_body_quiet:
  assumes "tape w = []" "content w i = decimal n"
  shows "wp False (fh_read (next_fd w)) (\<lambda>text (l', w'). text = decimal n \<and> tape w' = [])
    (\<lambda>_ _. False) (l, add_handle (new_handle (mypid w) i OpenRead False) w)"
  using assms
  by (simp add: fh_read_def quiet_defs set_pos_def add_handle_def new_handle_def)

lemma close_quiet:
  "tape w = [] \<Longrightarrow> wp False (fh_close f) (\<lambda>_ (l', w). tape w = []) (\<lambda>_ _. False) (l, w)"
  by (auto simp: fh_close_def quiet_defs k_flush_def drop_handle_def Let_def split: option.splits)

lemma read_pid_quiet:
  fixes l :: "'z pidlock_scheme"
  assumes "tape w = []" "paths w (fl_filename l) = Some i" "content w i = decimal n"
  shows "fst (read_pid (l, w)) = Done (Some (int n))"
proof -
  let ?f = "next_fd w" and ?w1 = "add_handle (new_handle (mypid w) i OpenRead False) w"
  define bdy :: "fd \<Rightarrow> ('z pidlock_scheme \<times> world, int option) act" where
    "bdy = (\<lambda>f. andthen (fh_read f) (\<lambda>text.
       let content = py_strip text in
       if content = [] then ret None
       else (case py_int content of
           None \<Rightarrow> throw (plain_exn CValueError [AStr content])
         | Some n \<Rightarrow> ret (Some n))))"
  have b: "wp False (bdy ?f) (\<lambda>r (l', w'). r = Some (int n) \<and> tape w' = []) (\<lambda>_ _. False) (l, ?w1)"
    unfolding bdy_def wp_andthen
    by (rule wp_mono [OF read_body_quiet [OF assms(1,3)]])
       (auto simp: py_strip_decimal decimal_nonempty pid_text_reads wp_simps)
  have "wp False (try_finally (bdy ?f) (fh_close ?f)) (\<lambda>r _. r = Some (int n)) (\<lambda>_ _. False) (l, ?w1)"
    unfolding wp_try_finally
    by (rule wp_mono [OF b]) (auto intro: wp_mono [OF close_quiet])
  then obtain t where t: "try_finally (bdy ?f) (fh_close ?f) (l, ?w1) = (Done (Some (int n)), t)"
    by (auto simp: wp_def split: prod.splits res.splits)
  have op: "sys_open (fl_filename l) ''r'' (l, w) = (Done ?f, (l, ?w1))"
    by (rule read_open_quiet) (rule assms)+
  have ex: "os_path_exists (fl_filename l) (l, w) = (Done True, (l, w))"
    using assms by (simp add: os_path_exists_def pop_quiet)
  have sf: "self (l, w) = (Done l, (l, w))" by (simp add: self_def)
  have "read_pid (l, w) = (Done (Some (int n)), t)"
    unfolding read_pid_def
    by (rule andthen_Done, rule sf, rule try_except_Done, rule andthen_Done, rule ex,
        unfold not_True_eq_False if_False, rule andthen_Done, rule op, rule t [unfolded bdy_def])
  then show ?thesis by simp
qed

text \<open>
  C12: The published PID is the one that is read back: on a quiet system \<^verbatim>\<open>_write_pid\<close> succeeds,
  whatever the PID file held before, and \<^verbatim>\<open>read_pid\<close> then returns this process's id.
\<close>

theorem pid_file_roundtrip:
  assumes "tape w = []"
  shows "fst (andthen write_pid (\<lambda>_. read_pid) (l, w)) = Done (Some (int (mypid w)))"
proof -
  have "wp False (andthen write_pid (\<lambda>_. read_pid)) (\<lambda>r _. r = Some (int (mypid w))) (\<lambda>_ _. False) (l, w)"
    unfolding wp_andthen
    by (rule wp_mono [OF write_pid_quiet [OF assms]])
       (auto simp: wp_def dest!: read_pid_quiet split: prod.splits res.splits)
  then show ?thesis by (auto simp: wp_def split: prod.splits res.splits)
qed

end
