(* ===== verification/Witnesses.thy ===== *)
theory Witnesses
  imports MutualExclusion ReentrantLock PidFacts PidRoundtrip
begin

text \<open>
  The properties of the file locks applied at concrete inputs: small worlds, lock objects and
  tapes on which the hypotheses hold, with the runs evaluated in the kernel.
\<close>

section \<open>Evaluation\<close>

text \<open>
  For evaluation: the first round of a retry loop, and the later rounds only when they are needed.
\<close>

definition retry_rest ::
  "'z lockbase_scheme \<Rightarrow> time option \<Rightarrow> time option \<Rightarrow> (nat \<Rightarrow> 'a \<Rightarrow> ('l \<times> world, ('a, 'b) flow) act)
    \<Rightarrow> 'a \<Rightarrow> ('l \<times> world, ('a, 'b) flow) act" where
  "retry_rest sf t ci body a =
     for_gen (attempt_bound (effective_timeout sf t) + 1) (timeout_generator sf t ci) GenFirst a body"

declare retry_rest_def [code del]

lemma retry_rest_code [code]:
  "retry_rest sf t ci body a s =
     for_gen (attempt_bound (effective_timeout sf t) + 1) (timeout_generator sf t ci) GenFirst a body s"
  by (simp add: retry_rest_def)

lemma retry_loop_code [code]:
  "retry_loop sf t ci a body = andthen (body 0 a) (\<lambda>r. case r of
        Leave b \<Rightarrow> ret (Leave b)
      | Cont a' \<Rightarrow> retry_rest sf t ci body a')"
proof -
  have "attempt_bound (effective_timeout sf t) + 2 = Suc (attempt_bound (effective_timeout sf t) + 1)"
    by simp
  then show ?thesis
    by (simp only: retry_loop_def retry_rest_def for_gen.simps(2) timeout_generator.simps(1)
        andthen_ret option.case prod.case)
qed

section \<open>Example objects and worlds\<close>

definition demo_world :: world where
  "demo_world = init_world POSIX 1"

definition demo_lock :: flock where
  "demo_lock =
     \<lparr> lb_timeout = 0, lb_check_interval = 1 / 4, lb_fail_when_locked = False,
       fl_fh = None, fl_filename = ''f'', fl_mode = ''a'', fl_truncate = False, fl_flags = 6,
       fl_raise = False \<rparr>"

text \<open>Another process holds an exclusive lock on the file.\<close>

definition busy_cell :: cell where
  "busy_cell = \<lparr> c_env = [EvOpen 2 ''f'', EvFlock 0 Ex], c_fault = None, c_win = (\<lambda>_. None) \<rparr>"

definition busy_world :: world where
  "busy_world = demo_world\<lparr>tape := [busy_cell]\<rparr>"

lemma wf_demo [simp]: "wf_world demo_world" "wf_world busy_world"
  by (simp_all add: demo_world_def busy_world_def wf_world_init)

lemma flock_demo [simp]: "flock_world demo_world" "flock_world busy_world"
  by (simp_all add: demo_world_def busy_world_def flock_world_def init_world_def)

lemma plat_demo [simp]: "plat demo_world = POSIX" "tape demo_world = []" "mypid demo_world = 1"
  by (simp_all add: demo_world_def init_world_def)

lemma demo_lock_simps [simp]:
  "fl_fh demo_lock = None" "fl_flags demo_lock = 6" "fl_truncate demo_lock = False"
  "fl_raise demo_lock = False" "fl_filename demo_lock = ''f''"
  by (simp_all add: demo_lock_def)

lemma run_split: "fst x = r \<Longrightarrow> x = (r, (fst (snd x), snd (snd x)))"
  by auto

text \<open>A lock that is held.\<close>

definition held_state :: "flock \<times> world" where
  "held_state = snd (lock_acquire None None None (demo_lock, demo_world))"

lemma held_state_simps [simp]:
  "fl_fh (fst held_state) = Some 0" "mine (snd held_state) 0" "wf_world (snd held_state)"
  "fl_raise (fst held_state) = False"
proof -
  have d: "fst (lock_acquire None None None (demo_lock, demo_world)) = Done 0" by code_simp
  show "fl_fh (fst held_state) = Some 0" "mine (snd held_state) 0" "wf_world (snd held_state)"
  "fl_raise (fst held_state) = False"
    using wp_DoneD [OF any_locker.acquire_wp [OF wf_demo(1) TrueI demo_lock_simps(1) refl] run_split [OF d]]
    by (simp_all add: held_state_def any_locker.got_def)
qed

section \<open>\<^verbatim>\<open>Lock\<close>\<close>

lemma demo_acquire: "fst (lock_acquire None None None (demo_lock, demo_world)) = Done 0"
  by code_simp

theorem lock_acquire_success_witness:
  "fst (lock_acquire None None None (demo_lock, demo_world)) = Done 0 \<and>
   flocks (snd (snd (lock_acquire None None None (demo_lock, demo_world)))) 0 = Some Ex"
  using demo_acquire
    lock_acquire_success [of demo_world demo_lock Ex, OF _ _ _ _ run_split [OF demo_acquire]]
  by simp

definition busy_error :: exn where
  "busy_error = set_cause (AlreadyLocked [AExn (os_error EAGAIN), AStrOf (os_error EAGAIN)]
     (Some (FFile 1))) (os_error EAGAIN)"

lemma busy_acquire:
  "fst (lock_acquire None None None (demo_lock, busy_world)) = Raise busy_error"
  by code_simp


theorem lock_acquire_returns_witness:
  "fst (lock_acquire (Some 7) None (Some True) (demo_lock, busy_world)) \<noteq> Hang"
  by (rule lock_acquire_returns) (simp_all add: non_blocking_def has_flag_def)

definition fault_cell :: "int \<Rightarrow> cell" where
  "fault_cell n = \<lparr> c_env = [], c_fault = Some (FErrno n), c_win = (\<lambda>_. None) \<rparr>"

theorem lock_release_always_closes_witness:
  "\<not> mine (snd (snd (lock_release (fst held_state,
      (snd held_state)\<lparr>tape := [fault_cell 5, fault_cell 5]\<rparr>)))) 0"
  using lock_release_always_closes [OF _ _ run_split [OF refl],
      of "(snd held_state)\<lparr>tape := [fault_cell 5, fault_cell 5]\<rparr>" "fst held_state" 0] by simp

definition body_error :: exn where
  "body_error = plain_exn CValueError [AStr ''boom'']"


text \<open>After the first object acquired, another process locks another file.\<close>

definition demo_system :: lock_system where
  "demo_system = ((\<lambda>_. demo_lock)(0 := fst held_state), snd held_state)"

definition demo_system2 :: lock_system where
  "demo_system2 = ((\<lambda>_. demo_lock)(0 := fst held_state),
     env_step (EvFlock 1 Sh) (env_step (EvOpen 2 ''g'') (snd held_state)))"

lemma demo_system_reachable: "lock_step\<^sup>*\<^sup>* (\<lambda>_. demo_lock, demo_world) demo_system2"
proof -
  have "fst (lock_acquire None None None (demo_lock, demo_world)) = Done 0" by code_simp
  from run_split [OF this] have "lock_step (\<lambda>_. demo_lock, demo_world) demo_system"
    unfolding demo_system_def held_state_def
    by (rule lock_step.acquire [of _ _ _ "\<lambda>_. demo_lock" 0]) simp
  also have "lock_step\<^sup>*\<^sup>* demo_system demo_system2"
    unfolding demo_system_def demo_system2_def
    by (rule converse_rtranclp_into_rtranclp, rule lock_step.env, rule r_into_rtranclp, rule lock_step.env)
  finally show ?thesis .
qed

theorem lock_mutual_exclusion_witness:
  "holds demo_system2 0 0 \<and> foreign (snd demo_system2) 1 \<and> flocks (snd demo_system2) 1 = Some Sh \<and>
   \<not> same_file (snd demo_system2) 0 1"
proof -
  have "foreign (snd demo_system2) 1" "flocks (snd demo_system2) 1 = Some Sh" by code_simp+
  moreover have "holds demo_system2 0 0" by (simp add: holds_def demo_system2_def)
  moreover have "lock_initial (\<lambda>_. Ex) (\<lambda>_. demo_lock, demo_world)"
    by (simp add: lock_initial_def)
  ultimately show ?thesis
    using lock_mutual_exclusion [OF _ demo_system_reachable, of "\<lambda>_. Ex" 0 0] by simp
qed

section \<open>\<^verbatim>\<open>RLock\<close>\<close>

definition demo_rlock :: rlock where
  "demo_rlock = flock.extend demo_lock (rlock.fields 0)"

lemma demo_rlock_ok [simp]: "rlock_ok (demo_rlock, demo_world)"
  by (simp add: rlock_ok_def demo_rlock_def demo_lock_def flock.defs rlock.defs)

lemma demo_rlock_acquire: "fst (rlock_acquire None None None (demo_rlock, demo_world)) = Done 0"
  by code_simp

theorem rlock_acquire_refines_counter_witness:
  "rl_count (fst (snd (rlock_acquire None None None (demo_rlock, demo_world)))) = 1"
  using rlock_acquire_refines_counter [OF demo_rlock_ok run_split [OF demo_rlock_acquire]]
  by (simp add: demo_rlock_def rlock.defs flock.defs)

definition held_rlock :: "rlock \<times> world" where
  "held_rlock = snd (rlock_acquire None None None (demo_rlock, demo_world))"

theorem rlock_release_refines_counter_witness:
  "fst (rlock_release held_rlock) = Done () \<and> rlock_ok (snd (rlock_release held_rlock))"
proof -
  have "rlock_ok held_rlock" "rl_count (fst held_rlock) = 1"
    using wp_DoneD [OF rlock_acquire_wp [OF demo_rlock_ok] run_split [OF demo_rlock_acquire]]
    by (simp_all add: held_rlock_def demo_rlock_def rlock.defs flock.defs)
  then show ?thesis
    using rlock_release_refines_counter [OF _ run_split [OF refl], of "fst held_rlock" "snd held_rlock"]
    by (simp add: numeral_eq_Suc)
qed

section \<open>\<^verbatim>\<open>TemporaryFileLock\<close>\<close>

lemma demo_temp_acquire: "fst (temp_acquire None None None (demo_lock, demo_world)) = Done 0"
  by code_simp

definition held_temp :: "flock \<times> world" where
  "held_temp = snd (temp_acquire None None None (demo_lock, demo_world))"

lemma held_temp_simps [simp]:
  "fl_fh (fst held_temp) = Some 0" "sole_holder ''f'' 0 (snd held_temp)" "wf_world (snd held_temp)"
  "plat (snd held_temp) = POSIX" "fl_filename (fst held_temp) = ''f''"
proof -
  show "sole_holder ''f'' 0 (snd held_temp)"
    "fl_fh (fst held_temp) = Some 0" "wf_world (snd held_temp)" "fl_filename (fst held_temp) = ''f''"
    using temp_acquire_holding [OF wf_demo(1) flock_demo(1) demo_lock_simps(1) _ _ run_split [OF demo_temp_acquire], of Ex]
    unfolding flock_locker.holding_def by (simp_all add: held_temp_def sole_holder_def)
  show "plat (snd held_temp) = POSIX" by code_simp
qed

theorem temp_release_gives_up_lock_witness:
  "\<not> mine (snd (snd (temp_release held_temp))) 0"
  using temp_release_gives_up_lock [OF _ _ run_split [OF refl], of "snd held_temp" "fst held_temp"]
  by simp

theorem temp_acquire_verified_witness:
  "names_path ''f'' 0 (snd (snd (temp_acquire None None None (demo_lock, demo_world))))"
  using temp_acquire_verified [OF wf_demo(1) flock_demo(1) demo_lock_simps(1) _ _ run_split [OF demo_temp_acquire], of Ex]
  by simp

theorem temp_acquire_returns_witness:
  "fst (temp_acquire (Some 7) None None (demo_lock, busy_world)) \<noteq> Hang"
  by (rule temp_acquire_returns) (simp_all add: non_blocking_def has_flag_def)

theorem temp_lock_exclusive_witness:
  "names_path ''f'' 0 (fold env_step [EvOpen 2 ''f'', EvFlock 1 Ex] (snd held_temp)) \<and>
   flocks (fold env_step [EvOpen 2 ''f'', EvFlock 1 Ex] (snd held_temp)) 1 = None"
proof -
  have "names_path ''f'' 1 (fold env_step [EvOpen 2 ''f'', EvFlock 1 Ex] (snd held_temp))"
    by code_simp
  then show ?thesis
    using temp_lock_exclusive [OF wf_demo(1) flock_demo(1) demo_lock_simps(1) _ _ run_split [OF demo_temp_acquire],
        of "[EvOpen 2 ''f'', EvFlock 1 Ex]"]
    by (simp add: polite_def held_temp_def)
qed


section \<open>\<^verbatim>\<open>PidFileLock\<close>\<close>

definition demo_pid :: pidlock where
  "demo_pid = flock.extend (demo_lock\<lparr>lb_fail_when_locked := True\<rparr>) (pidlock.fields False ''f.lock'' None)"

lemma demo_pid_simps [simp]: "pl_inner demo_pid = None" "fl_filename demo_pid = ''f''"
  by (simp_all add: demo_pid_def demo_lock_def flock.defs pidlock.defs)

text \<open>Another process holds the sidecar.\<close>

definition busy_sidecar :: world where
  "busy_sidecar = demo_world\<lparr>tape :=
     [\<lparr> c_env = [EvOpen 2 ''f.lock'', EvFlock 0 Ex], c_fault = None, c_win = (\<lambda>_. None) \<rparr>]\<rparr>"

lemma busy_sidecar_wf [simp]: "wf_world busy_sidecar" "flock_world busy_sidecar"
  by (simp_all add: busy_sidecar_def flock_world_def) (simp_all add: demo_world_def init_world_def)

lemma demo_pid_acquire: "fst (pid_acquire None None None (demo_pid, demo_world)) = Done 0"
  by code_simp

theorem pid_acquire_success_witness:
  "\<exists>s. pid_acquire None None None (demo_pid, demo_world) = (Done 0, s) \<and> pid_holding 0 demo_world s"
  using pid_acquire_success [OF wf_demo(1) flock_demo(1) demo_pid_simps(1) run_split [OF demo_pid_acquire]]
    run_split [OF demo_pid_acquire] by blast

definition class_of :: "'a res \<Rightarrow> xcls option" where
  "class_of r = (case r of Raise e \<Rightarrow> Some (exn_class e) | _ \<Rightarrow> None)"

lemma class_of_Raise: "class_of (fst x) = Some c \<Longrightarrow> \<exists>e t. x = (Raise e, t) \<and> exn_class e = c"
  by (cases x) (auto simp: class_of_def split: res.splits)

lemma busy_pid_acquire:
  "class_of (fst (pid_acquire None None None (demo_pid, busy_sidecar))) = Some CAlreadyLocked"
  by code_simp

theorem pid_acquire_failure_witness:
  "\<exists>e l' w'. pid_acquire None None None (demo_pid, busy_sidecar) = (Raise e, (l', w')) \<and>
     exn_class e = CAlreadyLocked \<and> own_same busy_sidecar w'"
proof -
  obtain e t where r: "pid_acquire None None None (demo_pid, busy_sidecar) = (Raise e, t)"
    "exn_class e = CAlreadyLocked"
    using class_of_Raise [OF busy_pid_acquire] by blast
  then show ?thesis
    using pid_acquire_failure [of busy_sidecar demo_pid None None None e "fst t" "snd t"]
    by (cases t) simp
qed

lemma demo_fail_closed: "fst (fail_closed_enter (demo_pid, demo_world)) = Done ()"
  by code_simp

theorem fail_closed_block_owns_lock_witness:
  "\<exists>f. pid_holding f demo_world (snd (fail_closed_enter (demo_pid, demo_world)))"
  using fail_closed_block_owns_lock [OF wf_demo(1) flock_demo(1) demo_pid_simps(1) run_split [OF demo_fail_closed]]
  by simp

definition held_pid :: "pidlock \<times> world" where
  "held_pid = snd (pid_acquire None None None (demo_pid, demo_world))"

theorem pid_release_gives_up_lock_witness:
  "\<not> mine (snd (snd (pid_release held_pid))) 0 \<and> pl_inner (fst (snd (pid_release held_pid))) = None"
proof -
  have "pid_holding 0 demo_world held_pid"
    using wp_DoneD [OF wp_pid_acquire [OF wf_demo(1) flock_demo(1) demo_pid_simps(1)] run_split [OF demo_pid_acquire]]
    by (simp add: held_pid_def)
  moreover have "plat (snd held_pid) = POSIX" by code_simp
  ultimately show ?thesis
    using pid_release_gives_up_lock [OF _ _ run_split [OF refl], of "snd held_pid" "fst held_pid"]
    by (auto simp: pid_holding_def)
qed

theorem pid_file_roundtrip_witness:
  "fst (andthen write_pid (\<lambda>_. read_pid) (demo_pid, demo_world)) = Done (Some 1)"
  using pid_file_roundtrip [of demo_world demo_pid] by simp

section \<open>A failing truncation\<close>

text \<open>
  When the truncation after locking fails, \<^verbatim>\<open>acquire\<close> raises with the lock held: the handle is open
  and locked, the object does not know it.
\<close>

definition full_disk_world :: world where
  "full_disk_world = (init_world POSIX 1)\<lparr>tape :=
     replicate 3 \<lparr>c_env = [], c_fault = None, c_win = (\<lambda>_. None)\<rparr> @
     [\<lparr>c_env = [], c_fault = Some (FErrno 28), c_win = (\<lambda>_. None)\<rparr>]\<rparr>"

lemma failed_truncation_keeps_lock:
  "case lock_acquire None None None (demo_lock\<lparr>fl_truncate := True\<rparr>, full_disk_world) of (r, (k, u)) \<Rightarrow>
     r = Raise (os_error 28) \<and> fl_fh k = None \<and> flocks u 0 = Some Ex"
  by code_simp

end
