(* ===== verification/Semaphore.thy ===== *)
theory Semaphore
  imports FileLockFacts PidText
begin

text \<open>
  The classes \<^verbatim>\<open>BoundedSemaphore\<close> and \<^verbatim>\<open>NamedBoundedSemaphore\<close> of \<^verbatim>\<open>utils.py\<close>: a slot is a lock
  file, acquiring locks the first slot that is free, in the order of the slot numbers.
\<close>

section \<open>Slot names\<close>

text \<open>
  A file name pattern as \<^verbatim>\<open>str.format\<close> reads it: text, \<^verbatim>\<open>{name}\<close> and \<^verbatim>\<open>{number:0wd}\<close>, with width
  0 for \<^verbatim>\<open>{number}\<close>. The sign counts as a part of the width.
\<close>

datatype fmt_part = FmtText string | FmtName | FmtNumber nat

definition zero_pad :: "nat \<Rightarrow> string \<Rightarrow> string" where
  "zero_pad k s = replicate (k - length s) (CHR ''0'') @ s"

definition format_int :: "nat \<Rightarrow> int \<Rightarrow> string" where
  "format_int k n =
     (if n < 0 then CHR ''-'' # zero_pad (k - 1) (decimal (nat (- n))) else zero_pad k (decimal (nat n)))"

fun format_part :: "string \<Rightarrow> int \<Rightarrow> fmt_part \<Rightarrow> string" where
  "format_part name number (FmtText s) = s"
| "format_part name number FmtName = name"
| "format_part name number (FmtNumber k) = format_int k number"

definition py_format :: "fmt_part list \<Rightarrow> string \<Rightarrow> int \<Rightarrow> string" where
  "py_format pat name number = concat (map (format_part name number) pat)"

definition default_pattern :: "fmt_part list" where
  "default_pattern = [FmtName, FmtText ''.'', FmtNumber 2, FmtText ''.lock'']"

text \<open>\<^verbatim>\<open>pathlib.Path(directory) / name\<close>: an absolute name replaces the directory.\<close>

definition path_join :: "path \<Rightarrow> string \<Rightarrow> path" where
  "path_join d name =
     (if d = [] \<or> (name \<noteq> [] \<and> hd name = CHR ''/'') then name
      else if last d = CHR ''/'' then d @ name
      else d @ ''/'' @ name)"

section \<open>The object\<close>

record semaphore = lockbase +
  sm_maximum :: int
  sm_name :: string
  sm_pattern :: "fmt_part list"
  sm_directory :: path
  sm_lock :: "flock option"

definition name_warning :: string where
  "name_warning = ''`BoundedSemaphore` without an explicit `name` argument is deprecated, use NamedBoundedSemaphore''"

definition semaphore_init ::
  "int \<Rightarrow> string \<Rightarrow> fmt_part list \<Rightarrow> path \<Rightarrow> time option \<Rightarrow> time option \<Rightarrow> bool option
    \<Rightarrow> ('l \<times> world, semaphore) act" where
  "semaphore_init maximum name pat dir timeout check_interval fwl =
     andthen (on_cond (name = [] \<or> name = ''bounded_semaphore'') (warn name_warning)) (\<lambda>_.
       ret (lockbase.extend (lockbase_init timeout check_interval fwl)
         (semaphore.fields maximum name pat dir None)))"

text \<open>\<^verbatim>\<open>random.randint(0, 1000000)\<close> is the argument \<open>draw\<close>.\<close>

definition named_semaphore_init ::
  "nat \<Rightarrow> int \<Rightarrow> string option \<Rightarrow> fmt_part list \<Rightarrow> path \<Rightarrow> time option \<Rightarrow> time option \<Rightarrow> bool option
    \<Rightarrow> ('l \<times> world, semaphore) act" where
  "named_semaphore_init draw maximum name pat dir timeout check_interval fwl =
     semaphore_init maximum
       (case name of None \<Rightarrow> ''bounded_semaphore.'' @ decimal draw | Some n \<Rightarrow> n)
       pat dir timeout check_interval fwl"

definition get_filename :: "'z semaphore_scheme \<Rightarrow> int \<Rightarrow> path" where
  "get_filename sf number = path_join (sm_directory sf) (py_format (sm_pattern sf) (sm_name sf) number)"

definition get_filenames :: "'z semaphore_scheme \<Rightarrow> path list" where
  "get_filenames sf = map (\<lambda>n. get_filename sf (int n)) [0..<nat (sm_maximum sf)]"

text \<open>
  \<^verbatim>\<open>random.shuffle\<close>: from the last position down, a position is swapped with a drawn one that is
  not later; \<open>draw i\<close> is the number drawn for position \<open>i\<close>, reduced to the range.
\<close>

definition swap_at :: "nat \<Rightarrow> nat \<Rightarrow> 'a list \<Rightarrow> 'a list" where
  "swap_at i j xs = xs[i := xs ! j, j := xs ! i]"

fun shuffle_upto :: "(nat \<Rightarrow> nat) \<Rightarrow> nat \<Rightarrow> 'a list \<Rightarrow> 'a list" where
  "shuffle_upto draw 0 xs = xs"
| "shuffle_upto draw (Suc i) xs = shuffle_upto draw i (swap_at (Suc i) (draw (Suc i) mod Suc (Suc i)) xs)"

definition get_random_filenames :: "(nat \<Rightarrow> nat) \<Rightarrow> 'z semaphore_scheme \<Rightarrow> path list" where
  "get_random_filenames draw sf =
     (let names = get_filenames sf in shuffle_upto draw (length names - 1) names)"

section \<open>Acquiring and releasing\<close>

definition set_slot :: "flock option \<Rightarrow> ('z semaphore_scheme \<times> world, unit) act" where
  "set_slot k = upd_self (sm_lock_update (\<lambda>_. k))"

text \<open>
  \<^verbatim>\<open>try_lock\<close>: one sweep. The lock object of a slot that is taken is dropped; it stores no handle,
  so its finalizer does nothing.
\<close>

fun sem_try_lock :: "path list \<Rightarrow> ('z semaphore_scheme \<times> world, bool) act" where
  "sem_try_lock [] = ret False"
| "sem_try_lock (filename # filenames) = andthen (env_get plat) (\<lambda>p.
     andthen (lock_init filename ''a'' None DEFAULT_CHECK_INTERVAL True (LOCK_METHOD p) False) (\<lambda>lock.
     andthen (on_object lock (lock_acquire None None None)) (\<lambda>(r, lock'). case r of
         Done f \<Rightarrow> andthen (set_slot (Some lock')) (\<lambda>_. ret True)
       | Raise e \<Rightarrow>
           if is_AlreadyLocked (exn_class e) then sem_try_lock filenames
           else if is_Exception (exn_class e) then andthen (set_slot None) (\<lambda>_. throw e)
           else throw e
       | Hang \<Rightarrow> hang)))"

definition sem_attempt ::
  "path list \<Rightarrow> nat \<Rightarrow> unit \<Rightarrow> ('z semaphore_scheme \<times> world, (unit, flock option) flow) act" where
  "sem_attempt filenames n u = andthen (sem_try_lock filenames) (\<lambda>ok.
     if ok then andthen self (\<lambda>sf. ret (Leave (sm_lock sf))) else ret (Cont ()))"

definition sem_acquire ::
  "time option \<Rightarrow> time option \<Rightarrow> bool option \<Rightarrow> ('z semaphore_scheme \<times> world, flock option) act" where
  "sem_acquire timeout check_interval fail_when_locked = andthen self (\<lambda>sf.
     if sm_lock sf \<noteq> None then throw (plain_exn CAssertionError [AStr ''Already locked''])
     else andthen (retry_loop sf timeout check_interval () (sem_attempt (get_filenames sf))) (\<lambda>r. case r of
         Leave k \<Rightarrow> ret k
       | Cont u \<Rightarrow>
           if the (coalesce None [fail_when_locked, Some (lb_fail_when_locked sf)])
           then throw (AlreadyLocked [] None) else ret None))"

definition sem_release :: "('z semaphore_scheme \<times> world, unit) act" where
  "sem_release = andthen self (\<lambda>sf. case sm_lock sf of
      None \<Rightarrow> ret ()
    | Some k \<Rightarrow> andthen (on_object k lock_release) (\<lambda>(r, k'). case r of
          Done _ \<Rightarrow> set_slot None
        | Raise e \<Rightarrow> andthen (set_slot (Some k')) (\<lambda>_. throw e)
        | Hang \<Rightarrow> hang))"

end
