(* ===== verification/SlotNames.thy ===== *)
theory SlotNames
  imports Semaphore TempFileLock
begin

text \<open>
  Names that nobody removes: when no process unlinks a set of paths, a path keeps naming its
  file, and every handle this process opens meanwhile on one of these paths is a handle of the
  file the path names.
\<close>

section \<open>Worlds in which names stay\<close>

definition no_unlink :: "path set \<Rightarrow> cell list \<Rightarrow> bool" where
  "no_unlink P cs \<longleftrightarrow> (\<forall>c \<in> set cs. \<forall>p \<in> P. EvUnlink p \<notin> set (c_env c))"

definition on_slot :: "path set \<Rightarrow> ino \<Rightarrow> world \<Rightarrow> bool" where
  "on_slot P i w \<longleftrightarrow> (\<exists>p \<in> P. paths w p = Some i)"

text \<open>What is left of a world when only names and the files of this process's handles matter.\<close>

definition own_files :: "world \<Rightarrow> fd \<Rightarrow> ino option" where
  "own_files w f = (if mine w f then map_option h_ino (handles w f) else None)"

definition stays :: "path set \<Rightarrow> world \<Rightarrow> world \<Rightarrow> bool" where
  "stays P w u \<longleftrightarrow> (\<forall>p \<in> P. \<forall>i. paths w p = Some i \<longrightarrow> paths u p = Some i) \<and>
     (\<forall>f i. own_files u f = Some i \<longrightarrow> own_files w f = Some i \<or> on_slot P i u)"

definition slot_rel :: "path set \<Rightarrow> world \<Rightarrow> world \<Rightarrow> bool" where
  "slot_rel P w u \<longleftrightarrow> (no_unlink P (tape w) \<longrightarrow> no_unlink P (tape u) \<and> stays P w u)"

lemma stays_refl: "stays P w w"
  by (simp add: stays_def)

lemma stays_trans: "stays P u v \<Longrightarrow> stays P v w \<Longrightarrow> stays P u w"
  unfolding stays_def on_slot_def by metis

lemma slot_rel_refl: "slot_rel P w w"
  by (simp add: slot_rel_def stays_refl)

lemma slot_rel_trans: "slot_rel P u v \<Longrightarrow> slot_rel P v w \<Longrightarrow> slot_rel P u w"
  unfolding slot_rel_def using stays_trans by blast

lemma slot_relI: "tape u = tape w \<Longrightarrow> stays P w u \<Longrightarrow> slot_rel P w u"
  by (simp add: slot_rel_def)

text \<open>A change that keeps names, and drops handles or changes other fields of theirs.\<close>

lemma slot_rel_same:
  assumes "tape u = tape w" "paths u = paths w"
    and "\<And>f i. own_files u f = Some i \<Longrightarrow> own_files w f = Some i"
  shows "slot_rel P w u"
  using assms by (intro slot_relI) (simp_all add: stays_def)

lemma own_files_iff:
  "own_files w f = Some i \<longleftrightarrow> (\<exists>h. handles w f = Some h \<and> h_owner h = mypid w \<and> h_ino h = i)"
  by (auto simp: own_files_def mine_iff)

lemma slot_rel_drop_handle: "slot_rel P w (drop_handle f w)"
  by (rule slot_rel_same) (auto simp: drop_handle_def own_files_iff split: option.splits if_splits)

lemma slot_rel_handle:
  assumes "handles w f = Some h" "h_ino h' = h_ino h" "h_owner h' = h_owner h"
  shows "slot_rel P w (w\<lparr>handles := (handles w)(f \<mapsto> h')\<rparr>)"
  by (rule slot_rel_same) (use assms in \<open>auto simp: own_files_iff split: if_splits\<close>)

lemma slot_rel_k_flush: "slot_rel P w (k_flush f w)"
  by (rule slot_rel_same) (auto simp: k_flush_def own_files_iff Let_def split: option.splits if_splits)

lemma slot_rel_set_pos: "slot_rel P w (set_pos f n w)"
  by (rule slot_rel_same) (auto simp: set_pos_def own_files_iff split: option.splits if_splits)

lemma slot_rel_fields [simp]:
  "slot_rel P w (w\<lparr>content := c\<rparr>)" "slot_rel P w (w\<lparr>clock := t\<rparr>)" "slot_rel P w (w\<lparr>warned := ws\<rparr>)"
  "slot_rel P w (w\<lparr>plocks := pl\<rparr>)" "slot_rel P w (w\<lparr>nlocks := nl\<rparr>)" "slot_rel P w (w\<lparr>flocks := fl\<rparr>)"
  "slot_rel P w (w\<lparr>locker_instances := li\<rparr>)"
  by (auto intro!: slot_rel_same simp: own_files_iff)

lemma slot_rel_locks [simp]:
  "slot_rel P w (grant_flock f m w)" "slot_rel P w (drop_flock f w)"
  "slot_rel P w (grant_plock i m w)" "slot_rel P w (drop_plock i w)"
  by (simp_all add: grant_flock_def drop_flock_def grant_plock_def drop_plock_def)

section \<open>Opening\<close>

lemma stays_add_handle:
  assumes "h_owner h = mypid w \<Longrightarrow> on_slot P (h_ino h) w"
  shows "stays P w (add_handle h w)"
  using assms by (auto simp: stays_def add_handle_def own_files_iff on_slot_def split: if_splits)

lemma stays_create: "paths w p = None \<Longrightarrow> stays P w (create_file p w)"
  by (auto simp: stays_def create_file_def own_files_iff on_slot_def)

lemma slot_rel_k_open:
  assumes "me \<noteq> mypid w \<or> p \<in> P"
  shows "slot_rel P w (snd (k_open me p md w))"
proof -
  have new: "slot_rel P w (add_handle (new_handle me i k upd) w')"
    if "slot_rel P w w'" "mypid w' = mypid w" "paths w' p = Some i" for i k upd w'
  proof (rule slot_rel_trans [OF that(1) slot_relI])
    show "stays P w' (add_handle (new_handle me i k upd) w')"
      using assms that by (intro stays_add_handle) (auto simp: new_handle_def on_slot_def)
  qed (simp add: add_handle_def)
  have "slot_rel P w (create_file p w)" if "paths w p = None"
    using stays_create [OF that] by (rule slot_relI [rotated]) (simp add: create_file_def)
  then show ?thesis
    by (auto simp: k_open_def slot_rel_refl create_file_def
        intro!: new split: option.splits)
qed

section \<open>Other processes\<close>

lemma stays_unlink: "p \<notin> P \<Longrightarrow> stays P w (snd (k_unlink p w))"
  by (auto simp: k_unlink_def stays_def own_files_iff split: option.splits)

lemma slot_rel_env_step: "e \<notin> EvUnlink ` P \<Longrightarrow> slot_rel P w (env_step e w)"
proof (cases e)
  case (EvUnlink q)
  moreover assume "e \<notin> EvUnlink ` P"
  ultimately have "stays P w (snd (k_unlink q w))" by (intro stays_unlink) auto
  then show ?thesis
    unfolding EvUnlink env_step.simps
    by (rule slot_relI [rotated]) (auto simp: k_unlink_def split: option.splits)
next
  case (EvOpen p q)
  then show ?thesis by (auto simp: slot_rel_refl intro: slot_rel_k_open)
next
  case (EvWrite f s)
  then show ?thesis by (auto simp: slot_rel_refl split: option.splits)
qed (auto simp: slot_rel_refl slot_rel_drop_handle)

lemma slot_rel_fold_env:
  "\<forall>p \<in> P. EvUnlink p \<notin> set es \<Longrightarrow> slot_rel P w (fold env_step es w)"
proof (induction es arbitrary: w)
  case (Cons e es)
  then have "slot_rel P w (env_step e w)" by (intro slot_rel_env_step) auto
  also from Cons have "slot_rel P (env_step e w) (fold env_step es (env_step e w))" by simp
  finally (slot_rel_trans) show ?case by simp
qed (simp add: slot_rel_refl)

lemma slot_rel_pop: "slot_rel P w (snd (pop w))"
proof (cases "tape w")
  case Nil
  then show ?thesis by (simp add: pop_def slot_rel_refl)
next
  case (Cons c cs)
  show ?thesis
    unfolding slot_rel_def
  proof
    assume n: "no_unlink P (tape w)"
    have "stays P w (w\<lparr>tape := cs\<rparr>)" by (auto simp: stays_def own_files_iff)
    moreover have "slot_rel P (w\<lparr>tape := cs\<rparr>) (fold env_step (c_env c) (w\<lparr>tape := cs\<rparr>))"
      using n Cons by (intro slot_rel_fold_env) (auto simp: no_unlink_def)
    ultimately show "no_unlink P (tape (snd (pop w))) \<and> stays P w (snd (pop w))"
      using n Cons by (auto simp: slot_rel_def pop_def no_unlink_def intro: stays_trans)
  qed
qed

interpretation slot_eff: os_effect_relation "slot_rel P" for P
proof unfold_locales
  show "slot_rel P w w" for w by (rule slot_rel_refl)
  show "slot_rel P u v \<Longrightarrow> slot_rel P v w \<Longrightarrow> slot_rel P u w" for u v w by (rule slot_rel_trans)
  show "slot_rel P w (snd (pop w))" for w by (rule slot_rel_pop)
qed

section \<open>The calls\<close>

lemma slot_rel_wait:
  assumes "\<And>u. slot_rel P u (grant u)"
  shows "slot_rel P w (snd (wait_until n busy grant w))"
  by (induction n arbitrary: w) (auto simp: slot_rel_refl assms intro: slot_rel_trans [OF slot_rel_pop])

lemma slot_rel_flock: "slot_rel P w (snd (k_flock f oper w))"
  by (auto simp: k_flock_def Let_def slot_rel_refl
      intro!: slot_rel_trans [OF slot_rel_locks(2) slot_rel_wait]
      simp del: wait_until.simps lmode_of.simps split: option.splits)

lemma slot_rel_lockf: "slot_rel P w (snd (k_lockf f oper w))"
  by (auto simp: k_lockf_def slot_rel_refl intro!: slot_rel_wait
      simp del: wait_until.simps lockf_mode.simps split: option.splits)

lemma slot_rel_locking: "slot_rel P w (snd (k_locking g md n w))"
proof -
  have wait: "slot_rel P w (snd (k_locking_wait k g s n w))" for k s w
  proof (induction k arbitrary: w)
    case (Suc k)
    have "slot_rel P w ((snd (pop w))\<lparr>clock := clock (snd (pop w)) + 1\<rparr>)"
      by (rule slot_rel_trans [OF slot_rel_pop slot_rel_fields(2)])
    with Suc show ?case by (auto simp: Let_def intro: slot_rel_trans)
  qed (simp add: slot_rel_refl)
  show ?thesis
    by (auto simp: k_locking_def slot_rel_refl wait simp del: k_locking_wait.simps
        split: option.splits)
qed

lemma slot_rel_on_handle:
  "(\<And>h w. own_handle w f = Some h \<Longrightarrow> slot_rel P w (snd (k h w))) \<Longrightarrow> eff (slot_rel P) (on_handle f k)"
  unfolding on_handle_def
  by (intro slot_eff.eff_syscall) (auto split: option.splits simp: slot_rel_refl)

lemma slot_rel_flush_then:
  "slot_rel P (k_flush f w) u \<Longrightarrow> slot_rel P w u"
  by (rule slot_rel_trans [OF slot_rel_k_flush])

lemma slot_rel_calls [eff_intros]:
  "eff (slot_rel P) (fh_seek f n)" "eff (slot_rel P) (fh_tell f)" "eff (slot_rel P) (os_lseek_cur f)"
  "eff (slot_rel P) (os_lseek_set f n)" "eff (slot_rel P) (get_osfhandle f)"
  "eff (slot_rel P) (msvcrt_locking f md n)" "eff (slot_rel P) (fcntl_call p f oper)"
  "eff (slot_rel P) (fh_truncate f n)" "eff (slot_rel P) (perf_counter)" "eff (slot_rel P) (py_sleep d)"
proof -
  show "eff (slot_rel P) (fcntl_call p f oper)"
    unfolding fcntl_call_def
    by (intro slot_eff.eff_syscall) (simp add: slot_rel_flock slot_rel_lockf split: prim.splits)
  show "eff (slot_rel P) (fh_truncate f n)"
    unfolding fh_truncate_def
    by (intro slot_rel_on_handle)
       (auto simp: Let_def slot_rel_refl intro: slot_rel_flush_then [OF slot_rel_fields(1)])
qed (auto simp: fh_tell_def fh_seek_def os_lseek_cur_def os_lseek_set_def get_osfhandle_def msvcrt_locking_def
      perf_counter_def py_sleep_def slot_rel_refl slot_rel_locking slot_rel_set_pos
     intro!: slot_rel_on_handle slot_eff.eff_syscall slot_eff.eff_safe_call
     intro: slot_rel_flush_then [OF slot_rel_set_pos] slot_rel_k_flush
     split: option.splits)

lemma slot_rel_open [eff_intros]: "p \<in> P \<Longrightarrow> eff (slot_rel P) (sys_open p m)"
  unfolding sys_open_def by (intro slot_eff.eff_syscall) (rule slot_rel_k_open, simp)

lemma slot_rel_close [eff_intros]: "eff (slot_rel P) (fh_close f)"
  unfolding eff_def fh_close_def
  by (auto split: prod.splits option.splits)
     (metis slot_rel_drop_handle slot_rel_pop slot_rel_trans slot_rel_k_flush snd_conv)+

lemma slot_rel_others [eff_intros]:
  "eff (slot_rel P) (win32_call oper)" "eff (slot_rel P) (warn msg)"
  "eff (slot_rel P) (upd_world (\<lambda>w. w\<lparr>locker_instances := c w\<rparr>))"
  unfolding eff_def win32_call_def warn_def upd_world_def
  by (auto split: prod.splits option.splits) (metis slot_rel_pop snd_conv)+

lemma slot_rel_case_class [eff_intros]:
  "(\<And>n. eff (slot_rel P) (a n)) \<Longrightarrow> eff (slot_rel P) g
    \<Longrightarrow> eff (slot_rel P) (case c of CPyWinError n \<Rightarrow> a n | _ \<Rightarrow> g)"
  "(\<And>n. eff (slot_rel P) (a n)) \<Longrightarrow> eff (slot_rel P) g
    \<Longrightarrow> eff (slot_rel P) (case c of COSError n \<Rightarrow> a n | _ \<Rightarrow> g)"
  "(\<And>n. eff (slot_rel P) (a n)) \<Longrightarrow> (\<And>n. eff (slot_rel P) (k n)) \<Longrightarrow> eff (slot_rel P) g
    \<Longrightarrow> eff (slot_rel P) (case c of CPyWinError n \<Rightarrow> a n | COSError n \<Rightarrow> k n | _ \<Rightarrow> g)"
  by (cases c; simp)+

section \<open>The lockers and \<^verbatim>\<open>Lock\<close>\<close>

lemma slot_rel_prepare [eff_intros]:
  "eff (slot_rel P) (posix_get_fd fo)" "eff (slot_rel P) (prepare_windows_file fo)"
  "eff (slot_rel P) (restore_windows_file_pos f b p)" "eff (slot_rel P) (call_locker lk f oper)"
  "eff (slot_rel P) (posix_locker c)"
proof -
  show "eff (slot_rel P) (posix_get_fd fo)" by (cases fo) (auto intro: eff_intros)
  show "eff (slot_rel P) (prepare_windows_file fo)"
    by (cases fo; simp only: prepare_windows_file.simps seek_raw_start_def; intro eff_intros)
  show "eff (slot_rel P) (call_locker lk f oper)" by (cases lk) (auto intro: eff_intros)
qed (unfold restore_windows_file_pos_def posix_locker_def, (intro eff_intros)+)

lemma slot_rel_case_platform [eff_intros]:
  "eff (slot_rel P) m \<Longrightarrow> eff (slot_rel P) k \<Longrightarrow> eff (slot_rel P) (case p of POSIX \<Rightarrow> m | NT \<Rightarrow> k)"
  by (cases p) simp_all

lemma slot_rel_lockers [eff_intros]:
  "eff (slot_rel P) (posix_lock c fo flags)" "eff (slot_rel P) (posix_unlock c fo)"
  "eff (slot_rel P) (win32_lock fo flags)" "eff (slot_rel P) (win32_unlock fo)"
  unfolding posix_lock_def posix_unlock_def win32_lock_def win32_unlock_def
  by (intro eff_intros)+

lemma slot_rel_msvcrt [eff_intros]:
  "eff (slot_rel P) (msvcrt_lock b fo flags)" "eff (slot_rel P) (msvcrt_unlock b fo)"
  unfolding msvcrt_lock_def msvcrt_unlock_def win32_fallback_def Let_def
  by (intro eff_intros)+

lemma slot_rel_resolve [eff_intros]: "eff (slot_rel P) (resolve_locker_pair lk)"
  by (cases lk) (auto simp: resolve_locker_pair_def new_locker_def intro!: eff_intros)

lemma slot_rel_instance [eff_intros]:
  "eff (slot_rel P) (instance_lock i fo flags)" "eff (slot_rel P) (instance_unlock i fo)"
  by (cases "li_cls i"; auto simp: instance_lock_def instance_unlock_def intro: eff_intros)+

lemma slot_rel_pl [eff_intros]:
  "eff (slot_rel P) (pl_lock fo flags)" "eff (slot_rel P) (pl_unlock fo)"
  unfolding pl_lock_def nt_lock_def posix_dispatch_lock_def
    pl_unlock_def nt_unlock_def posix_dispatch_unlock_def
  by (intro eff_intros)+

lemma slot_rel_generator [eff_intros]: "eff (slot_rel P) (timeout_generator sf t ci g)"
  by (cases g) (auto simp: gen_check_def Let_def intro!: eff_intros)

text \<open>A run of \<^verbatim>\<open>acquire\<close> on an object whose file name is one of the paths.\<close>

definition acquire_on ::
  "'z flock_scheme \<Rightarrow> time option \<Rightarrow> time option \<Rightarrow> bool option \<Rightarrow> ('z flock_scheme \<times> world, fd) act" where
  "acquire_on sf timeout check_interval fail_when_locked =
     (let fwl = the (coalesce None [fail_when_locked, Some (lb_fail_when_locked sf)]) in
      andthen (on_cond (\<not> non_blocking (fl_flags sf) \<and> timeout \<noteq> None) (warn blocking_warning)) (\<lambda>_.
       case fl_fh sf of
         Some f \<Rightarrow> ret f
       | None \<Rightarrow> andthen (sys_open (fl_filename sf) (fl_mode sf)) (\<lambda>f.
           andthen (retry_loop sf timeout check_interval None (lock_attempt fwl f)) (\<lambda>r. case r of
               Leave f' \<Rightarrow> lock_finish f'
             | Cont (Some exc) \<Rightarrow> andthen (try_close f) (\<lambda>_. throw exc)
             | Cont None \<Rightarrow> lock_finish f))))"

lemma get_fh_run: "lock_get_fh (l, w) = sys_open (fl_filename l) (fl_mode l) (l, w)"
  by (simp add: lock_get_fh_def andthen_def self_def)

lemma andthen_runs:
  "andthen lock_get_fh k (l, w) = andthen (sys_open (fl_filename l) (fl_mode l)) k (l, w)"
  "andthen self k' (l', w) = k' l' (l', w)"
  "andthen (on_cond b (warn msg)) k'' (l', w) =
     k'' () (l', if b then w\<lparr>warned := warned w @ [msg]\<rparr> else w)"
  by (simp_all add: andthen_def get_fh_run self_def on_cond_def warn_def ret_def)

lemma lock_acquire_on: "lock_acquire t ci fwl (l, w) = acquire_on l t ci fwl (l, w)"
  by (cases "fl_fh l") (simp_all add: lock_acquire_def acquire_on_def Let_def andthen_runs)

lemma slot_rel_attempt: "eff (slot_rel P) (lock_attempt fwl f i e)"
  unfolding lock_attempt_def lock_get_lock_def try_close_def by (intro eff_intros)

lemma slot_rel_acquire:
  assumes "fl_filename l \<in> P"
  shows "slot_rel P w (snd (snd (lock_acquire t ci fwl (l, w))))"
proof -
  have "eff (slot_rel P) (acquire_on l t ci fwl)"
    unfolding acquire_on_def retry_loop_def lock_finish_def lock_prepare_fh_def try_close_def Let_def
    by (intro eff_intros slot_rel_attempt assms)
  then show ?thesis by (simp add: lock_acquire_on eff_def)
qed

lemma slot_rel_release: "eff (slot_rel P) lock_release"
  unfolding lock_release_def lock_report_def by (intro eff_intros)

text \<open>The file that is open after a run is the file of the name.\<close>

lemma slot_rel_names:
  assumes "slot_rel P w u" "no_unlink P (tape w)" "\<not> mine w f" "mine u f"
  shows "\<exists>p \<in> P. names_path p f u"
proof -
  from assms(4) obtain h where h: "handles u f = Some h" "h_owner h = mypid u"
    by (auto simp: mine_iff)
  then have "own_files u f = Some (h_ino h)" by (simp add: own_files_iff)
  moreover have "own_files w f = None" using assms(3) by (simp add: own_files_def)
  ultimately have "on_slot P (h_ino h) u"
    using assms(1,2) unfolding slot_rel_def stays_def by (metis option.distinct(1))
  with h show ?thesis by (auto simp: on_slot_def names_path_def)
qed

end
