(* ===== verification/SemaphoreFacts.thy ===== *)
theory SemaphoreFacts
  imports SlotNames
begin

text \<open>
  What the semaphores guarantee: an acquire that succeeds holds the lock of one slot, one that
  does not leaves nothing behind, it returns in any case, and at most \<^verbatim>\<open>maximum\<close> locks of slots
  are held at a time, over all objects and processes.
\<close>

section \<open>One sweep\<close>

definition slot_lock :: "path \<Rightarrow> int \<Rightarrow> flock" where
  "slot_lock filename flags =
     \<lparr> lb_timeout = 5, lb_check_interval = 1 / 4, lb_fail_when_locked = True, fl_fh = None,
       fl_filename = filename, fl_mode = ''a'', fl_truncate = False, fl_flags = flags,
       fl_raise = False \<rparr>"

lemma slot_lock_simps [simp]:
  "fl_fh (slot_lock p flags) = None" "fl_flags (slot_lock p flags) = flags"
  "fl_truncate (slot_lock p flags) = False" "fl_raise (slot_lock p flags) = False"
  "fl_filename (slot_lock p flags) = p"
  by (simp_all add: slot_lock_def)

lemma new_slot_lock:
  "lock_init p ''a'' None DEFAULT_CHECK_INTERVAL True flags False = ret (slot_lock p flags)"
  by (simp add: lock_init_def on_cond_def slot_lock_def lockbase_init_def lockbase.defs flock.defs
      DEFAULT_TIMEOUT_def DEFAULT_CHECK_INTERVAL_def andthen_ret)

lemma sem_try_lock_Cons:
  "sem_try_lock (p # ps) = andthen (env_get plat) (\<lambda>os_name.
     andthen (on_object (slot_lock p (LOCK_METHOD os_name)) (lock_acquire None None None)) (\<lambda>(r, lock').
       case r of
         Done f \<Rightarrow> andthen (set_slot (Some lock')) (\<lambda>_. ret True)
       | Raise e \<Rightarrow>
           if is_AlreadyLocked (exn_class e) then sem_try_lock ps
           else if is_Exception (exn_class e) then andthen (set_slot None) (\<lambda>_. throw e)
           else throw e
       | Hang \<Rightarrow> hang))"
  by (simp add: new_slot_lock andthen_ret)

lemma sm_lock_None_idem: "sm_lock l = None \<Longrightarrow> l\<lparr>sm_lock := None\<rparr> = l"
  by (cases l) simp

text \<open>
  The contract between the semaphore and \<^verbatim>\<open>Lock\<close>: what one attempt to lock one slot achieves.
  \<open>W\<close> is what is assumed of the system, \<open>granted\<close> what a successful lock gives.
\<close>

definition slot_got :: "(world \<Rightarrow> bool) \<Rightarrow> (fd \<Rightarrow> world \<Rightarrow> bool) \<Rightarrow> fd \<Rightarrow> world \<Rightarrow> world \<Rightarrow> bool" where
  "slot_got W granted f w u \<longleftrightarrow>
     \<not> mine w f \<and> mine u f \<and> granted f u \<and> wf_world u \<and> W u \<and> own_but f w u"

lemma slot_got_after: "own_same w u \<Longrightarrow> slot_got W granted f u v \<Longrightarrow> slot_got W granted f w v"
  unfolding slot_got_def own_but_def own_same_def by (metis order_trans)

locale slot_contract =
  fixes W :: "world \<Rightarrow> bool"
    and flags :: int
    and h :: bool
    and granted :: "fd \<Rightarrow> world \<Rightarrow> bool"
  assumes W_rely: "rely w u \<Longrightarrow> W w \<Longrightarrow> W u"
    and W_flags: "W w \<Longrightarrow> flags = LOCK_METHOD (plat w)"
    and take_slot: "wf_world w \<Longrightarrow> W w \<Longrightarrow>
      wp h (lock_acquire None None None)
        (\<lambda>f s. fst s = (slot_lock p flags)\<lparr>fl_fh := Some f\<rparr> \<and> slot_got W granted f w (snd s))
        (\<lambda>e s. own_same w (snd s) \<and> wf_world (snd s) \<and> W (snd s) \<and> is_Exception (exn_class e))
        (slot_lock p flags, w)"
begin

definition sem_free :: "'z semaphore_scheme \<Rightarrow> world \<Rightarrow> 'z semaphore_scheme \<times> world \<Rightarrow> bool" where
  "sem_free l w s \<longleftrightarrow> fst s = l \<and> sm_lock l = None \<and> own_same w (snd s) \<and> wf_world (snd s) \<and> W (snd s)"

definition sem_held :: "'z semaphore_scheme \<Rightarrow> world \<Rightarrow> flock \<Rightarrow> 'z semaphore_scheme \<times> world \<Rightarrow> bool" where
  "sem_held l w k s \<longleftrightarrow> (\<exists>p f. p \<in> set (get_filenames l) \<and> fst s = l\<lparr>sm_lock := Some k\<rparr> \<and>
     k = (slot_lock p flags)\<lparr>fl_fh := Some f\<rparr> \<and> slot_got W granted f w (snd s))"

definition sem_raises :: "'z semaphore_scheme \<Rightarrow> world \<Rightarrow> exn \<Rightarrow> 'z semaphore_scheme \<times> world \<Rightarrow> bool" where
  "sem_raises l w e s \<longleftrightarrow> sem_free l w s \<and> is_Exception (exn_class e)"

definition sem_swept :: "'z semaphore_scheme \<Rightarrow> world \<Rightarrow> bool \<Rightarrow> 'z semaphore_scheme \<times> world \<Rightarrow> bool" where
  "sem_swept l w b s \<longleftrightarrow> (if b then \<exists>k. sem_held l w k s else sem_free l w s)"

lemma try_lock_wp:
  fixes l :: "'z semaphore_scheme"
  assumes "sem_free l w (l, u)" "set ps \<subseteq> set (get_filenames l)"
  shows "wp h (sem_try_lock ps) (sem_swept l w) (sem_raises l w) (l, u)"
  using assms
proof (induction ps arbitrary: u)
  case Nil
  then show ?case by (simp add: wp_simps sem_swept_def)
next
  case (Cons p ps)
  then have u: "wf_world u" "W u" "own_same w u" "sm_lock l = None"
    by (simp_all add: sem_free_def)
  have free: "sem_free l w (l, v)" if "own_same u v" "wf_world v" "W v" for v
    using that u own_same_trans by (auto simp: sem_free_def)
  have next_slot: "wp h (if is_AlreadyLocked (exn_class e) then sem_try_lock ps
        else if is_Exception (exn_class e) then andthen (set_slot None) (\<lambda>_. throw e) else throw e)
      (sem_swept l w) (sem_raises l w) (l, v)"
    if "own_same u v" "wf_world v" "W v" "is_Exception (exn_class e)" for e v
    using Cons.IH [OF free [OF that(1-3)]] Cons.prems(2) that(4) free [OF that(1-3)]
      sm_lock_None_idem [OF u(4)] sem_raises_def [of l w e]
    by (simp add: wp_simps set_slot_def del: is_AlreadyLocked_iff is_Exception_iff)
  have ok: "sem_held l w k (l\<lparr>sm_lock := Some k\<rparr>, v)"
    if "slot_got W granted f u v" "k = (slot_lock p flags)\<lparr>fl_fh := Some f\<rparr>" for k f v
    unfolding sem_held_def
    by (intro exI [of _ p] exI [of _ f]) (use that slot_got_after [OF u(3)] Cons.prems(2) in auto)
  show ?case
    unfolding sem_try_lock_Cons wp_andthen wp_env_get wp_on_object prod.case W_flags [OF u(2), symmetric]
  proof (rule wp_mono [OF take_slot [OF u(1,2)]], goal_cases)
    case (1 f t)
    then have "sem_held l w (fst t) (l\<lparr>sm_lock := Some (fst t)\<rparr>, snd t)"
      by (elim conjE) (rule ok)
    then have "sem_swept l w True (l\<lparr>sm_lock := Some (fst t)\<rparr>, snd t)"
      by (auto simp: sem_swept_def)
    then show ?case by (cases t) (simp add: wp_simps set_slot_def)
  next
    case (2 e t)
    then show ?case using next_slot [of "snd t" e] by (cases t) simp
  qed simp
qed

text \<open>The rounds of \<^verbatim>\<open>acquire\<close>.\<close>

definition sem_end ::
  "'z semaphore_scheme \<Rightarrow> world \<Rightarrow> (unit, flock option) flow \<Rightarrow> 'z semaphore_scheme \<times> world \<Rightarrow> bool" where
  "sem_end l w r s = (case r of
      Leave k \<Rightarrow> \<exists>k'. k = Some k' \<and> sem_held l w k' s
    | Cont _ \<Rightarrow> sem_free l w s)"

lemma sem_body:
  fixes s :: "'z semaphore_scheme \<times> world"
  assumes "sem_free l w s"
  shows "wp h (sem_attempt (get_filenames l) k a)
    (\<lambda>r u. case r of Leave b \<Rightarrow> sem_end l w (Leave b) u
       | Cont a' \<Rightarrow> sem_free l w u \<and> clock (snd s) \<le> clock (snd u)) (sem_raises l w) s"
proof -
  obtain u where s: "s = (l, u)" using assms by (cases s) (simp add: sem_free_def)
  with assms have f: "sem_free l u (l, u)" "sem_free l w (l, u)"
    by (simp_all add: sem_free_def own_same_def)
  have after: "sem_held l u k' t \<Longrightarrow> sem_held l w k' t" "sem_free l u t \<Longrightarrow> sem_free l w t"
    "sem_raises l u e t \<Longrightarrow> sem_raises l w e t" for k' t e
    using f(2) slot_got_after own_same_trans
    unfolding sem_held_def sem_free_def sem_raises_def snd_conv by blast+
  have fin: "wp h (if b then andthen self (\<lambda>sf. ret (Leave (sm_lock sf))) else ret (Cont ()))
      (\<lambda>r v. case r of Leave b \<Rightarrow> sem_end l w (Leave b) v
         | Cont a' \<Rightarrow> sem_free l w v \<and> clock u \<le> clock (snd v)) (sem_raises l w) t"
    if t: "sem_swept l u b t" for b t
  proof (cases b)
    case True
    with t obtain k' where k: "sem_held l u k' t" by (auto simp: sem_swept_def)
    then have "sm_lock (fst t) = Some k'" by (auto simp: sem_held_def)
    with after(1) [OF k] True show ?thesis by (cases t) (auto simp: wp_simps sem_end_def)
  next
    case False
    with t have f: "sem_free l u t" by (simp add: sem_swept_def)
    then have "clock u \<le> clock (snd t)" by (simp add: sem_free_def own_same_def)
    with after(2) [OF f] False show ?thesis by (simp add: wp_simps)
  qed
  show ?thesis
    unfolding s sem_attempt_def wp_andthen snd_conv
    by (rule wp_mono [OF try_lock_wp [OF f(1)]]) (use fin after(3) in auto)
qed

end

sublocale slot_contract \<subseteq> rounds: retrying h "sem_attempt (get_filenames l)"
    "\<lambda>k a. sem_free l w0" "sem_end l w0" "sem_raises l w0"
  for l w0
proof unfold_locales
  fix k :: nat and a m w u and s :: "'a semaphore_scheme \<times> world"
  show "sem_free l w0 (m, w) \<Longrightarrow> wf_world w" by (simp add: sem_free_def)
  show "sem_free l w0 (m, w) \<Longrightarrow> rely w u \<Longrightarrow> sem_free l w0 (m, u)"
    unfolding sem_free_def fst_conv snd_conv
    by (meson W_rely rely_wf own_same_trans rely_own_same)
  show "sem_free l w0 s \<Longrightarrow> wp h (sem_attempt (get_filenames l) k a)
    (\<lambda>r u. case r of Leave b \<Rightarrow> sem_end l w0 (Leave b) u
       | Cont a' \<Rightarrow> sem_free l w0 u \<and> clock (snd s) \<le> clock (snd u)) (sem_raises l w0) s"
    by (rule sem_body)
  show "sem_free l w0 s \<Longrightarrow> sem_end l w0 (Cont a) s" by (simp add: sem_end_def)
qed

context slot_contract
begin

lemma sem_acquire_wp:
  fixes l :: "'z semaphore_scheme"
  assumes "wf_world w" "W w" "sm_lock l = None"
  shows "wp h (sem_acquire t ci fwl)
    (\<lambda>r s. case r of None \<Rightarrow> sem_free l w s | Some k \<Rightarrow> sem_held l w k s) (sem_raises l w) (l, w)"
proof -
  have "sem_free l w (l, w)" using assms by (simp add: sem_free_def own_same_def)
  note loop = rounds.wp_retry [OF this]
  let ?b = "the (coalesce None [fwl, Some (lb_fail_when_locked l)])"
  have fin: "wp h (case r of Leave k \<Rightarrow> ret k
       | Cont u \<Rightarrow> if ?b then throw (AlreadyLocked [] None) else ret None)
      (\<lambda>r s. case r of None \<Rightarrow> sem_free l w s | Some k \<Rightarrow> sem_held l w k s) (sem_raises l w) s"
    if "sem_end l w r s" for r s
    using that by (cases r) (auto simp: wp_simps sem_end_def sem_raises_def)
  show ?thesis
    unfolding sem_acquire_def wp_andthen [of _ self] wp_self prod.case assms(3) not_not
      simp_thms if_False wp_andthen [of _ "retry_loop _ _ _ _ _"]
    by (rule wp_mono [OF loop]) (use fin in auto)
qed

end

section \<open>The contract holds\<close>

lemma own_same_refl: "own_same w w"
  by (simp add: own_same_def)

lemma LOCK_METHOD_nb: "has_flag (LOCK_METHOD p) 4"
  by (cases p) (simp_all add: has_flag_def)

interpretation any_slot: slot_contract "\<lambda>w. flags = LOCK_METHOD (plat w)" flags False
    "\<lambda>f w. True" for flags
proof unfold_locales
  fix w u p
  show "rely w u \<Longrightarrow> flags = LOCK_METHOD (plat w) \<Longrightarrow> flags = LOCK_METHOD (plat u)"
    by (simp add: rely_def)
  assume w: "wf_world w" "flags = LOCK_METHOD (plat w)"
  then have nb: "has_flag flags 4" using LOCK_METHOD_nb by simp
  show "wp False (lock_acquire None None None)
      (\<lambda>f s. fst s = (slot_lock p flags)\<lparr>fl_fh := Some f\<rparr> \<and>
         slot_got (\<lambda>w. flags = LOCK_METHOD (plat w)) (\<lambda>f w. True) f w (snd s))
      (\<lambda>e s. own_same w (snd s) \<and> wf_world (snd s) \<and> flags = LOCK_METHOD (plat (snd s)) \<and>
         is_Exception (exn_class e)) (slot_lock p flags, w)"
    by (rule wp_mono [OF any_locker.acquire_wp [OF w(1) TrueI slot_lock_simps(1,2)]])
       (use w(2) nb own_but_rely_but [OF own_same_refl] in
         \<open>auto simp: any_locker.got_def slot_got_def own_same_def rely_but_def dest: lib_exnD\<close>)
qed

interpretation flock_slot: slot_contract flock_world 6 False
    "\<lambda>f w. flocks w f = Some Ex"
proof unfold_locales
  fix w u p
  show "rely w u \<Longrightarrow> flock_world w \<Longrightarrow> flock_world u" by (rule flock_world_rely)
  show "flock_world w \<Longrightarrow> 6 = LOCK_METHOD (plat w)" by (simp add: flock_world_def)
  assume w: "wf_world w" "flock_world w"
  have fl: "lmode_of (6 AND NOT 4) = Some Ex" by code_simp
  show "wp False (lock_acquire None None None)
      (\<lambda>f s. fst s = (slot_lock p 6)\<lparr>fl_fh := Some f\<rparr> \<and>
         slot_got flock_world (\<lambda>f w. flocks w f = Some Ex) f w (snd s))
      (\<lambda>e s. own_same w (snd s) \<and> wf_world (snd s) \<and> flock_world (snd s) \<and>
         is_Exception (exn_class e)) (slot_lock p 6, w)"
    by (rule wp_mono [OF flock_locker.acquire_wp [OF w(1) conjI [OF w(2) fl] slot_lock_simps(1,2)]])
       (use own_but_rely_but [OF own_same_refl] in
         \<open>auto simp: has_flag_def flock_locker.got_def slot_got_def dest: lib_exnD\<close>)
qed

section \<open>The names of the slots\<close>

lemma eff_run: "eff R m \<Longrightarrow> R w (snd (snd (m (l, w))))"
  by (simp add: eff_def)

lemma slot_rel_on_acquire:
  assumes "fl_filename k \<in> P"
  shows "eff (slot_rel P) (on_object k (lock_acquire t ci fwl))"
  using slot_rel_acquire [OF assms]
  by (auto simp: eff_def on_object_def split: prod.splits) (metis snd_conv)

lemma slot_rel_try_lock: "set ps \<subseteq> P \<Longrightarrow> eff (slot_rel P) (sem_try_lock ps)"
proof (induction ps)
  case (Cons p ps)
  then show ?case
    unfolding sem_try_lock_Cons set_slot_def
    by (intro eff_intros slot_rel_on_acquire) auto
qed (simp add: slot_eff.eff_ret)

lemma slot_rel_sem_acquire:
  assumes "set (get_filenames l) \<subseteq> P"
  shows "slot_rel P w (snd (snd (sem_acquire t ci fwl (l, w))))"
proof -
  have "eff (slot_rel P) (sem_attempt (get_filenames l) i u)" for i u
    unfolding sem_attempt_def by (intro eff_intros slot_rel_try_lock assms)
  then have "eff (slot_rel P) (retry_loop l t ci () (sem_attempt (get_filenames l)))"
    unfolding retry_loop_def by (intro eff_intros)
  note loop = this
  show ?thesis
    unfolding sem_acquire_def andthen_runs(2)
    by (rule eff_run) (intro eff_intros loop)
qed

lemma slot_rel_sem_release: "eff (slot_rel P) sem_release"
  unfolding sem_release_def set_slot_def
  by (intro eff_intros slot_rel_release)

section \<open>Releasing\<close>

text \<open>The slot objects never report release errors, so a release always succeeds.\<close>

lemma wp_sem_release:
  assumes "wf_world w" "sm_lock l = Some k" "fl_fh k = Some f" "\<not> fl_raise k"
    and "\<And>u. released f w u \<Longrightarrow> wf_world u \<Longrightarrow> Q () (l\<lparr>sm_lock := None\<rparr>, u)"
  shows "wp h sem_release Q E (l, w)"
proof -
  have "wp h lock_release (\<lambda>_ s. released f w (snd s) \<and> wf_world (snd s)) (\<lambda>_ _. False) (k, w)"
    by (rule wp_release [OF assms(1,3)]) (use assms(4) in auto)
  then show ?thesis
    using assms(2,5)
    by (auto simp: sem_release_def wp_simps set_slot_def elim!: wp_mono)
qed

section \<open>Properties\<close>

text \<open>
  C30: A semaphore acquire that returns a lock, on the default POSIX locker, under every
  interleaving and every failure of earlier calls: the object stores the lock, which is the lock
  of one of the slots and holds an exclusive \<^verbatim>\<open>flock\<close> on a new file object; if nobody removes slot
  files, that is the file the slot's name leads to.
\<close>

theorem sem_acquire_success:
  assumes "wf_world w" "flock_world w" "sm_lock l = None"
    and "sem_acquire t ci fwl (l, w) = (Done (Some k), (l', w'))"
  shows "l' = l\<lparr>sm_lock := Some k\<rparr> \<and> fl_filename k \<in> set (get_filenames l) \<and>
    (\<exists>f. fl_fh k = Some f \<and> \<not> mine w f \<and> mine w' f \<and> flocks w' f = Some Ex \<and> others_kept w w' \<and>
      (no_unlink (set (get_filenames l)) (tape w) \<longrightarrow>
         (\<exists>p \<in> set (get_filenames l). names_path p f w')))"
proof -
  from wp_DoneD [OF flock_slot.sem_acquire_wp [OF assms(1-3)] assms(4)]
  obtain p f where k: "p \<in> set (get_filenames l)" "l' = l\<lparr>sm_lock := Some k\<rparr>"
    "k = (slot_lock p 6)\<lparr>fl_fh := Some f\<rparr>" "slot_got flock_world (\<lambda>f w. flocks w f = Some Ex) f w w'"
    by (auto simp: flock_slot.sem_held_def)
  have "slot_rel (set (get_filenames l)) w w'"
    using slot_rel_sem_acquire [of l _ w t ci fwl] assms(4) by simp
  with k show ?thesis
    by (auto simp: slot_got_def own_but_others dest: slot_rel_names)
qed


text \<open>
  A semaphore acquire always returns, on every platform and with every locker: the slots are
  locked without blocking, and the retry policy is finite.
\<close>

lemma sem_acquire_returns:
  assumes "wf_world w"
  shows "fst (sem_acquire t ci fwl (l, w)) \<noteq> Hang"
proof (cases "sm_lock l")
  case None
  with assms show ?thesis by (intro wp_no_hang [OF any_slot.sem_acquire_wp]) simp_all
next
  case (Some k)
  then show ?thesis by (simp add: sem_acquire_def andthen_runs(2) throw_def)
qed

end
