(* ===== verification/SemaphoreSystem.thy ===== *)
theory SemaphoreSystem
  imports SemaphoreFacts
begin

text \<open>
  A process with any number of semaphore objects over the same slots, whose methods are called in
  any order among other processes that do anything but remove slot files. The invariant: an object
  that stores a lock holds a slot. With the kernel's promise the slots bound the holders.
\<close>

type_synonym sem_system = "(nat \<Rightarrow> semaphore) \<times> world"

text \<open>
  One step: a method of one object, an action of another process, or a change of the future: the
  rest of the tape is replaced.
\<close>

inductive sem_step :: "path set \<Rightarrow> sem_system \<Rightarrow> sem_system \<Rightarrow> bool" for P where
  acquire: "sem_acquire t ci fwl (objs i, w) = (r, (l', w')) \<Longrightarrow> sem_step P (objs, w) (objs(i := l'), w')"
| release: "sem_release (objs i, w) = (r, (l', w')) \<Longrightarrow> sem_step P (objs, w) (objs(i := l'), w')"
| env: "ev \<notin> EvUnlink ` P \<Longrightarrow> sem_step P (objs, w) (objs, env_step ev w)"
| future: "no_unlink P cells \<Longrightarrow> sem_step P (objs, w) (objs, w\<lparr>tape := cells\<rparr>)"

definition sem_initial :: "path set \<Rightarrow> sem_system \<Rightarrow> bool" where
  "sem_initial P s \<longleftrightarrow> wf_world (snd s) \<and> flock_world (snd s) \<and> no_unlink P (tape (snd s)) \<and>
     (\<forall>i. sm_lock (fst s i) = None \<and> set (get_filenames (fst s i)) \<subseteq> P)"

definition sem_holds :: "sem_system \<Rightarrow> nat \<Rightarrow> fd \<Rightarrow> bool" where
  "sem_holds s i f \<longleftrightarrow> (\<exists>k. sm_lock (fst s i) = Some k \<and> fl_fh k = Some f)"

text \<open>The handles, of any process, that hold an exclusive lock on the file of a slot.\<close>

definition slot_holders :: "path set \<Rightarrow> world \<Rightarrow> fd set" where
  "slot_holders P w = {f. flocks w f = Some Ex \<and> (\<exists>p \<in> P. names_path p f w)}"

section \<open>The invariant\<close>

definition holder_ok :: "path set \<Rightarrow> world \<Rightarrow> flock \<Rightarrow> bool" where
  "holder_ok P w k \<longleftrightarrow> \<not> fl_raise k \<and>
     (\<exists>f. fl_fh k = Some f \<and> mine w f \<and> f \<in> slot_holders P w)"

definition sem_inv :: "path set \<Rightarrow> sem_system \<Rightarrow> bool" where
  "sem_inv P s \<longleftrightarrow> wf_world (snd s) \<and> flock_world (snd s) \<and> no_unlink P (tape (snd s)) \<and>
     (\<forall>i. set (get_filenames (fst s i)) \<subseteq> P) \<and>
     (\<forall>i k. sm_lock (fst s i) = Some k \<longrightarrow> holder_ok P (snd s) k) \<and>
     (\<forall>i j f. sem_holds s i f \<longrightarrow> sem_holds s j f \<longrightarrow> i = j)"

lemma get_filenames_lock [simp]: "get_filenames (l\<lparr>sm_lock := k\<rparr>) = get_filenames l"
  by (simp add: get_filenames_def get_filename_def)

lemma sem_inv_lock: "sem_inv P s \<Longrightarrow> sm_lock (fst s i) = Some k \<Longrightarrow> holder_ok P (snd s) k"
  unfolding sem_inv_def by blast

lemma sem_inv_holds:
  assumes "sem_inv P s" "sem_holds s i f"
  shows "mine (snd s) f" "f \<in> slot_holders P (snd s)" "sem_holds s j f \<Longrightarrow> j = i"
proof -
  from assms(2) obtain k where k: "sm_lock (fst s i) = Some k" "fl_fh k = Some f"
    by (auto simp: sem_holds_def)
  then have "holder_ok P (snd s) k" using sem_inv_lock [OF assms(1)] by blast
  with k(2) show "mine (snd s) f" "f \<in> slot_holders P (snd s)" by (simp_all add: holder_ok_def)
  show "sem_holds s j f \<Longrightarrow> j = i" using assms unfolding sem_inv_def by blast
qed

lemma tape_irrelevant:
  "slot_holders P (w\<lparr>tape := cs\<rparr>) = slot_holders P w" "mine (w\<lparr>tape := cs\<rparr>) f = mine w f"
  "flock_world (w\<lparr>tape := cs\<rparr>) = flock_world w"
  by (simp_all add: slot_holders_def names_path_iff mine_iff flock_world_def)

text \<open>A handle that is kept still holds its slot, as long as names stay.\<close>

lemma slot_holders_kept:
  assumes "f \<in> slot_holders P w" "handles u f = handles w f" "flocks u f = flocks w f" "stays P w u"
  shows "f \<in> slot_holders P u"
  using assms by (auto simp: slot_holders_def names_path_iff stays_def)

lemma holder_ok_kept:
  assumes "holder_ok P w k" "stays P w u"
    and "\<And>f. fl_fh k = Some f \<Longrightarrow> mine w f \<Longrightarrow>
      mine u f \<and> handles u f = handles w f \<and> flocks u f = flocks w f"
  shows "holder_ok P u k"
  using assms slot_holders_kept [OF _ _ _ assms(2)] unfolding holder_ok_def by metis

lemma sem_inv_kept:
  assumes "sem_inv P (objs, w)" "slot_rel P w u" "wf_world u" "flock_world u"
    and "\<And>f. mine w f \<Longrightarrow> mine u f \<and> handles u f = handles w f \<and> flocks u f = flocks w f"
  shows "sem_inv P (objs, u)"
  using assms holder_ok_kept [of P w _ u]
  unfolding sem_inv_def slot_rel_def sem_holds_def fst_conv snd_conv by blast

lemma sem_inv_acquire:
  assumes "sem_inv P (objs, w)" "sem_acquire t ci fwl (objs i, w) = (r, (l', w'))"
  shows "sem_inv P (objs(i := l'), w')"
proof (cases "sm_lock (objs i)")
  case (Some k)
  then have "l' = objs i" "w' = w"
    using assms(2) by (simp_all add: sem_acquire_def andthen_runs(2) throw_def)
  with assms(1) show ?thesis by simp
next
  case None
  from assms(1) have I: "wf_world w" "flock_world w" "set (get_filenames (objs i)) \<subseteq> P"
    "no_unlink P (tape w)"
    by (simp_all add: sem_inv_def)
  have rel: "slot_rel P w w'"
    using slot_rel_sem_acquire [OF I(3), of w t ci fwl] assms(2) by simp
  note a = flock_slot.sem_acquire_wp [OF I(1,2) None, of t ci fwl]
  have free: "sem_inv P (objs(i := l'), w')" if "flock_slot.sem_free (objs i) w (l', w')"
  proof -
    from that have "l' = objs i" "own_same w w'" "wf_world w'" "flock_world w'"
      by (simp_all add: flock_slot.sem_free_def)
    then show ?thesis
      using sem_inv_kept [OF assms(1) rel] by (simp add: own_same_def)
  qed
  have held: "sem_inv P (objs(i := l'), w')" if "flock_slot.sem_held (objs i) w k (l', w')" for k
  proof -
    from that obtain f where k: "l' = (objs i)\<lparr>sm_lock := Some k\<rparr>" "fl_fh k = Some f" "\<not> fl_raise k"
      "\<not> mine w f" "mine w' f" "flocks w' f = Some Ex" "wf_world w'" "flock_world w'" "own_but f w w'"
      by (auto simp: flock_slot.sem_held_def slot_got_def)
    have "others_kept w w'" using own_but_others [OF k(9,4)] .
    then have J: "sem_inv P (objs, w')"
      using sem_inv_kept [OF assms(1) rel k(7,8)] by (simp add: others_kept_def)
    have "holder_ok P w' k"
      using k slot_rel_names [OF rel I(4) k(4,5)] by (auto simp: holder_ok_def slot_holders_def)
    moreover have "\<not> sem_holds (objs, w) j f" for j
      using sem_inv_holds(1) [OF assms(1)] k(4) by auto
    ultimately show ?thesis
      using J I(3) k(1,2) by (auto simp: sem_inv_def sem_holds_def)
  qed
  show ?thesis
    using a assms(2) free held wp_no_hang [OF a]
    by (cases r) (auto simp: wp_def flock_slot.sem_raises_def split: option.splits)
qed

lemma sem_inv_release:
  assumes "sem_inv P (objs, w)" "sem_release (objs i, w) = (r, (l', w'))"
  shows "sem_inv P (objs(i := l'), w')"
proof (cases "sm_lock (objs i)")
  case None
  then have "l' = objs i" "w' = w"
    using assms(2) by (simp_all add: sem_release_def andthen_runs(2) ret_def)
  with assms(1) show ?thesis by simp
next
  case (Some k)
  with sem_inv_lock [OF assms(1)] obtain f where f: "fl_fh k = Some f" "\<not> fl_raise k"
    by (auto simp: holder_ok_def)
  have wf: "wf_world w" using assms(1) by (simp add: sem_inv_def)
  have "wp False sem_release (\<lambda>_ s. fst s = (objs i)\<lparr>sm_lock := None\<rparr> \<and> released f w (snd s) \<and>
      wf_world (snd s)) (\<lambda>_ _. False) (objs i, w)"
    by (rule wp_sem_release [OF wf Some f]) simp
  with assms(2) have l': "l' = (objs i)\<lparr>sm_lock := None\<rparr>" "released f w w'" "wf_world w'"
    by (auto simp: wp_def split: res.splits)
  have rel: "slot_rel P w w'"
    using eff_run [OF slot_rel_sem_release, of P w "objs i"] assms(2) by simp
  have only: "j = i" if "sem_holds (objs, w) j f" for j
    using sem_inv_holds(3) [OF assms(1) _ that] Some f(1) by (simp add: sem_holds_def)
  have "flock_world w'"
    using assms(1) l'(2) flock_world_keeps by (auto simp: sem_inv_def released_def)
  moreover have "holder_ok P w' k'" if "sm_lock (objs j) = Some k'" "j \<noteq> i" for j k'
  proof (rule holder_ok_kept)
    show "holder_ok P w k'" using that(1) sem_inv_lock [OF assms(1)] by simp
    show "stays P w w'" using rel assms(1) by (simp add: slot_rel_def sem_inv_def)
    fix g assume g: "fl_fh k' = Some g" "mine w g"
    then have "g \<noteq> f" using only [of j] that by (auto simp: sem_holds_def)
    with g(2) l'(2) show "mine w' g \<and> handles w' g = handles w g \<and> flocks w' g = flocks w g"
      by (simp add: released_def rely_but_def)
  qed
  ultimately show ?thesis
    using assms(1) l' rel by (auto simp: sem_inv_def sem_holds_def slot_rel_def)
qed

lemma sem_inv_step: "sem_step P s s' \<Longrightarrow> sem_inv P s \<Longrightarrow> sem_inv P s'"
proof (induction rule: sem_step.induct)
  case (env ev objs w)
  then have "rely w (env_step ev w)" by (simp add: sem_inv_def rely_env_step)
  moreover from env(2) have "wf_world w" "flock_world w" by (simp_all add: sem_inv_def)
  ultimately show ?case
    using flock_world_rely by (intro sem_inv_kept [OF env(2) slot_rel_env_step [OF env(1)]]) (auto simp: rely_def)
next
  case (future cells objs w)
  then show ?case
    unfolding sem_inv_def sem_holds_def holder_ok_def fst_conv snd_conv tape_irrelevant
    by simp
qed (simp_all add: sem_inv_acquire sem_inv_release)

lemma sem_reachable_inv: "sem_initial P s0 \<Longrightarrow> (sem_step P)\<^sup>*\<^sup>* s0 s \<Longrightarrow> sem_inv P s"
proof (rotate_tac, induction rule: rtranclp_induct)
  case base
  then show ?case by (auto simp: sem_initial_def sem_inv_def sem_holds_def)
qed (rule sem_inv_step)

section \<open>The bound\<close>

lemma slot_holders_card:
  assumes "wf_world w" "finite P"
  shows "finite (slot_holders P w) \<and> card (slot_holders P w) \<le> card P"
proof -
  define slot where "slot f = (SOME p. p \<in> P \<and> names_path p f w)" for f
  have s: "slot f \<in> P" "names_path (slot f) f w" if "f \<in> slot_holders P w" for f
    using that someI_ex [of "\<lambda>p. p \<in> P \<and> names_path p f w"]
    by (auto simp: slot_holders_def slot_def)
  have "inj_on slot (slot_holders P w)"
  proof (rule inj_onI, rule ccontr)
    fix f g
    assume fg: "f \<in> slot_holders P w" "g \<in> slot_holders P w" "slot f = slot g" "f \<noteq> g"
    then have "same_file w f g" using s names_path_same_file by metis
    moreover have "flocks w f = Some Ex" "flocks w g = Some Ex" "locks_compatible w"
      using fg assms(1) by (simp_all add: slot_holders_def wf_world_def)
    ultimately show False
      using fg(4) unfolding locks_compatible_def by (metis lmode.distinct(1))
  qed
  moreover have "slot ` slot_holders P w \<subseteq> P" using s by blast
  ultimately show ?thesis
    using assms(2) by (meson card_inj_on_le inj_on_finite)
qed

lemma filenames_card: "card (set (get_filenames l)) \<le> nat (sm_maximum l)"
  by (rule order_trans [OF card_length]) (simp add: get_filenames_def)

text \<open>
  C4: A semaphore admits at most \<^verbatim>\<open>maximum\<close> holders. In every reachable state of a system whose
  objects share their slots, and in which nobody removes slot files, every object that stores a
  lock holds one of the slots, different objects hold different handles, and over this and all
  other processes at most \<^verbatim>\<open>maximum\<close> handles hold a slot.
\<close>

theorem semaphore_bound:
  assumes "sem_initial (set (get_filenames l)) s0"
    and "(sem_step (set (get_filenames l)))\<^sup>*\<^sup>* s0 s"
  shows "{f. \<exists>i. sem_holds s i f} \<subseteq> slot_holders (set (get_filenames l)) (snd s) \<and>
    (\<forall>i j f. sem_holds s i f \<longrightarrow> sem_holds s j f \<longrightarrow> i = j) \<and>
    card (slot_holders (set (get_filenames l)) (snd s)) \<le> nat (sm_maximum l)"
proof -
  let ?P = "set (get_filenames l)"
  have I: "sem_inv ?P s" using sem_reachable_inv [OF assms] .
  have "card (slot_holders ?P (snd s)) \<le> card ?P"
    using slot_holders_card [of "snd s" ?P] I by (simp add: sem_inv_def)
  also have "\<dots> \<le> nat (sm_maximum l)" by (rule filenames_card)
  finally have "card (slot_holders ?P (snd s)) \<le> nat (sm_maximum l)" .
  moreover have "{f. \<exists>i. sem_holds s i f} \<subseteq> slot_holders ?P (snd s)"
    using sem_inv_holds(2) [OF I] by blast
  moreover have "\<forall>i j f. sem_holds s i f \<longrightarrow> sem_holds s j f \<longrightarrow> i = j"
    using sem_inv_holds(3) [OF I] by blast
  ultimately show ?thesis by blast
qed

end
