(* ===== verification/SemaphoreNames.thy ===== *)
theory SemaphoreNames
  imports Semaphore "HOL-Library.Multiset"
begin

text \<open>
  The names of a semaphore's slots: with the default pattern they are distinct, so that there are
  exactly \<^verbatim>\<open>maximum\<close> of them, and the random order is a permutation of the fixed one.
\<close>

section \<open>Numbers with leading zeros\<close>

definition digits_value :: "string \<Rightarrow> nat" where
  "digits_value s = foldl (\<lambda>a c. 10 * a + digit_value c) 0 s"

lemma digits_value_snoc [simp]: "digits_value (s @ [c]) = 10 * digits_value s + digit_value c"
  by (simp add: digits_value_def)

lemma digits_value_decimal: "digits_value (decimal n) = n"
proof (induction n rule: decimal.induct)
  case (1 n)
  then show ?case
    by (subst decimal.simps) (auto simp: digits_value_def digit_char_simps)
qed

lemma digits_value_zeros: "digits_value (replicate k (CHR ''0'') @ s) = digits_value s"
  by (induction k) (simp_all add: digits_value_def digit_value_def)

lemma zero_pad_inj: "zero_pad k (decimal m) = zero_pad k (decimal n) \<Longrightarrow> m = n"
  by (metis digits_value_decimal digits_value_zeros zero_pad_def)

section \<open>Distinct names\<close>

lemma default_name:
  "py_format default_pattern name (int n) = name @ ''.'' @ zero_pad 2 (decimal n) @ ''.lock''"
  by (simp add: py_format_def default_pattern_def format_int_def)

lemma path_join_inj:
  assumes "path_join d x = path_join d y" "x \<noteq> []" "y \<noteq> []" "hd x = hd y"
  shows "x = y"
proof -
  define p where "p = (if d = [] \<or> hd x = CHR ''/'' then [] else if last d = CHR ''/'' then d else d @ ''/'')"
  have "path_join d z = p @ z" if "z \<noteq> []" "hd z = hd x" for z
    unfolding path_join_def p_def that(2) using that(1) by simp
  then show ?thesis using assms by (metis append_same_eq same_append_eq)
qed

lemma get_filename_inj:
  assumes "sm_pattern l = default_pattern" "get_filename l (int m) = get_filename l (int n)"
  shows "m = n"
proof -
  let ?x = "\<lambda>n. py_format default_pattern (sm_name l) (int n)"
  have "hd (?x m) = hd (?x n)" by (cases "sm_name l") (simp_all add: default_name)
  then have "?x m = ?x n"
    using assms path_join_inj [of "sm_directory l" "?x m" "?x n"]
    by (simp add: get_filename_def) (simp add: default_name)
  then have "zero_pad 2 (decimal m) = zero_pad 2 (decimal n)" by (simp add: default_name)
  then show ?thesis by (rule zero_pad_inj)
qed

text \<open>
  With the default pattern a semaphore has exactly \<^verbatim>\<open>maximum\<close> slots: the names of different
  numbers are different, also above 99, where the padding to two digits ends.
\<close>

lemma slot_names_distinct:
  assumes "sm_pattern l = default_pattern"
  shows "distinct (get_filenames l) \<and> length (get_filenames l) = nat (sm_maximum l)"
proof -
  have "inj (\<lambda>n. get_filename l (int n))"
    by (rule injI) (rule get_filename_inj [OF assms])
  then have "distinct (get_filenames l)"
    unfolding get_filenames_def by (simp add: distinct_map inj_on_def inj_def)
  then show ?thesis by (simp add: get_filenames_def)
qed

section \<open>The random order\<close>

lemma mset_swap_at: "i < length xs \<Longrightarrow> j < length xs \<Longrightarrow> mset (swap_at i j xs) = mset xs"
  using mset_swap [of j xs i] by (simp add: swap_at_def)

lemma mset_shuffle: "n < length xs \<or> n = 0 \<Longrightarrow> mset (shuffle_upto draw n xs) = mset xs"
proof (induction draw n xs rule: shuffle_upto.induct)
  case (2 draw i xs)
  let ?j = "draw (Suc i) mod Suc (Suc i)"
  have "?j < Suc (Suc i)" by simp
  with 2(2) have "mset (swap_at (Suc i) ?j xs) = mset xs" by (intro mset_swap_at) linarith+
  moreover have "length (swap_at (Suc i) ?j xs) = length xs" by (simp add: swap_at_def)
  ultimately show ?case using 2 by simp
qed simp

text \<open>
  The random order of the slots is a permutation of the fixed order, whatever numbers are
  drawn: a caller that sweeps it meets every slot exactly as often as \<^verbatim>\<open>acquire\<close> does.
\<close>

lemma random_filenames_permutation:
  "mset (get_random_filenames draw l) = mset (get_filenames l)"
proof -
  let ?xs = "get_filenames l"
  have "length ?xs - 1 < length ?xs \<or> length ?xs - 1 = 0" by (cases ?xs) auto
  then show ?thesis by (simp only: get_random_filenames_def Let_def mset_shuffle)
qed

end
