(* ===== verification/SemaphoreWitnesses.thy ===== *)
theory SemaphoreWitnesses
  imports SemaphoreSystem SemaphoreNames Witnesses
begin

text \<open>The properties of the semaphores applied at concrete inputs.\<close>

definition demo_sem :: semaphore where
  "demo_sem = \<lparr> lb_timeout = 0, lb_check_interval = 1 / 4, lb_fail_when_locked = True,
     sm_maximum = 2, sm_name = ''s'', sm_pattern = default_pattern, sm_directory = [], sm_lock = None \<rparr>"

lemma demo_sem_simps [simp]: "sm_lock demo_sem = None" "sm_maximum demo_sem = 2"
  "sm_pattern demo_sem = default_pattern"
  by (simp_all add: demo_sem_def)

lemma demo_filenames: "get_filenames demo_sem = [''s.00.lock'', ''s.01.lock'']"
  by code_simp

theorem slot_names_distinct_witness:
  "distinct (get_filenames demo_sem) \<and> length (get_filenames demo_sem) = 2"
  using slot_names_distinct [of demo_sem] by simp

definition slot_of :: "flock option res \<Rightarrow> fd option" where
  "slot_of r = (case r of Done (Some k) \<Rightarrow> fl_fh k | _ \<Rightarrow> None)"

lemma slot_of_Some: "slot_of (fst x) = Some f \<Longrightarrow> \<exists>k l w. x = (Done (Some k), (l, w)) \<and> fl_fh k = Some f"
  by (cases x) (auto simp: slot_of_def split: res.splits option.splits)

lemma demo_sem_acquire: "slot_of (fst (sem_acquire None None None (demo_sem, demo_world))) = Some 0"
  by code_simp

theorem sem_acquire_success_witness:
  "\<exists>k l' w'. sem_acquire None None None (demo_sem, demo_world) = (Done (Some k), (l', w')) \<and>
     sm_lock l' = Some k \<and> fl_fh k = Some 0 \<and> flocks w' 0 = Some Ex"
proof -
  obtain k l' w' where r: "sem_acquire None None None (demo_sem, demo_world) = (Done (Some k), (l', w'))"
    "fl_fh k = Some 0"
    using slot_of_Some [OF demo_sem_acquire] by blast
  from sem_acquire_success [OF wf_demo(1) flock_demo(1) demo_sem_simps(1) r(1)] r(2)
  have "sm_lock l' = Some k" "flocks w' 0 = Some Ex" by auto
  with r show ?thesis by blast
qed

text \<open>Both slots are taken by another process.\<close>

definition full_world :: world where
  "full_world = demo_world\<lparr>tape :=
     [\<lparr> c_env = [EvOpen 2 ''s.00.lock'', EvFlock 0 Ex, EvOpen 2 ''s.01.lock'', EvFlock 1 Ex],
        c_fault = None, c_win = (\<lambda>_. None) \<rparr>]\<rparr>"

lemma wf_full [simp]: "wf_world full_world"
  by (simp add: full_world_def)

lemma full_acquire:
  "class_of (fst (sem_acquire None None None (demo_sem, full_world))) = Some CAlreadyLocked"
  by code_simp


theorem sem_acquire_returns_witness:
  "fst (sem_acquire (Some 7) None None (demo_sem, full_world)) \<noteq> Hang"
  by (rule sem_acquire_returns) simp

text \<open>Two objects take a slot each; a third one finds the semaphore full.\<close>

definition first_taken :: "semaphore \<times> world" where
  "first_taken = snd (sem_acquire None None None (demo_sem, demo_world))"

definition second_taken :: "semaphore \<times> world" where
  "second_taken = snd (sem_acquire None None None (demo_sem, snd first_taken))"

definition demo_sem_system :: sem_system where
  "demo_sem_system = ((\<lambda>_. demo_sem)(0 := fst first_taken, 1 := fst second_taken), snd second_taken)"

lemma sem_step_acquire:
  "sem_acquire t ci fwl (objs i, w) = z \<Longrightarrow>
   sem_step P (objs, w) (objs(i := fst (snd z)), snd (snd z))"
  using sem_step.acquire [of t ci fwl objs i w "fst z" "fst (snd z)" "snd (snd z)" P] by simp

lemma demo_sem_reachable:
  "(sem_step (set (get_filenames demo_sem)))\<^sup>*\<^sup>* (\<lambda>_. demo_sem, demo_world) demo_sem_system"
proof -
  let ?P = "set (get_filenames demo_sem)" and ?o = "(\<lambda>_. demo_sem)(0 := fst first_taken)"
  have "sem_step ?P (\<lambda>_. demo_sem, demo_world) (?o, snd first_taken)"
    unfolding first_taken_def by (rule sem_step_acquire) simp
  moreover have "sem_step ?P (?o, snd first_taken) demo_sem_system"
    unfolding demo_sem_system_def second_taken_def by (rule sem_step_acquire) simp
  ultimately show ?thesis by (meson r_into_rtranclp rtranclp.rtrancl_into_rtrancl)
qed

theorem semaphore_bound_witness:
  "sem_holds demo_sem_system 0 0 \<and> sem_holds demo_sem_system 1 2 \<and>
   card (slot_holders (set (get_filenames demo_sem)) (snd demo_sem_system)) \<le> 2 \<and>
   class_of (fst (sem_acquire None None None (demo_sem, snd demo_sem_system))) = Some CAlreadyLocked"
proof -
  have "Option.bind (sm_lock (fst first_taken)) fl_fh = Some 0"
    "Option.bind (sm_lock (fst second_taken)) fl_fh = Some 2"
    "class_of (fst (sem_acquire None None None (demo_sem, snd demo_sem_system))) = Some CAlreadyLocked"
    by code_simp+
  moreover have "sem_initial (set (get_filenames demo_sem)) (\<lambda>_. demo_sem, demo_world)"
    by (simp add: sem_initial_def no_unlink_def)
  ultimately show ?thesis
    using semaphore_bound [OF _ demo_sem_reachable]
    by (auto simp: sem_holds_def demo_sem_system_def bind_eq_Some_conv)
qed

end
