(* ===== verification/AtomicFile.thy ===== *)
theory AtomicFile
  imports OsCalls
begin

text \<open>
  The context manager \<^verbatim>\<open>open_atomic\<close> of \<^verbatim>\<open>utils.py\<close>: the block writes to a temporary file, which
  is published under the destination's name with an operation that refuses an existing name.
\<close>

section \<open>Publishing operations\<close>

text \<open>\<^verbatim>\<open>os.link\<close> adds a name to a file, \<^verbatim>\<open>os.rename\<close> on Windows moves one; both need a free name.\<close>

definition k_link :: "path \<Rightarrow> path \<Rightarrow> world \<Rightarrow> unit res \<times> world" where
  "k_link src dst w = (case paths w src of
      None \<Rightarrow> (Raise (os_error ENOENT), w)
    | Some i \<Rightarrow>
        if paths w dst \<noteq> None then (Raise (os_error EEXIST), w)
        else (Done (), w\<lparr>paths := (paths w)(dst \<mapsto> i)\<rparr>))"

definition k_rename :: "path \<Rightarrow> path \<Rightarrow> world \<Rightarrow> unit res \<times> world" where
  "k_rename src dst w = (case paths w src of
      None \<Rightarrow> (Raise (os_error ENOENT), w)
    | Some i \<Rightarrow>
        if paths w dst \<noteq> None then (Raise (os_error EEXIST), w)
        else (Done (), w\<lparr>paths := (paths w)(src := None, dst \<mapsto> i)\<rparr>))"

definition os_link :: "path \<Rightarrow> path \<Rightarrow> ('l \<times> world, unit) act" where
  "os_link src dst = syscall (k_link src dst)"

definition os_rename :: "path \<Rightarrow> path \<Rightarrow> ('l \<times> world, unit) act" where
  "os_rename src dst = syscall (k_rename src dst)"

text \<open>
  Directories are not modelled: \<^verbatim>\<open>Path.mkdir(parents=True, exist_ok=True)\<close> may fail and has no
  other effect. \<^verbatim>\<open>tempfile.NamedTemporaryFile(delete=False)\<close> tries random names, here a given
  list, until one is free; the file is opened exclusively.
\<close>

definition py_mkdir :: "path \<Rightarrow> ('l \<times> world, unit) act" where
  "py_mkdir p = syscall (\<lambda>w. (Done (), w))"

fun named_temporary_file :: "path list \<Rightarrow> ('l \<times> world, fd \<times> path) act" where
  "named_temporary_file [] = throw (os_error EEXIST)"
| "named_temporary_file (n # ns) =
     try_else (sys_open n ''x'')
       (\<lambda>e. if exn_class e = COSError EEXIST then named_temporary_file ns else throw e)
       (\<lambda>f. ret (f, n))"

definition path_parent :: "path \<Rightarrow> path" where
  "path_parent p =
     (case dropWhile (\<lambda>c. c \<noteq> CHR ''/'') (rev p) of
        [] \<Rightarrow> ''.''
      | [c] \<Rightarrow> ''/''
      | c # d \<Rightarrow> rev d)"

section \<open>\<^verbatim>\<open>open_atomic\<close>\<close>

text \<open>
  \<open>names\<close> are the random names of the temporary file, \<open>block\<close> is the body of the \<^verbatim>\<open>with\<close>
  statement: it runs where the generator yields.
\<close>

definition atomic_write :: "fd \<Rightarrow> (fd \<Rightarrow> ('l \<times> world, unit) act) \<Rightarrow> ('l \<times> world, unit) act" where
  "atomic_write f block =
     try_finally
       (andthen (block f) (\<lambda>_. andthen (fh_flush f) (\<lambda>_. andthen (py_fileno f) os_fsync)))
       (fh_close f)"

definition atomic_publish :: "path \<Rightarrow> path \<Rightarrow> ('l \<times> world, unit) act" where
  "atomic_publish temp path = andthen (env_get plat) (\<lambda>os_name.
     try_finally
       (if os_name = NT then os_rename temp path else os_link temp path)
       (suppress is_Exception (os_unlink temp)))"

definition open_atomic ::
  "path \<Rightarrow> path list \<Rightarrow> (fd \<Rightarrow> ('l \<times> world, unit) act) \<Rightarrow> ('l \<times> world, unit) act" where
  "open_atomic filename names block =
     andthen (os_path_exists filename) (\<lambda>exists.
       if exists then throw (plain_exn CAssertionError [AJoin [AStr filename, AStr '' exists'']])
       else andthen (py_mkdir (path_parent filename)) (\<lambda>_.
         andthen (named_temporary_file names) (\<lambda>(f, temp).
         andthen (atomic_write f block) (\<lambda>_. atomic_publish temp filename))))"

text \<open>A block that writes some pieces of text and then ends or raises.\<close>

fun write_pieces :: "string list \<Rightarrow> exn option \<Rightarrow> fd \<Rightarrow> ('l \<times> world, unit) act" where
  "write_pieces [] err f = (case err of None \<Rightarrow> ret () | Some e \<Rightarrow> throw e)"
| "write_pieces (s # ss) err f = andthen (fh_write f s) (\<lambda>_. write_pieces ss err f)"

end
