(* ===== verification/AtomicFacts.thy ===== *)
theory AtomicFacts
  imports AtomicFile SlotNames
begin

text \<open>
  What \<^verbatim>\<open>open_atomic\<close> guarantees: under every pattern of failing calls the destination appears
  with the whole text or does not appear, and a destination that another process creates meanwhile
  is never replaced.
\<close>

section \<open>Failures without interference\<close>

definition alone :: "world \<Rightarrow> bool" where
  "alone w \<longleftrightarrow> (\<forall>c \<in> set (tape w). c_env c = [])"

lemma pop_alone:
  assumes "alone w"
  obtains flt cs where "pop w = (flt, w\<lparr>tape := cs\<rparr>)" "alone (w\<lparr>tape := cs\<rparr>)"
proof (cases "tape w")
  case Nil
  with assms that [of None "[]"] show ?thesis by (simp add: pop_def alone_def)
next
  case (Cons c cs)
  with assms that [of "c_fault c" cs] show ?thesis by (simp add: pop_def alone_def)
qed

lemma alone_update [simp]:
  "alone (w\<lparr>content := c\<rparr>) = alone w" "alone (w\<lparr>handles := hs\<rparr>) = alone w"
  "alone (w\<lparr>paths := ps\<rparr>) = alone w"
  by (simp_all add: alone_def)

lemma wp_syscall_alone:
  assumes "alone w"
    and "\<And>cs e. alone (w\<lparr>tape := cs\<rparr>) \<Longrightarrow> E (fault_exn e) (l, w\<lparr>tape := cs\<rparr>)"
    and "\<And>cs. alone (w\<lparr>tape := cs\<rparr>) \<Longrightarrow> wp h (\<lambda>(l, w). case k w of (r, w') \<Rightarrow> (r, (l, w'))) Q E (l, w\<lparr>tape := cs\<rparr>)"
  shows "wp h (syscall k) Q E (l, w)"
proof -
  obtain flt cs where p: "pop w = (flt, w\<lparr>tape := cs\<rparr>)" "alone (w\<lparr>tape := cs\<rparr>)"
    using assms(1) by (rule pop_alone)
  show ?thesis
    using assms(2) [OF p(2)] assms(3) [OF p(2)] p(1)
    by (cases flt) (simp_all add: wp_def syscall_def)
qed

text \<open>
  The temporary file while it is open: the names are as before and \<open>n\<close>, which names inode \<open>i\<close>;
  \<open>f\<close> writes to it at its end, \<open>b\<close> is buffered and \<open>c\<close> is in the file.
\<close>

definition draft ::
  "(path \<rightharpoonup> ino) \<Rightarrow> path \<Rightarrow> ino \<Rightarrow> fd \<Rightarrow> string \<Rightarrow> string \<Rightarrow> 'l \<times> world \<Rightarrow> bool" where
  "draft names n i f b c s \<longleftrightarrow> alone (snd s) \<and> names n = None \<and> paths (snd s) = names(n \<mapsto> i) \<and>
     content (snd s) i = c \<and> (\<exists>h. handles (snd s) f = Some h \<and> h_ino h = i \<and>
     h_owner h = mypid (snd s) \<and> h_writable h \<and> \<not> h_append h \<and> h_buf h = b \<and> h_pos h = length c)"

definition closed :: "(path \<rightharpoonup> ino) \<Rightarrow> path \<Rightarrow> ino \<Rightarrow> string \<Rightarrow> 'l \<times> world \<Rightarrow> bool" where
  "closed names n i c s \<longleftrightarrow> alone (snd s) \<and> names n = None \<and> paths (snd s) = names(n \<mapsto> i) \<and>
     content (snd s) i = c"

lemmas draft_defs = draft_def on_handle_def own_handle_def mine_def

lemma draft_tape: "draft names n i f b c (l, w) \<Longrightarrow> alone (w\<lparr>tape := cs\<rparr>) \<Longrightarrow>
    draft names n i f b c (l, w\<lparr>tape := cs\<rparr>)"
  by (simp add: draft_def)

lemma draft_alone: "draft names n i f b c (l, w) \<Longrightarrow> alone w"
  by (simp add: draft_def)

lemma draft_call:
  assumes "draft names n i f b c s"
    and "\<And>l w. draft names n i f b c (l, w) \<Longrightarrow>
      wp False (\<lambda>(l, w). case k w of (r, w') \<Rightarrow> (r, (l, w'))) Q (\<lambda>_. draft names n i f b c) (l, w)"
  shows "wp False (syscall k) Q (\<lambda>_. draft names n i f b c) s"
proof -
  obtain l w where s: "s = (l, w)" by (cases s)
  note d = draft_tape [OF assms(1) [unfolded s]]
  show ?thesis
    unfolding s
  proof (rule wp_syscall_alone)
    show "alone w" using assms(1) by (simp add: s draft_def)
  qed (use assms(2) d in blast)+
qed

lemma draft_write:
  "draft names n i f b c s \<Longrightarrow>
   wp False (fh_write f t) (\<lambda>_. draft names n i f (b @ t) c) (\<lambda>_. draft names n i f b c) s"
  unfolding fh_write_def on_handle_def
  by (erule draft_call) (auto simp: draft_defs wp_def)

lemma draft_flush:
  "draft names n i f b c s \<Longrightarrow>
   wp False (fh_flush f) (\<lambda>_. draft names n i f [] (c @ b)) (\<lambda>_. draft names n i f b c) s"
  unfolding fh_flush_def on_handle_def
  by (erule draft_call) (auto simp: draft_defs wp_def k_flush_def Let_def write_at_def)

lemma draft_sync:
  assumes "draft names n i f b c s"
  shows "wp False (andthen (py_fileno f) os_fsync) (\<lambda>_. draft names n i f b c)
    (\<lambda>_. draft names n i f b c) s"
proof -
  have "mine (snd s) f" using assms by (auto simp: draft_defs)
  moreover have "wp False (os_fsync f) (\<lambda>_. draft names n i f b c) (\<lambda>_. draft names n i f b c) s"
    unfolding os_fsync_def on_handle_def
    by (rule draft_call [OF assms]) (auto simp: draft_defs wp_def)
  ultimately show ?thesis by (cases s) (simp add: wp_def andthen_def py_fileno_def)
qed

lemma drop_handle_fields [simp]:
  "tape (drop_handle f w) = tape w" "paths (drop_handle f w) = paths w"
  "content (drop_handle f w) = content w"
  by (simp_all add: drop_handle_def split: option.split)

lemma k_flush_fields [simp]: "tape (k_flush f w) = tape w" "paths (k_flush f w) = paths w"
  by (simp_all add: k_flush_def Let_def split: option.split)

lemma draft_flushed: "draft names n i f b c (l, w) \<Longrightarrow> content (k_flush f w) i = c @ b"
  by (auto simp: draft_def k_flush_def Let_def write_at_def)

lemma draft_mine: "draft names n i f b c (l, w) \<Longrightarrow> mine w f"
  by (auto simp: draft_defs)

lemma draft_close:
  assumes "draft names n i f b c s"
  shows "wp False (fh_close f) (\<lambda>_. closed names n i (c @ b)) (\<lambda>_ t. \<exists>c'. closed names n i c' t) s"
proof -
  obtain l w where s: "s = (l, w)" by (cases s)
  have "alone w" using assms by (simp add: s draft_def)
  then obtain flt cs where p: "pop w = (flt, w\<lparr>tape := cs\<rparr>)" "alone (w\<lparr>tape := cs\<rparr>)"
    by (rule pop_alone)
  from draft_tape [OF assms [unfolded s] p(2)]
  have d: "draft names n i f b c (l, w\<lparr>tape := cs\<rparr>)" .
  show ?thesis
    using p draft_flushed [OF d] draft_mine [OF d] d
    by (cases flt) (auto simp: s wp_def fh_close_def closed_def draft_def alone_def)
qed

text \<open>Some draft, or some closed file: what is known after a failure.\<close>

definition spoiled :: "(path \<rightharpoonup> ino) \<Rightarrow> path \<Rightarrow> ino \<Rightarrow> fd \<Rightarrow> 'l \<times> world \<Rightarrow> bool" where
  "spoiled names n i f s \<longleftrightarrow> (\<exists>b c. draft names n i f b c s)"

definition abandoned :: "(path \<rightharpoonup> ino) \<Rightarrow> path \<Rightarrow> ino \<Rightarrow> 'l \<times> world \<Rightarrow> bool" where
  "abandoned names n i s \<longleftrightarrow> (\<exists>c. closed names n i c s)"

lemma draft_spoiled: "draft names n i f b c s \<Longrightarrow> spoiled names n i f s"
  by (auto simp: spoiled_def)

lemma spoiled_close:
  "spoiled names n i f s \<Longrightarrow>
   wp False (fh_close f) (\<lambda>_. abandoned names n i) (\<lambda>_. abandoned names n i) s"
  unfolding spoiled_def by (elim exE) (rule wp_mono [OF draft_close]; auto simp: abandoned_def)

lemma draft_pieces:
  "draft names n i f b c s \<Longrightarrow>
   wp False (write_pieces ss err f) (\<lambda>_ t. err = None \<and> draft names n i f (b @ concat ss) c t)
     (\<lambda>_. spoiled names n i f) s"
proof (induction ss arbitrary: b s)
  case Nil
  then show ?case by (cases err) (auto simp: wp_simps draft_spoiled)
next
  case (Cons t ss)
  show ?case
    unfolding write_pieces.simps wp_andthen
    by (rule wp_mono [OF draft_write [OF Cons.prems]])
       (auto intro: wp_mono [OF Cons.IH] draft_spoiled)
qed

lemma draft_body:
  assumes "draft names n i f [] [] s"
  shows "wp False (atomic_write f (write_pieces ss err))
    (\<lambda>_ t. err = None \<and> closed names n i (concat ss) t) (\<lambda>_. abandoned names n i) s"
proof -
  have sync: "wp False (andthen (fh_flush f) (\<lambda>_. andthen (py_fileno f) os_fsync))
      (\<lambda>_. draft names n i f [] (concat ss)) (\<lambda>_. spoiled names n i f) t"
    if "draft names n i f (concat ss) [] t" for t
    unfolding wp_andthen [of _ "fh_flush f"]
    by (rule wp_mono [OF draft_flush [OF that]])
       (auto intro: wp_mono [OF draft_sync] draft_spoiled)
  have good: "wp False (fh_close f) (\<lambda>_. closed names n i (concat ss)) (\<lambda>_. abandoned names n i) t"
    if "draft names n i f [] (concat ss) t" for t
    by (rule wp_mono [OF draft_close [OF that]]) (auto simp: abandoned_def)
  have bad: "wp False (fh_close f) (\<lambda>_. abandoned names n i) (\<lambda>_. abandoned names n i) t"
    if "spoiled names n i f t" for t :: "'a \<times> world"
    using that by (rule spoiled_close)
  show ?thesis
    unfolding atomic_write_def wp_try_finally wp_andthen [of _ "write_pieces ss err f"]
  proof (rule wp_mono [OF draft_pieces [OF assms, of ss err]], goal_cases)
    case (1 x t)
    then have "draft names n i f (concat ss) [] t" "err = None" by simp_all
    from sync [OF this(1)] show ?case
      by (rule wp_mono) (use good \<open>err = None\<close> bad in auto)
  qed (use bad in auto)
qed

section \<open>The temporary file and the publication\<close>

lemma closed_tape: "closed names n i c (l, w) \<Longrightarrow> alone (w\<lparr>tape := cs\<rparr>) \<Longrightarrow>
    closed names n i c (l, w\<lparr>tape := cs\<rparr>)"
  by (simp add: closed_def)

text \<open>The names after an attempt to remove the temporary one.\<close>

definition only_temp :: "(path \<rightharpoonup> ino) \<Rightarrow> path set \<Rightarrow> 'l \<times> world \<Rightarrow> bool" where
  "only_temp names N s \<longleftrightarrow> (\<forall>q. q \<notin> N \<longrightarrow> paths (snd s) q = names q)"

definition published :: "(path \<rightharpoonup> ino) \<Rightarrow> path set \<Rightarrow> path \<Rightarrow> string \<Rightarrow> 'l \<times> world \<Rightarrow> bool" where
  "published names N dst c s \<longleftrightarrow> names dst = None \<and> (\<exists>i. paths (snd s) dst = Some i \<and> content (snd s) i = c) \<and>
     (\<forall>q. q \<notin> N \<longrightarrow> q \<noteq> dst \<longrightarrow> paths (snd s) q = names q)"

lemma remove_temp:
  assumes "alone w"
  shows "wp False (suppress is_Exception (os_unlink n))
    (\<lambda>_ (l', u). l' = l \<and> content u = content w \<and> (\<forall>q. q \<noteq> n \<longrightarrow> paths u q = paths w q)) E (l, w)"
  unfolding os_unlink_def wp_suppress
  by (rule wp_syscall_alone [OF assms])
     (auto simp: wp_def k_unlink_def split: option.splits)

lemma wp_publish:
  assumes "closed names n i c (l, w)" "n \<noteq> dst"
  shows "wp False (atomic_publish n dst) (\<lambda>_. published names {n} dst c)
    (\<lambda>_. only_temp names {n}) (l, w)"
proof -
  define rm :: "('a \<times> world, unit) act" where "rm = suppress is_Exception (os_unlink n)"
  have bad: "wp False rm (\<lambda>_. only_temp names {n}) (\<lambda>_. only_temp names {n}) (l, u)"
    if "closed names n i c (l, u)" for u
    unfolding rm_def
    by (rule wp_mono [OF remove_temp]) (use that in \<open>auto simp: closed_def only_temp_def\<close>)
  have good: "wp False rm (\<lambda>_. published names {n} dst c) (\<lambda>_. only_temp names {n}) (l, u)"
    if "alone u" "names dst = None" "paths u dst = Some i" "content u i = c"
      "\<forall>q. q \<noteq> n \<longrightarrow> q \<noteq> dst \<longrightarrow> paths u q = names q" for u
    unfolding rm_def
    by (rule wp_mono [OF remove_temp [OF that(1)]])
       (use that(2-) assms(2) in \<open>auto simp: published_def\<close>)
  note d = closed_tape [OF assms(1)]
  have link: "wp False (syscall k)
      (\<lambda>x. wp False rm (\<lambda>_. published names {n} dst c) (\<lambda>_. only_temp names {n}))
      (\<lambda>e. wp False rm (\<lambda>_. only_temp names {n}) (\<lambda>_. only_temp names {n})) (l, w)"
    if k: "k \<in> {k_link n dst, k_rename n dst}" for k
  proof (rule wp_syscall_alone)
    show "alone w" using assms(1) by (simp add: closed_def)
    fix cs assume cs: "alone (w\<lparr>tape := cs\<rparr>)"
    note dc = d [OF cs]
    from bad [OF dc] show "wp False rm (\<lambda>_. only_temp names {n}) (\<lambda>_. only_temp names {n}) (l, w\<lparr>tape := cs\<rparr>)" .
    have "paths w n = Some i" "paths w dst = names dst" "alone (w\<lparr>tape := cs\<rparr>)" "content w i = c"
      "\<And>q. q \<noteq> n \<Longrightarrow> paths w q = names q"
      using dc assms(2) by (simp_all add: closed_def)
    then show "wp False (\<lambda>(l, w). case k w of (r, w') \<Rightarrow> (r, l, w'))
      (\<lambda>x. wp False rm (\<lambda>_. published names {n} dst c) (\<lambda>_. only_temp names {n}))
      (\<lambda>e. wp False rm (\<lambda>_. only_temp names {n}) (\<lambda>_. only_temp names {n})) (l, w\<lparr>tape := cs\<rparr>)"
      using k bad [OF dc] good
      by (cases "names dst")
         (auto simp: wp_def [of _ "\<lambda>(l, w). _ l w"] k_link_def k_rename_def)
  qed
  then show ?thesis
    unfolding atomic_publish_def os_link_def os_rename_def rm_def [symmetric] wp_andthen wp_env_get
      prod.case wp_try_finally wp_if if_apply by simp
qed

lemma wp_named_temporary:
  "alone w \<Longrightarrow> wp False (named_temporary_file ns)
    (\<lambda>(f, n) s. n \<in> set ns \<and> (\<exists>i. draft (paths w) n i f [] [] s))
    (\<lambda>_ s. paths (snd s) = paths w) (l, w)"
proof (induction ns arbitrary: w)
  case Nil
  then show ?case by (simp add: wp_simps)
next
  case (Cons n ns)
  have x: "parse_mode ''x'' = Some (OpenExclusive, False)" by (simp add: parse_mode_def)
  let ?Q = "\<lambda>(f, n) s. n \<in> set (n # ns) \<and> (\<exists>i. draft (paths w) n i f [] [] s)"
  have again: "wp False (if exn_class e = COSError EEXIST then named_temporary_file ns else throw e)
      (\<lambda>(f, n') s. n' \<in> set (n # ns) \<and> (\<exists>i. draft (paths w) n' i f [] [] s))
      (\<lambda>_ s. paths (snd s) = paths w) (l, w\<lparr>tape := cs\<rparr>)" if "alone (w\<lparr>tape := cs\<rparr>)" for e cs
    using wp_mono [OF Cons.IH [OF that]] by (auto simp: wp_simps)
  show ?case
    unfolding named_temporary_file.simps wp_try_else sys_open_def
  proof (rule wp_syscall_alone [OF Cons.prems])
    fix cs assume cs: "alone (w\<lparr>tape := cs\<rparr>)"
    show "wp False (\<lambda>(l, w). case k_open (mypid w) n ''x'' w of (r, w') \<Rightarrow> (r, l, w'))
        (\<lambda>f. wp False (ret (f, n)) (\<lambda>(f, n') s. n' \<in> set (n # ns) \<and> (\<exists>i. draft (paths w) n' i f [] [] s))
          (\<lambda>_ s. paths (snd s) = paths w))
        (\<lambda>e. wp False (if exn_class e = COSError EEXIST then named_temporary_file ns else throw e)
          (\<lambda>(f, n') s. n' \<in> set (n # ns) \<and> (\<exists>i. draft (paths w) n' i f [] [] s))
          (\<lambda>_ s. paths (snd s) = paths w)) (l, w\<lparr>tape := cs\<rparr>)"
    proof (cases "paths w n")
      case None
      with cs x show ?thesis
        by (simp add: wp_def [of _ "\<lambda>(l, w). _ l w"] k_open_def wp_ret draft_def add_handle_def
            create_file_def new_handle_def alone_def)
    next
      case (Some i)
      with again [OF cs, of "os_error EEXIST"] x show ?thesis
        by (simp add: wp_def [of _ "\<lambda>(l, w). _ l w"] k_open_def)
    qed
  qed (rule again)
qed

section \<open>Properties\<close>

lemma wp_Done: "m s = (Done x, t) \<Longrightarrow> wp h m Q E s = Q x t"
  by (simp add: wp_def)

lemma wp_Pair: "wp h (Pair (Done x)) Q E s = Q x s"
  by (simp add: wp_def)

lemma wp_open_atomic:
  assumes "alone w" "p \<notin> set names"
  shows "wp False (open_atomic p names (write_pieces ss err))
    (\<lambda>_ s. err = None \<and> published (paths w) (set names) p (concat ss) s)
    (\<lambda>_. only_temp (paths w) (set names)) (l, w)"
    (is "wp _ _ ?Q ?E _")
proof -
  have same: "only_temp (paths w) (set names) (l, w\<lparr>tape := cs\<rparr>)" for cs
    by (simp add: only_temp_def)
  have publish: "wp False (atomic_publish n p) ?Q ?E t"
    if "closed (paths w) n i (concat ss) t" "n \<in> set names" "err = None" for n i t
  proof -
    have "n \<noteq> p" using assms(2) that(2) by auto
    with that(1) have "wp False (atomic_publish n p) (\<lambda>_. published (paths w) {n} p (concat ss))
        (\<lambda>_. only_temp (paths w) {n}) t"
      by (cases t) (simp add: wp_publish)
    then show ?thesis
      by (rule wp_mono) (use that(2,3) in \<open>auto simp: published_def only_temp_def\<close>)
  qed
  have body: "wp False (andthen (atomic_write f (write_pieces ss err)) (\<lambda>_. atomic_publish n p)) ?Q ?E t"
    if "draft (paths w) n i f [] [] t" "n \<in> set names" for f n i t
    unfolding wp_andthen
    by (rule wp_mono [OF draft_body [OF that(1)]])
       (use publish that(2) in \<open>auto simp: abandoned_def closed_def only_temp_def\<close>)
  have temp: "wp False (andthen (named_temporary_file names) (\<lambda>(f, temp).
         andthen (atomic_write f (write_pieces ss err)) (\<lambda>_. atomic_publish temp p))) ?Q ?E (l, w\<lparr>tape := cs\<rparr>)"
    if "alone (w\<lparr>tape := cs\<rparr>)" for cs
    unfolding wp_andthen [of _ "named_temporary_file _"]
    by (rule wp_mono [OF wp_named_temporary [OF that]]) (use body in \<open>auto simp: only_temp_def\<close>)
  have dir: "wp False (andthen (py_mkdir (path_parent p)) (\<lambda>_. andthen (named_temporary_file names) (\<lambda>(f, temp).
         andthen (atomic_write f (write_pieces ss err)) (\<lambda>_. atomic_publish temp p)))) ?Q ?E (l, w\<lparr>tape := cs\<rparr>)"
    if "alone (w\<lparr>tape := cs\<rparr>)" for cs
    unfolding py_mkdir_def wp_andthen [of _ "syscall _"]
    by (rule wp_syscall_alone [OF that])
       (use temp in \<open>auto simp: wp_Pair only_temp_def\<close>)
  obtain flt cs where c: "pop w = (flt, w\<lparr>tape := cs\<rparr>)" "alone (w\<lparr>tape := cs\<rparr>)"
    using assms(1) by (rule pop_alone)
  have ex: "os_path_exists p (l, w) = (Done (flt = None \<and> paths w p \<noteq> None), (l, w\<lparr>tape := cs\<rparr>))"
    using c(1) by (simp add: os_path_exists_def)
  show ?thesis
    unfolding open_atomic_def wp_andthen [of _ "os_path_exists _"] wp_Done [where m = "os_path_exists p" and s = "(l, w)", OF ex]
    using dir [OF c(2)] by (simp add: wp_if if_apply wp_throw same)
qed

text \<open>
  C7: All or nothing: when no other process interferes, under every pattern of failing calls and
  for a block that writes any text and may raise, the destination either appears under a free name
  with the whole text, and the context manager ends normally, or an exception leaves it and the
  destination is as before. All other names but the temporary ones are as before.
\<close>

theorem open_atomic_all_or_nothing:
  assumes "alone w" "p \<notin> set names"
    and "open_atomic p names (write_pieces ss err) (l, w) = (r, (l', w'))"
  shows "(case r of
       Done _ \<Rightarrow> err = None \<and> paths w p = None \<and> (\<exists>i. paths w' p = Some i \<and> content w' i = concat ss)
     | Raise e \<Rightarrow> paths w' p = paths w p
     | Hang \<Rightarrow> False) \<and> (\<forall>q. q \<noteq> p \<longrightarrow> q \<notin> set names \<longrightarrow> paths w' q = paths w q)"
  using wp_open_atomic [OF assms(1,2), of ss err l] assms(2,3)
  by (cases r) (auto simp: wp_def published_def only_temp_def)

text \<open>
  C32: Publication never replaces a destination. However other processes interfere, short of
  removing it themselves, a destination that exists when publication starts still has its file
  afterwards, and publication raises.
\<close>

theorem atomic_publish_never_replaces:
  assumes "no_unlink {p} (tape w)" "paths w p = Some i" "temp \<noteq> p"
    and "atomic_publish temp p (l, w) = (r, (l', w'))"
  shows "paths w' p = Some i \<and> (\<exists>e. r = Raise e)"
proof -
  define keep where "keep s \<longleftrightarrow> no_unlink {p} (tape (snd s)) \<and> paths (snd s) p = Some i"
    for s :: "'a \<times> world"
  define rm :: "('a \<times> world, unit) act" where "rm = suppress is_Exception (os_unlink temp)"
  have pop: "keep (l, snd (pop u))" if "keep (l, u)" for l u
    using that slot_rel_pop [of "{p}" u] by (simp add: keep_def slot_rel_def stays_def)
  have link: "wp False (syscall k) (\<lambda>_ _. False) (\<lambda>_. keep) (l, u)"
    if "keep (l, u)" "k \<in> {k_link temp p, k_rename temp p}" for k l u
    using pop [OF that(1)] that(2)
    by (cases "pop u"; cases "fst (pop u)")
       (auto simp: wp_def syscall_def k_link_def k_rename_def keep_def split: option.splits)
  have rm: "wp False rm (\<lambda>_. keep) (\<lambda>_. keep) (l, u)" if "keep (l, u)" for l u
    unfolding rm_def os_unlink_def wp_suppress
    using pop [OF that] assms(3)
    by (cases "pop u"; cases "fst (pop u)")
       (auto simp: wp_def syscall_def k_unlink_def keep_def split: option.splits)
  have "keep (l, w)" using assms(1,2) by (simp add: keep_def)
  then have "wp False (atomic_publish temp p) (\<lambda>_ _. False) (\<lambda>_. keep) (l, w)"
    using rm unfolding atomic_publish_def os_link_def os_rename_def rm_def [symmetric] wp_andthen
      wp_env_get prod.case wp_try_finally wp_if if_apply
    by (auto intro!: wp_mono [OF link])
  with assms(4) show ?thesis by (cases r) (auto simp: wp_def keep_def)
qed

text \<open>
  What is left behind: when the block raises, the temporary file is not removed (only the
  publication is followed by its removal), so it stays in the destination's directory.
\<close>

lemma open_atomic_leaves_temporary:
  assumes "tape w = []" "paths w p = None" "paths w n = None" "p \<noteq> n"
    and "open_atomic p (n # names) (write_pieces ss (Some e)) (l, w) = (r, (l', w'))"
  shows "(\<exists>e'. r = Raise e') \<and> paths w' n = Some (next_ino w)"
proof -
  obtain f u where o: "named_temporary_file (n # names) (l, w) = (Done (f, n), (l, u))"
    "draft (paths w) n (next_ino w) f [] [] (l, u)"
    using assms(1,3)
    by (simp add: sys_open_def syscall_def pop_def k_open_def parse_mode_def try_else_def ret_def
        draft_def add_handle_def create_file_def new_handle_def alone_def)
  have "wp False (andthen (atomic_write f (write_pieces ss (Some e))) (\<lambda>_. atomic_publish n p))
      (\<lambda>_ _. False) (\<lambda>_. abandoned (paths w) n (next_ino w)) (l, u)"
    unfolding wp_andthen by (rule wp_mono [OF draft_body [OF o(2)]]) auto
  moreover have ex: "os_path_exists p (l, w) = (Done False, (l, w))"
    and dir: "py_mkdir d (l, w) = (Done (), (l, w))" for d
    using assms(1,2) by (simp_all add: os_path_exists_def py_mkdir_def syscall_def pop_def)
  have "open_atomic p (n # names) (write_pieces ss (Some e)) (l, w) =
      andthen (atomic_write f (write_pieces ss (Some e))) (\<lambda>_. atomic_publish n p) (l, u)"
    unfolding open_atomic_def
    by (rule andthen_Done, rule ex, unfold if_False, rule andthen_Done, rule dir,
        rule andthen_Done, rule o(1)) simp
  ultimately show ?thesis
    using assms(5) by (cases r) (auto simp: wp_def abandoned_def closed_def)
qed

end
