(* ===== verification/AtomicWitnesses.thy ===== *)
theory AtomicWitnesses
  imports AtomicFacts Witnesses
begin

text \<open>The properties of \<^verbatim>\<open>open_atomic\<close> applied at concrete inputs.\<close>

theorem open_atomic_all_or_nothing_witness:
  "\<exists>i. paths (snd (snd (open_atomic ''d'' [''t''] (write_pieces [''ab'', ''c''] None) (demo_lock, demo_world)))) ''d'' = Some i \<and>
     content (snd (snd (open_atomic ''d'' [''t''] (write_pieces [''ab'', ''c''] None) (demo_lock, demo_world)))) i = ''abc''"
proof -
  have "fst (open_atomic ''d'' [''t''] (write_pieces [''ab'', ''c''] None) (demo_lock, demo_world)) = Done ()"
    by code_simp
  note run = run_split [OF this]
  have "alone demo_world" by (simp add: alone_def)
  from open_atomic_all_or_nothing [OF this _ run] show ?thesis by simp
qed

theorem atomic_publish_never_replaces_witness:
  "\<exists>e. fst (atomic_publish ''t'' ''d'' (demo_lock, demo_world\<lparr>paths := [''d'' \<mapsto> 5, ''t'' \<mapsto> 6]\<rparr>)) = Raise e"
  using atomic_publish_never_replaces [OF _ _ _ run_split [OF refl],
      of "''d''" "demo_world\<lparr>paths := [''d'' \<mapsto> 5, ''t'' \<mapsto> 6]\<rparr>" 5 "''t''" demo_lock]
  by (auto simp: no_unlink_def)

theorem open_atomic_leaves_temporary_witness:
  "paths (snd (snd (open_atomic ''d'' [''t''] (write_pieces [''ab''] (Some body_error)) (demo_lock, demo_world)))) ''t'' = Some 0"
  using open_atomic_leaves_temporary [OF _ _ _ _ run_split [OF refl],
      of demo_world "''d''" "''t''" "[]" "[''ab'']" body_error demo_lock]
  by (simp add: demo_world_def init_world_def)
end
