(* ===== verification/RedisLock.thy ===== *)
theory RedisLock
  imports Retry PidText "HOL-Library.AList" "HOL-Library.Sublist" "HOL-Library.List_Lexorder" "HOL-Library.Char_ord"
begin

text \<open>
  The module \<^verbatim>\<open>redis.py\<close>: the class \<^verbatim>\<open>RedisLock\<close>, whose lock is a subscription. The package
  \<^verbatim>\<open>redis\<close> and the server are not part of the program: what they answer to each call is a
  parameter, and so is the time a call takes, and the random numbers. The calls made are logged.
\<close>

section \<open>Messages\<close>

text \<open>What \<^verbatim>\<open>json.loads\<close> gives; a payload is that value, or text that is not JSON.\<close>

datatype json =
    JNull
  | JBool bool
  | JNum rat
  | JStr string
  | JArr "json list"
  | JObj "(string \<times> json) list"

datatype payload = Json json | NotJson string

record rmessage =
  msg_type :: "string option"
  msg_data :: "payload option"

text \<open>\<^verbatim>\<open>dict.get\<close> on a decoded object: of a repeated key the last value counts.\<close>

definition jget :: "(string \<times> json) list \<Rightarrow> string \<Rightarrow> json option" where
  "jget kv k = map_of (rev kv) k"

definition REDIS_LOCK_PROTOCOL_VERSION :: rat where
  "REDIS_LOCK_PROTOCOL_VERSION = 1"

text \<open>\<^verbatim>\<open>==\<close> between a decoded value and the version: \<^verbatim>\<open>True\<close> is equal to 1.\<close>

definition is_version :: "json option \<Rightarrow> bool" where
  "is_version v \<longleftrightarrow> (case v of
      Some (JNum n) \<Rightarrow> n = REDIS_LOCK_PROTOCOL_VERSION
    | Some (JBool b) \<Rightarrow> b
    | _ \<Rightarrow> False)"

section \<open>Modes and holders\<close>

datatype RedisLockMode = EXCLUSIVE | PENDING | SHARED

fun mode_value :: "RedisLockMode \<Rightarrow> string" where
  "mode_value EXCLUSIVE = ''exclusive''"
| "mode_value PENDING = ''pending''"
| "mode_value SHARED = ''shared''"

definition mode_of_value :: "string \<Rightarrow> RedisLockMode option" where
  "mode_of_value s = find (\<lambda>m. mode_value m = s) [EXCLUSIVE, PENDING, SHARED]"

record RedisLockHolder =
  rh_holder_id :: string
  rh_mode :: RedisLockMode
  rh_legacy :: bool

text \<open>\<^verbatim>\<open>_parse_lock_response\<close>: every exception of the \<^verbatim>\<open>try\<close> block leads to the legacy record.\<close>

definition legacy_holder :: "nat \<Rightarrow> RedisLockHolder" where
  "legacy_holder i =
     \<lparr> rh_holder_id = ''legacy-'' @ decimal i, rh_mode = EXCLUSIVE, rh_legacy = True \<rparr>"

definition parse_lock_response :: "payload option \<Rightarrow> nat \<Rightarrow> RedisLockHolder" where
  "parse_lock_response raw legacy_index = (case raw of
      Some (Json (JObj kv)) \<Rightarrow>
        (case (is_version (jget kv ''protocol''), jget kv ''holder_id'', jget kv ''mode'') of
           (True, Some (JStr holder_id), Some (JStr mode)) \<Rightarrow>
             (case mode_of_value mode of
                Some m \<Rightarrow> \<lparr> rh_holder_id = holder_id, rh_mode = m, rh_legacy = False \<rparr>
              | None \<Rightarrow> legacy_holder legacy_index)
         | _ \<Rightarrow> legacy_holder legacy_index)
    | _ \<Rightarrow> legacy_holder legacy_index)"

section \<open>The service\<close>

text \<open>
  The calls of \<^verbatim>\<open>redis-py\<close> that the module makes. Objects of the package are numbers.
\<close>

datatype rcmd =
    CConnect
  | CCloseConnection nat
  | CPubSub nat
  | CSetName nat string
  | CParseResponse nat
  | CSubscribe nat string
  | CThreadCreate nat
  | CThreadStart nat
  | CThreadStop
  | CThreadJoin
  | CUnsubscribe nat string
  | CClosePubSub nat
  | CNumSub nat string
  | CPublish nat string json
  | CGetMessage nat
  | CClientList nat "string option"
  | CKill nat "string option"

record rclient =
  cl_id :: "string option"
  cl_name :: "string option"

text \<open>
  The answers to the \<open>n\<close>-th call: an exception, and otherwise a value of the type of the call;
  also the time it takes, and the \<open>n\<close>-th random number in \<open>[0, 1)\<close> and unique identifier.
\<close>

record server =
  sv_error :: "nat \<Rightarrow> exn option"
  sv_delay :: "nat \<Rightarrow> time"
  sv_count :: "nat \<Rightarrow> int"
  sv_message :: "nat \<Rightarrow> rmessage option"
  sv_clients :: "nat \<Rightarrow> rclient list"
  sv_random :: "nat \<Rightarrow> time"
  sv_uuid :: "nat \<Rightarrow> string"

record rworld =
  rw_plat :: platform
  rw_server :: server
  rw_calls :: nat
  rw_clock :: time
  rw_log :: "rcmd list"

definition served :: "rcmd \<Rightarrow> rworld \<Rightarrow> rworld" where
  "served cmd w = w\<lparr>rw_calls := Suc (rw_calls w),
     rw_clock := rw_clock w + max 0 (sv_delay (rw_server w) (rw_calls w)),
     rw_log := rw_log w @ [cmd]\<rparr>"

definition rcall :: "rcmd \<Rightarrow> (server \<Rightarrow> nat \<Rightarrow> 'a) \<Rightarrow> ('l \<times> rworld, 'a) act" where
  "rcall cmd answer = (\<lambda>(l, w). case sv_error (rw_server w) (rw_calls w) of
      Some e \<Rightarrow> (Raise e, (l, served cmd w))
    | None \<Rightarrow> (Done (answer (rw_server w) (rw_calls w)), (l, served cmd w)))"

definition rcall_unit :: "rcmd \<Rightarrow> ('l \<times> rworld, unit) act" where
  "rcall_unit cmd = rcall cmd (\<lambda>_ _. ())"

text \<open>A call that creates an object: its number is the number of the call.\<close>

definition rcreate :: "rcmd \<Rightarrow> ('l \<times> rworld, nat) act" where
  "rcreate cmd = rcall cmd (\<lambda>_ n. n)"

text \<open>The standard library: \<^verbatim>\<open>time.monotonic\<close>, \<^verbatim>\<open>time.sleep\<close>, \<^verbatim>\<open>random.random\<close>, \<^verbatim>\<open>uuid4().hex\<close>.\<close>

definition monotonic :: "('l \<times> rworld, time) act" where
  "monotonic = env_get rw_clock"

definition rsleep :: "time \<Rightarrow> ('l \<times> rworld, unit) act" where
  "rsleep d = (if d < 0 then throw (plain_exn CValueError [AStr ''sleep length must be non-negative''])
     else upd_world (\<lambda>w. w\<lparr>rw_clock := rw_clock w + d\<rparr>))"

definition rdraw :: "(server \<Rightarrow> nat \<Rightarrow> 'a) \<Rightarrow> ('l \<times> rworld, 'a) act" where
  "rdraw g = andthen (env_get (\<lambda>w. g (rw_server w) (rw_calls w)))
     (\<lambda>x. andthen (upd_world (\<lambda>w. w\<lparr>rw_calls := Suc (rw_calls w)\<rparr>)) (\<lambda>_. ret x))"

section \<open>The object\<close>

datatype rthread = ThreadNew | ThreadStarted

datatype kwval = KInt int | KBool bool | KStr string

record rlockobj = lockbase +
  rd_channel :: string
  rd_connection :: "nat option"
  rd_thread_sleep_time :: time
  rd_unavailable_timeout :: time
  rd_kwargs :: "(string \<times> kwval) list"
  rd_close_connection :: bool
  rd_flags :: int
  rd_holder_id :: string
  rd_writer_elected :: bool
  rd_mode :: RedisLockMode
  rd_thread :: "rthread option"
  rd_pubsub :: "nat option"

definition DEFAULT_UNAVAILABLE_TIMEOUT :: time where "DEFAULT_UNAVAILABLE_TIMEOUT = 1"
definition DEFAULT_THREAD_SLEEP_TIME :: time where "DEFAULT_THREAD_SLEEP_TIME = 1 / 10"

definition DEFAULT_REDIS_KWARGS :: "(string \<times> kwval) list" where
  "DEFAULT_REDIS_KWARGS = [(''health_check_interval'', KInt 10), (''decode_responses'', KBool True)]"

definition setdefault :: "string \<times> kwval \<Rightarrow> (string \<times> kwval) list \<Rightarrow> (string \<times> kwval) list" where
  "setdefault kv m = (if map_of m (fst kv) = None then m @ [kv] else m)"

definition redis_init ::
  "string \<Rightarrow> nat option \<Rightarrow> time option \<Rightarrow> time option \<Rightarrow> bool option \<Rightarrow> time \<Rightarrow> time
    \<Rightarrow> (string \<times> kwval) list \<Rightarrow> int \<Rightarrow> ('l \<times> rworld, rlockobj) act" where
  "redis_init channel connection timeout check_interval fwl thread_sleep_time unavailable_timeout
     kwargs flags = andthen (env_get rw_plat) (\<lambda>p.
       if flags \<noteq> LOCK_EX p \<and> flags \<noteq> LOCK_SH p then throw (plain_exn CValueError
         [AStr ''RedisLock flags must contain exactly one of LockFlags.EXCLUSIVE or LockFlags.SHARED''])
       else andthen (rdraw sv_uuid) (\<lambda>holder_id.
         ret (lockbase.extend (lockbase_init timeout check_interval fwl)
           (rlockobj.fields channel connection thread_sleep_time unavailable_timeout
             (fold setdefault DEFAULT_REDIS_KWARGS kwargs) (connection = None) flags holder_id False
             (if flags = LOCK_SH p then SHARED else PENDING) None None))))"

definition get_connection :: "('z rlockobj_scheme \<times> rworld, nat) act" where
  "get_connection = andthen self (\<lambda>sf. case rd_connection sf of
      Some c \<Rightarrow> ret c
    | None \<Rightarrow> andthen (rcreate CConnect) (\<lambda>c.
        andthen (upd_self (rd_connection_update (\<lambda>_. Some c))) (\<lambda>_. ret c)))"

definition legacy_client_name :: "'z rlockobj_scheme \<Rightarrow> string" where
  "legacy_client_name sf = rd_channel sf @ ''-lock''"

definition client_name :: "'z rlockobj_scheme \<Rightarrow> string" where
  "client_name sf = legacy_client_name sf @ ''-'' @ rd_holder_id sf"

definition get_subscriber_count :: "nat \<Rightarrow> ('z rlockobj_scheme \<times> rworld, int) act" where
  "get_subscriber_count connection = andthen self (\<lambda>sf.
     rcall (CNumSub connection (rd_channel sf)) sv_count)"

text \<open>The answer to a ping, and the handler that gives it.\<close>

definition lock_record :: "'z rlockobj_scheme \<Rightarrow> json" where
  "lock_record sf = JObj
     [(''holder_id'', JStr (rd_holder_id sf)), (''mode'', JStr (mode_value (rd_mode sf))),
      (''protocol'', JNum REDIS_LOCK_PROTOCOL_VERSION)]"

definition channel_handler :: "rmessage \<Rightarrow> ('z rlockobj_scheme \<times> rworld, unit) act" where
  "channel_handler message =
     (if msg_type message \<noteq> Some ''message'' then ret ()
      else (case msg_data message of
          Some (Json (JObj kv)) \<Rightarrow> (case jget kv ''response_channel'' of
              Some (JStr response_channel) \<Rightarrow>
                if response_channel = [] then ret ()
                else andthen self (\<lambda>sf. case rd_connection sf of
                    None \<Rightarrow> throw (plain_exn CAssertionError [])
                  | Some c \<Rightarrow> rcall_unit (CPublish c response_channel (lock_record sf)))
            | _ \<Rightarrow> ret ())
        | _ \<Rightarrow> ret ()))"

section \<open>Waiting\<close>

text \<open>
  \<^verbatim>\<open>_timeout_generator\<close>: suspended before it started, or at the \<^verbatim>\<open>yield\<close> of the loop.
\<close>

datatype redis_gen = RedisStart | RedisLoop time

definition sleep_interval :: "'z rlockobj_scheme \<Rightarrow> time option \<Rightarrow> time" where
  "sleep_interval sf check_interval =
     (let ci = (case check_interval of None \<Rightarrow> rd_thread_sleep_time sf | Some c \<Rightarrow> c)
      in if ci > 0 then ci else rd_thread_sleep_time sf)"

definition redis_pause ::
  "'z rlockobj_scheme \<Rightarrow> time option \<Rightarrow> time \<Rightarrow> ('l \<times> rworld, (nat \<times> redis_gen) option) act" where
  "redis_pause sf ci deadline = andthen (rdraw sv_random) (\<lambda>x.
     andthen (rsleep (sleep_interval sf ci * (1 / 2 + x))) (\<lambda>_. ret (Some (0, RedisLoop deadline))))"

fun redis_generator ::
  "'z rlockobj_scheme \<Rightarrow> time option \<Rightarrow> time option
    \<Rightarrow> redis_gen \<Rightarrow> ('l \<times> rworld, (nat \<times> redis_gen) option) act" where
  "redis_generator sf t ci RedisStart = andthen monotonic (\<lambda>now.
     redis_pause sf ci (now + (case t of None \<Rightarrow> 0 | Some x \<Rightarrow> x)))"
| "redis_generator sf t ci (RedisLoop deadline) = andthen monotonic (\<lambda>now.
     if now < deadline then redis_pause sf ci deadline else ret None)"

text \<open>
  The fuel: every round sleeps at least half the interval, so if that is positive no more rounds
  happen than half intervals fit into the timeout. With an interval of zero the loop is a busy
  loop, and the outcome \<open>Hang\<close> says that two rounds did not end it.
\<close>

definition redis_bound :: "'z rlockobj_scheme \<Rightarrow> time option \<Rightarrow> time option \<Rightarrow> nat" where
  "redis_bound sf t ci =
     nat \<lceil>2 * (case t of None \<Rightarrow> 0 | Some x \<Rightarrow> x) / sleep_interval sf ci\<rceil> + 2"

definition redis_loop ::
  "'z rlockobj_scheme \<Rightarrow> time option \<Rightarrow> time option \<Rightarrow> 'a
    \<Rightarrow> (nat \<Rightarrow> 'a \<Rightarrow> ('l \<times> rworld, ('a, 'b) flow) act) \<Rightarrow> ('l \<times> rworld, ('a, 'b) flow) act" where
  "redis_loop sf t ci a body = for_gen (redis_bound sf t ci) (redis_generator sf t ci) RedisStart a body"

section \<open>Releasing and subscribing\<close>

text \<open>\<^verbatim>\<open>Thread.join\<close> on a thread that was never started is a \<^verbatim>\<open>RuntimeError\<close>.\<close>

definition thread_join :: "rthread \<Rightarrow> ('l \<times> rworld, unit) act" where
  "thread_join t = (case t of
      ThreadNew \<Rightarrow> throw (plain_exn CRuntimeError [AStr ''cannot join thread before it is started''])
    | ThreadStarted \<Rightarrow> rcall_unit CThreadJoin)"

definition stop_thread :: "('z rlockobj_scheme \<times> rworld, unit) act" where
  "stop_thread = andthen self (\<lambda>sf. case rd_thread sf of
      None \<Rightarrow> ret ()
    | Some t \<Rightarrow> andthen (rcall_unit CThreadStop) (\<lambda>_. andthen (thread_join t) (\<lambda>_.
        andthen (upd_self (rd_thread_update (\<lambda>_. None))) (\<lambda>_. rsleep (1 / 100)))))"

definition drop_subscription :: "('z rlockobj_scheme \<times> rworld, unit) act" where
  "drop_subscription = andthen self (\<lambda>sf. case rd_pubsub sf of
      None \<Rightarrow> ret ()
    | Some p \<Rightarrow> andthen (rcall_unit (CUnsubscribe p (rd_channel sf))) (\<lambda>_.
        andthen (rcall_unit (CClosePubSub p)) (\<lambda>_. upd_self (rd_pubsub_update (\<lambda>_. None)))))"

definition redis_release :: "('z rlockobj_scheme \<times> rworld, unit) act" where
  "redis_release =
     andthen (upd_self (rd_writer_elected_update (\<lambda>_. False))) (\<lambda>_.
     andthen stop_thread (\<lambda>_.
     andthen drop_subscription (\<lambda>_. andthen self (\<lambda>sf. case rd_connection sf of
         Some c \<Rightarrow> if rd_close_connection sf then andthen (rcall_unit (CCloseConnection c))
             (\<lambda>_. upd_self (rd_connection_update (\<lambda>_. None))) else ret ()
       | None \<Rightarrow> ret ()))))"

text \<open>\<^verbatim>\<open>RedisLock.__del__\<close>: unlike the finalizer of \<^verbatim>\<open>LockBase\<close> it suppresses nothing.\<close>

definition redis_del :: "('z rlockobj_scheme \<times> rworld, unit) act" where
  "redis_del = redis_release"

definition subscribe_and_read :: "nat \<Rightarrow> ('z rlockobj_scheme \<times> rworld, unit) act" where
  "subscribe_and_read p = andthen self (\<lambda>sf.
     andthen (rcall_unit (CSetName p (client_name sf))) (\<lambda>_.
     andthen (rcall_unit (CParseResponse p)) (\<lambda>_.
     andthen (rcall_unit (CSubscribe p (rd_channel sf))) (\<lambda>_.
     andthen (rcall_unit (CThreadCreate p)) (\<lambda>_.
     andthen (upd_self (rd_thread_update (\<lambda>_. Some ThreadNew))) (\<lambda>_.
     andthen (rcall_unit (CThreadStart p)) (\<lambda>_.
     andthen (upd_self (rd_thread_update (\<lambda>_. Some ThreadStarted))) (\<lambda>_.
       rsleep (1 / 100)))))))))"

definition start_subscription :: "nat \<Rightarrow> ('z rlockobj_scheme \<times> rworld, unit) act" where
  "start_subscription connection = andthen (rcreate (CPubSub connection)) (\<lambda>p.
     andthen (upd_self (rd_pubsub_update (\<lambda>_. Some p))) (\<lambda>_.
       try_except (subscribe_and_read p)
         (\<lambda>e. if is_Exception (exn_class e) then andthen redis_release (\<lambda>_. throw e) else throw e)))"

text \<open>\<^verbatim>\<open>PubSubWorkerThread.run\<close>: \<open>run\<close> is the inherited method, \<open>interrupt\<close> is \<^verbatim>\<open>interrupt_main\<close>.\<close>

definition worker_run :: "('s, unit) act \<Rightarrow> ('s, unit) act \<Rightarrow> ('s, unit) act" where
  "worker_run run interrupt = try_except run
     (\<lambda>e. if is_Exception (exn_class e) then andthen interrupt (\<lambda>_. throw e) else throw e)"

section \<open>Probing\<close>

definition unavailable_client :: "'z rlockobj_scheme \<Rightarrow> RedisLockHolder list \<Rightarrow> rclient \<Rightarrow> bool" where
  "unavailable_client sf holders client =
     (let name = (case cl_name client of None \<Rightarrow> [] | Some n \<Rightarrow> n);
          pre = legacy_client_name sf @ ''-'';
          ids = map rh_holder_id (filter (\<lambda>h. \<not> rh_legacy h) holders)
      in (name = legacy_client_name sf \<and> \<not> list_ex rh_legacy holders) \<or>
         (prefix pre name \<and> drop (length pre) name \<notin> set ids))"

fun kill_clients :: "nat \<Rightarrow> (rclient \<Rightarrow> bool) \<Rightarrow> rclient list \<Rightarrow> ('l \<times> rworld, unit) act" where
  "kill_clients connection bad [] = ret ()"
| "kill_clients connection bad (c # cs) =
     andthen (on_cond (bad c) (rcall_unit (CKill connection (cl_id c))))
       (\<lambda>_. kill_clients connection bad cs)"

definition kill_unavailable_locks ::
  "nat \<Rightarrow> RedisLockHolder list \<Rightarrow> ('z rlockobj_scheme \<times> rworld, unit) act" where
  "kill_unavailable_locks connection holders = andthen self (\<lambda>sf.
     andthen (rcall (CClientList connection None) sv_clients)
       (kill_clients connection (unavailable_client sf holders)))"

text \<open>The first loop of a probe waits for the confirmation of its own subscription.\<close>

definition await_confirmation ::
  "'z rlockobj_scheme \<Rightarrow> nat \<Rightarrow> time \<Rightarrow> time \<Rightarrow> ('l \<times> rworld, unit) act" where
  "await_confirmation sf p timeout check_interval =
     andthen (redis_loop sf (Some timeout) (Some check_interval) ()
       (\<lambda>_ _. andthen (rcall (CGetMessage p) sv_message) (\<lambda>confirmation. case confirmation of
           Some m \<Rightarrow> if msg_type m = Some ''subscribe'' then ret (Leave ()) else ret (Cont ())
         | None \<Rightarrow> ret (Cont ())))) (\<lambda>_. ret ())"

definition ping :: "string \<Rightarrow> json" where
  "ping response_channel = JObj [(''message'', JStr ''ping''), (''response_channel'', JStr response_channel)]"

text \<open>
  One round of the second loop. The dictionary of the holders keeps the order in which their ids
  came first; its values are replaced by later answers.
\<close>

type_synonym probe = "(string \<times> RedisLockHolder) list \<times> nat"

definition collect_round ::
  "nat \<Rightarrow> int \<Rightarrow> nat \<Rightarrow> probe \<Rightarrow> ('l \<times> rworld, (probe, probe) flow) act" where
  "collect_round p expected i st = andthen (rcall (CGetMessage p) sv_message) (\<lambda>message.
     case message of
       None \<Rightarrow> ret (Cont st)
     | Some m \<Rightarrow>
         if msg_type m \<noteq> Some ''message'' then ret (Cont st)
         else (let holder = parse_lock_response (msg_data m) (snd st);
                   holders = AList.update (rh_holder_id holder) holder (fst st);
                   st' = (holders, snd st + (if rh_legacy holder then 1 else 0))
               in if int (length holders) \<ge> expected then ret (Leave st') else ret (Cont st')))"

definition conclude_probe ::
  "nat \<Rightarrow> int \<Rightarrow> RedisLockHolder list \<Rightarrow> ('z rlockobj_scheme \<times> rworld, RedisLockHolder list option) act" where
  "conclude_probe connection expected holders = andthen (get_subscriber_count connection) (\<lambda>current.
     if current \<noteq> expected then ret None
     else if int (length holders) < expected
       then andthen (kill_unavailable_locks connection holders) (\<lambda>_. ret None)
     else ret (Some holders))"

definition collect_lock_holders ::
  "nat \<Rightarrow> int \<Rightarrow> time \<Rightarrow> ('z rlockobj_scheme \<times> rworld, RedisLockHolder list option) act" where
  "collect_lock_holders connection expected timeout = andthen self (\<lambda>sf. andthen (rdraw sv_uuid) (\<lambda>u.
     let response_channel = rd_channel sf @ ''-'' @ u;
         check_interval = min (rd_thread_sleep_time sf) (timeout / 10)
     in andthen (rcreate (CPubSub connection)) (\<lambda>p.
       try_finally
         (andthen (rcall_unit (CSubscribe p response_channel)) (\<lambda>_.
          andthen (await_confirmation sf p timeout check_interval) (\<lambda>_.
          andthen (rcall_unit (CPublish connection (rd_channel sf) (ping response_channel))) (\<lambda>_.
          andthen (redis_loop sf (Some timeout) (Some check_interval) ([], 0) (collect_round p expected)) (\<lambda>r.
            conclude_probe connection expected
              (map snd (fst (case r of Leave st \<Rightarrow> st | Cont st \<Rightarrow> st))))))))
         (rcall_unit (CClosePubSub p)))))"

section \<open>Deciding\<close>

definition holders_are_compatible :: "platform \<Rightarrow> 'z rlockobj_scheme \<Rightarrow> RedisLockHolder list \<Rightarrow> bool" where
  "holders_are_compatible p sf holders \<longleftrightarrow>
     rd_flags sf = LOCK_SH p \<and> list_all (\<lambda>h. rh_mode h = SHARED) holders"

definition writer_is_elected :: "'z rlockobj_scheme \<Rightarrow> RedisLockHolder list \<Rightarrow> bool" where
  "writer_is_elected sf holders =
     (if list_ex (\<lambda>h. rh_mode h = EXCLUSIVE) holders then False
      else (case sort (map rh_holder_id (filter (\<lambda>h. rh_mode h = PENDING) holders)) of
          [] \<Rightarrow> False
        | i # _ \<Rightarrow> i = rd_holder_id sf))"

definition redis_already_locked :: exn where
  "redis_already_locked = AlreadyLocked [] None"

definition set_mode :: "RedisLockMode \<Rightarrow> ('z rlockobj_scheme \<times> rworld, unit) act" where
  "set_mode m = upd_self (rd_mode_update (\<lambda>_. m))"

definition resolve_lock_holders ::
  "RedisLockHolder list option \<Rightarrow> bool \<Rightarrow> ('z rlockobj_scheme \<times> rworld, bool) act" where
  "resolve_lock_holders holders fail_when_locked = andthen self (\<lambda>sf. andthen (env_get rw_plat) (\<lambda>p.
     if holders \<noteq> None \<and> holders_are_compatible p sf (the holders) then ret True
     else if holders \<noteq> None \<and> rd_flags sf = LOCK_EX p \<and> writer_is_elected sf (the holders) then
       andthen (upd_self (rd_writer_elected_update (\<lambda>_. True))) (\<lambda>_.
         if fail_when_locked then andthen redis_release (\<lambda>_. throw redis_already_locked)
         else if \<not> list_ex (\<lambda>h. rh_mode h = SHARED) (the holders)
           then andthen (set_mode EXCLUSIVE) (\<lambda>_. ret True)
         else ret False)
     else if holders = None \<and> rd_writer_elected sf then ret False
     else andthen redis_release (\<lambda>_.
       if fail_when_locked then throw redis_already_locked else ret False)))"

section \<open>Acquiring\<close>

text \<open>The only subscriber takes the lock at once.\<close>

definition claim_alone :: "('z rlockobj_scheme \<times> rworld, (unit, unit) flow) act" where
  "claim_alone = andthen self (\<lambda>sf. andthen (env_get rw_plat) (\<lambda>p.
     andthen (on_cond (rd_flags sf = LOCK_EX p) (set_mode EXCLUSIVE)) (\<lambda>_. ret (Leave ()))))"

definition redis_round ::
  "nat \<Rightarrow> bool \<Rightarrow> nat \<Rightarrow> unit \<Rightarrow> ('z rlockobj_scheme \<times> rworld, (unit, unit) flow) act" where
  "redis_round connection fail_when_locked i u = andthen self (\<lambda>sf.
     andthen (on_cond (rd_pubsub sf = None) (start_subscription connection)) (\<lambda>_.
     andthen (get_subscriber_count connection) (\<lambda>subscribers.
       if subscribers = 1 then claim_alone
       else
         andthen (collect_lock_holders connection subscribers (rd_unavailable_timeout sf)) (\<lambda>holders.
         andthen (resolve_lock_holders holders fail_when_locked) (\<lambda>ok.
           if ok then ret (Leave ()) else ret (Cont ()))))))"

definition redis_acquire ::
  "time option \<Rightarrow> time option \<Rightarrow> bool option \<Rightarrow> ('z rlockobj_scheme \<times> rworld, unit) act" where
  "redis_acquire timeout check_interval fail_when_locked = andthen self (\<lambda>sf. andthen (env_get rw_plat) (\<lambda>p.
     let t = coalesce None [timeout, Some (lb_timeout sf), Some 0];
         ci = coalesce None [check_interval, Some (lb_check_interval sf), Some 0];
         fwl = the (coalesce None [fail_when_locked, Some (lb_fail_when_locked sf), Some False])
     in if rd_pubsub sf \<noteq> None
        then throw (plain_exn CAssertionError [AStr ''This lock is already active''])
        else
          andthen (on_cond (rd_flags sf = LOCK_EX p)
            (upd_self (\<lambda>s. s\<lparr>rd_mode := PENDING, rd_writer_elected := False\<rparr>))) (\<lambda>_.
          andthen get_connection (\<lambda>connection.
          andthen (redis_loop sf t ci () (redis_round connection fwl)) (\<lambda>r. case r of
              Leave _ \<Rightarrow> ret ()
            | Cont _ \<Rightarrow> andthen redis_release (\<lambda>_. throw redis_already_locked))))))"

text \<open>The liveness check of earlier versions; \<open>Some ()\<close> is its answer \<^verbatim>\<open>True\<close>.\<close>

definition check_or_kill_lock ::
  "nat \<Rightarrow> time \<Rightarrow> string \<Rightarrow> ('z rlockobj_scheme \<times> rworld, unit option) act" where
  "check_or_kill_lock connection timeout random_text = andthen self (\<lambda>sf.
     let response_channel = rd_channel sf @ ''-'' @ random_text;
         check_interval = min (rd_thread_sleep_time sf) (timeout / 10)
     in andthen (rcreate (CPubSub connection)) (\<lambda>p.
       try_finally
         (andthen (rcall_unit (CSubscribe p response_channel)) (\<lambda>_.
          andthen (await_confirmation sf p timeout check_interval) (\<lambda>_.
          andthen (rcall_unit (CPublish connection (rd_channel sf) (JObj
            [(''response_channel'', JStr response_channel), (''message'', JStr ''ping'')]))) (\<lambda>_.
          andthen (redis_loop sf (Some timeout) (Some check_interval) ()
            (\<lambda>_ _. andthen (rcall (CGetMessage p) sv_message) (\<lambda>message. case message of
                Some m \<Rightarrow> if msg_type m = Some ''message'' then ret (Leave ()) else ret (Cont ())
              | None \<Rightarrow> ret (Cont ())))) (\<lambda>r. case r of
            Leave _ \<Rightarrow> ret (Some ())
          | Cont _ \<Rightarrow>
              andthen (rcall (CClientList connection (Some ''pubsub'')) sv_clients) (\<lambda>clients.
              andthen (kill_clients connection (\<lambda>c. cl_name c = Some (client_name sf)) clients)
                (\<lambda>_. ret None)))))))
         (rcall_unit (CClosePubSub p))))"

end
