(* ===== verification/RedisCalls.thy ===== *)
theory RedisCalls
  imports RedisLock
begin

text \<open>
  Rules for the calls of \<^verbatim>\<open>redis.py\<close> and for its loops: a call takes time, adds to the log and
  changes nothing else, or raises what the service raises; a loop over the generator ends.
\<close>

section \<open>Time passes\<close>

definition rtick :: "rworld \<Rightarrow> rworld \<Rightarrow> bool" where
  "rtick w u \<longleftrightarrow> rw_plat u = rw_plat w \<and> rw_server u = rw_server w \<and> rw_clock w \<le> rw_clock u"

lemma rtick_refl [simp]: "rtick w w"
  by (simp add: rtick_def)

lemma rtick_trans [trans]: "rtick u v \<Longrightarrow> rtick v w \<Longrightarrow> rtick u w"
  by (auto simp: rtick_def)

lemma rtick_simps: "rtick w u \<Longrightarrow> rw_plat u = rw_plat w" "rtick w u \<Longrightarrow> rw_server u = rw_server w"
  by (simp_all add: rtick_def)

lemma rtick_served [simp]: "rtick w (served cmd w)"
  by (simp add: rtick_def served_def)

text \<open>The exceptions that do not come from the decisions of the lock.\<close>

definition service_raises :: "rworld \<Rightarrow> exn \<Rightarrow> bool" where
  "service_raises w e \<longleftrightarrow> (\<exists>n. sv_error (rw_server w) n = Some e)"

definition sleep_error :: exn where
  "sleep_error = plain_exn CValueError [AStr ''sleep length must be non-negative'']"

definition join_error :: exn where
  "join_error = plain_exn CRuntimeError [AStr ''cannot join thread before it is started'']"

definition breaks :: "rworld \<Rightarrow> exn \<Rightarrow> bool" where
  "breaks w e \<longleftrightarrow> service_raises w e \<or> e = sleep_error \<or> e = join_error"

lemma breaks_sleep [simp]: "breaks w sleep_error"
  and breaks_join [simp]: "breaks w join_error"
  by (simp_all add: breaks_def)

lemma breaks_rtick: "rtick w u \<Longrightarrow> breaks u e = breaks w e"
  by (simp add: breaks_def service_raises_def rtick_def)

section \<open>Calls\<close>

lemma wp_rcall:
  "wp h (rcall cmd g) Q E (l, w) = (case sv_error (rw_server w) (rw_calls w) of
      Some e \<Rightarrow> E e (l, served cmd w)
    | None \<Rightarrow> Q (g (rw_server w) (rw_calls w)) (l, served cmd w))"
  by (simp add: wp_def rcall_def split: option.splits)

text \<open>
  The rules keep an object and the assertion that the world has only ticked since the start
  \<open>w0\<close> of the operation.
\<close>

lemma wp_rcallI:
  assumes "rtick w0 w" "\<And>x u. rtick w0 u \<Longrightarrow> Q x (l, u)"
    and "\<And>e u. rtick w0 u \<Longrightarrow> breaks w0 e \<Longrightarrow> E e (l, u)"
  shows "wp h (rcall cmd g) Q E (l, w)"
proof -
  have t: "rtick w0 (served cmd w)" using assms(1) rtick_served by (rule rtick_trans)
  show ?thesis
  proof (cases "sv_error (rw_server w) (rw_calls w)")
    case None
    then show ?thesis using assms(2) [OF t] by (simp add: wp_rcall)
  next
    case (Some e)
    then have "breaks w0 e"
      using assms(1) by (auto simp: breaks_def service_raises_def rtick_def)
    with Some show ?thesis using assms(3) [OF t] by (simp add: wp_rcall)
  qed
qed

lemma wp_rcall_unitI:
  assumes "rtick w0 w" "\<And>u. rtick w0 u \<Longrightarrow> Q () (l, u)"
    and "\<And>e u. rtick w0 u \<Longrightarrow> breaks w0 e \<Longrightarrow> E e (l, u)"
  shows "wp h (rcall_unit cmd) Q E (l, w)"
  unfolding rcall_unit_def by (rule wp_rcallI) (use assms in auto)

lemma wp_rcreateI:
  assumes "rtick w0 w" "\<And>x u. rtick w0 u \<Longrightarrow> Q x (l, u)"
    and "\<And>e u. rtick w0 u \<Longrightarrow> breaks w0 e \<Longrightarrow> E e (l, u)"
  shows "wp h (rcreate cmd) Q E (l, w)"
  unfolding rcreate_def by (rule wp_rcallI) (use assms in auto)

lemma wp_rsleepI:
  assumes "\<And>u. rtick w u \<Longrightarrow> rw_clock u = rw_clock w + d \<Longrightarrow> Q () (l, u)"
    and "d < 0 \<Longrightarrow> E sleep_error (l, w)"
  shows "wp h (rsleep d) Q E (l, w)"
  unfolding rsleep_def using assms(2)
  by (auto simp: wp_simps sleep_error_def intro!: assms(1) simp: rtick_def)

lemma wp_rsleep_shortI:
  assumes "rtick w0 w" "0 \<le> d" "\<And>u. rtick w0 u \<Longrightarrow> Q () (l, u)"
  shows "wp h (rsleep d) Q E (l, w)"
  by (rule wp_rsleepI) (use assms in \<open>auto intro: rtick_trans\<close>)

lemma wp_rdrawI:
  assumes "\<And>u. rtick w u \<Longrightarrow> rw_clock u = rw_clock w \<Longrightarrow> Q (g (rw_server w) (rw_calls w)) (l, u)"
  shows "wp h (rdraw g) Q E (l, w)"
  unfolding rdraw_def by (simp add: wp_simps) (rule assms, simp_all add: rtick_def)

lemma wp_monotonic [wp_simps]: "wp h monotonic Q E = (\<lambda>(l, w). Q (rw_clock w) (l, w))"
  by (simp add: monotonic_def wp_simps)

section \<open>Loops over the generator\<close>

text \<open>\<^verbatim>\<open>random.random()\<close> gives numbers in \<open>[0, 1)\<close>.\<close>

definition random_unit :: "rworld \<Rightarrow> bool" where
  "random_unit w \<longleftrightarrow> (\<forall>n. 0 \<le> sv_random (rw_server w) n \<and> sv_random (rw_server w) n < 1)"

text \<open>A loop may be cut off by its fuel unless every round sleeps a positive time.\<close>

definition paced :: "bool \<Rightarrow> 'z rlockobj_scheme \<Rightarrow> rworld \<Rightarrow> bool" where
  "paced h sf w \<longleftrightarrow> h \<or> 0 < rd_thread_sleep_time sf \<and> random_unit w"

lemma paced_rtick: "rtick w u \<Longrightarrow> paced h sf w \<Longrightarrow> paced h sf u"
  by (simp add: paced_def random_unit_def rtick_def)

lemma sleep_interval_pos: "0 < rd_thread_sleep_time sf \<Longrightarrow> 0 < sleep_interval sf ci"
  by (auto simp: sleep_interval_def Let_def split: option.splits)

lemma wp_redis_pause:
  assumes "\<And>u. rtick w u \<Longrightarrow> random_unit w \<and> 0 < sleep_interval sf ci \<Longrightarrow>
      rw_clock w + sleep_interval sf ci / 2 \<le> rw_clock u \<Longrightarrow> Q (Some (0, RedisLoop d)) (l, u)"
    and "\<And>u. rtick w u \<Longrightarrow> \<not> (random_unit w \<and> 0 < sleep_interval sf ci) \<Longrightarrow> Q (Some (0, RedisLoop d)) (l, u)"
    and "\<And>u. rtick w u \<Longrightarrow> E sleep_error (l, u)"
  shows "wp h (redis_pause sf ci d) Q E (l, w)"
  unfolding redis_pause_def wp_andthen
proof (rule wp_rdrawI, rule wp_rsleepI)
  fix u v
  let ?x = "sv_random (rw_server w) (rw_calls w)"
  assume u: "rtick w u" "rw_clock u = rw_clock w"
    and v: "rtick u v" "rw_clock v = rw_clock u + sleep_interval sf ci * (1 / 2 + ?x)"
  have wv: "rtick w v" using u(1) v(1) by (rule rtick_trans)
  have "rw_clock w + sleep_interval sf ci / 2 \<le> rw_clock v" if "random_unit w" "0 < sleep_interval sf ci"
    using u v that by (simp add: random_unit_def algebra_simps)
  then have "Q (Some (0, RedisLoop d)) (l, v)"
    using assms(1,2) [OF wv] by blast
  then show "wp h (ret (Some (0, RedisLoop d))) Q E (l, v)"
    by (simp add: wp_simps)
qed (use assms(3) in auto)

definition poll_measure :: "time \<Rightarrow> time \<Rightarrow> redis_gen \<Rightarrow> rworld \<Rightarrow> nat" where
  "poll_measure t i g w = (case g of
      RedisStart \<Rightarrow> nat \<lceil>2 * t / i\<rceil> + 1
    | RedisLoop d \<Rightarrow> nat \<lceil>2 * (d - rw_clock w) / i\<rceil>)"

lemma half_interval: "0 < i \<Longrightarrow> c + i / 2 \<le> c' \<Longrightarrow> 2 * (d - c') / i + 1 \<le> 2 * (d - c) / (i :: rat)"
proof -
  assume i: "0 < i" and c: "c + i / 2 \<le> c'"
  have "1 \<le> 2 * (c' - c) / i" unfolding pos_le_divide_eq [OF i] using c by simp
  moreover have "2 * (d - c) / i - 2 * (d - c') / i = 2 * (c' - c) / i"
    by (simp add: diff_divide_distrib [symmetric] algebra_simps)
  ultimately show ?thesis by linarith
qed

lemma poll_start:
  assumes "0 < (i :: rat)" "c + i / 2 \<le> c'"
  shows "nat \<lceil>2 * (c + t - c') / i\<rceil> < nat \<lceil>2 * t / i\<rceil> + (1 :: nat)"
proof -
  have "2 * (c + t - c') / i + 1 \<le> 2 * t / i"
    using half_interval [OF assms, of "c + t"] by simp
  then have "2 * (c + t - c') / i \<le> 2 * t / i" by simp
  then show ?thesis by (simp add: less_Suc_eq_le nat_mono ceiling_mono)
qed

lemma poll_next:
  assumes "0 < (i :: rat)" "c + i / 2 \<le> c'" "c < d"
  shows "nat \<lceil>2 * (d - c') / i\<rceil> < nat \<lceil>2 * (d - c) / i\<rceil>"
proof -
  have "\<lceil>2 * (d - c') / i + 1\<rceil> \<le> \<lceil>2 * (d - c) / i\<rceil>"
    using half_interval [OF assms(1,2)] by (rule ceiling_mono)
  moreover have "0 < \<lceil>2 * (d - c) / i\<rceil>"
    using assms(1,3) by (simp add: zero_less_ceiling)
  ultimately show ?thesis by simp
qed

text \<open>One resumption of the generator, when the pace is positive.\<close>

lemma wp_redis_generator:
  assumes pace: "random_unit w" "0 < sleep_interval sf ci"
    and "\<And>g' u. rtick w u \<Longrightarrow> (\<And>v. rtick u v \<Longrightarrow>
      poll_measure (case t of None \<Rightarrow> 0 | Some x \<Rightarrow> x) (sleep_interval sf ci) g' v
        < poll_measure (case t of None \<Rightarrow> 0 | Some x \<Rightarrow> x) (sleep_interval sf ci) g w)
      \<Longrightarrow> Q (Some (0, g')) (l, u)"
    and "Q None (l, w)" "\<And>u. rtick w u \<Longrightarrow> E sleep_error (l, u)"
  shows "wp h (redis_generator sf t ci g) Q E (l, w)"
proof (cases g)
  case RedisStart
  show ?thesis
    unfolding RedisStart redis_generator.simps
    by (simp add: wp_simps, rule wp_redis_pause)
       (use pace assms(3,5) RedisStart poll_start [OF pace(2)] in
         \<open>fastforce simp: poll_measure_def rtick_def\<close>)+
next
  case (RedisLoop d)
  show ?thesis
    unfolding RedisLoop redis_generator.simps
    by (simp add: wp_simps assms(4), intro impI, rule wp_redis_pause)
       (use pace assms(3,5) RedisLoop poll_next [OF pace(2)] in
         \<open>fastforce simp: poll_measure_def rtick_def\<close>)+
qed

lemma wp_generator_any:
  assumes "\<And>g' u. rtick w u \<Longrightarrow> Q (Some (0, g')) (l, u)" "Q None (l, w)"
    and "\<And>u. rtick w u \<Longrightarrow> E sleep_error (l, u)"
  shows "wp h (redis_generator sf t ci g) Q E (l, w)"
proof (cases g)
  case RedisStart
  show ?thesis unfolding RedisStart redis_generator.simps
    by (simp add: wp_simps, rule wp_redis_pause) (use assms in auto)
next
  case (RedisLoop d)
  show ?thesis unfolding RedisLoop redis_generator.simps
    by (simp add: wp_simps assms(2), intro impI, rule wp_redis_pause) (use assms in auto)
qed

lemma wp_for_gen_partial:
  assumes inv: "Inv g a s"
    and step: "\<And>g a s. Inv g a s \<Longrightarrow> wp True (nx g)
      (\<lambda>y t. case y of None \<Rightarrow> Q (Cont a) t
          | Some (i, g') \<Rightarrow> wp True (body i a)
              (\<lambda>r u. case r of Leave b \<Rightarrow> Q (Leave b) u | Cont a' \<Rightarrow> Inv g' a' u) E t) E s"
  shows "wp True (for_gen n nx g a body) Q E s"
  using inv
proof (induction n arbitrary: g a s)
  case 0
  then show ?case by (simp add: wp_simps)
next
  case (Suc n)
  show ?case
    unfolding for_gen.simps wp_andthen
  proof (rule wp_mono [OF step [OF Suc.prems]], goal_cases)
    case (1 y t)
    show ?case
    proof (cases y)
      case None
      with 1 show ?thesis by (simp add: wp_simps)
    next
      case (Some p)
      with 1 show ?thesis
        by (cases p) (auto simp: wp_simps elim!: wp_mono split: flow.splits intro!: Suc.IH)
    qed
  qed simp_all
qed

text \<open>
  The rule of a loop: an invariant of the loop's variables and the object that time keeps. The
  body neither turns the clock back nor changes the service.
\<close>

lemma wp_redis_loop:
  fixes body :: "nat \<Rightarrow> 'a \<Rightarrow> ('l \<times> rworld, ('a, 'b) flow) act"
  assumes start: "Inv a (l, w)" and pace: "paced h sf w"
    and keep: "\<And>a l u v. Inv a (l, u) \<Longrightarrow> rtick u v \<Longrightarrow> Inv a (l, v)"
    and round: "\<And>a l u. Inv a (l, u) \<Longrightarrow> rtick w u \<Longrightarrow> wp h (body 0 a)
      (\<lambda>r s. case r of Leave b \<Rightarrow> Q (Leave b) s | Cont a' \<Rightarrow> Inv a' s \<and> rtick u (snd s)) E (l, u)"
    and exhausted: "\<And>a l u. Inv a (l, u) \<Longrightarrow> rtick w u \<Longrightarrow> Q (Cont a) (l, u)"
    and sleep: "\<And>a l u. Inv a (l, u) \<Longrightarrow> rtick w u \<Longrightarrow> E sleep_error (l, u)"
  shows "wp h (redis_loop sf t ci a body) Q E (l, w)"
proof (cases h)
  case True
  then have h: "h = True" by simp
  show ?thesis
    unfolding redis_loop_def h
  proof (rule wp_for_gen_partial [where Inv = "\<lambda>g a s. Inv a s \<and> rtick w (snd s)"])
    fix g a s
    assume I: "Inv a s \<and> rtick w (snd s)"
    obtain k u where s: "s = (k, u)" by (cases s)
    have Iv: "Inv a (k, v)" "rtick w v" if "rtick u v" for v
      using I s keep that rtick_trans by auto
    show "wp True (redis_generator sf t ci g) (\<lambda>y v. case y of
          None \<Rightarrow> Q (Cont a) v
        | Some (i, g') \<Rightarrow> wp True (body i a) (\<lambda>r v. case r of Leave b \<Rightarrow> Q (Leave b) v
             | Cont a' \<Rightarrow> Inv a' v \<and> rtick w (snd v)) E v) E s"
      unfolding s
    proof (rule wp_generator_any)
      fix g' v assume v: "rtick u v"
      show "case Some (0, g') of None \<Rightarrow> Q (Cont a) (k, v)
        | Some (i, g') \<Rightarrow> wp True (body i a) (\<lambda>r v. case r of Leave b \<Rightarrow> Q (Leave b) v
             | Cont a' \<Rightarrow> Inv a' v \<and> rtick w (snd v)) E (k, v)"
        using round [OF Iv [OF v], unfolded h] Iv(2) [OF v] rtick_trans
        by (auto elim!: wp_mono split: flow.splits)
    qed (auto intro!: exhausted [OF Iv] sleep [OF Iv])
  qed (use start in auto)
next
  case False
  with pace have p: "random_unit w" "0 < sleep_interval sf ci"
    by (auto simp: paced_def sleep_interval_pos)
  let ?T = "case t of None \<Rightarrow> 0 | Some x \<Rightarrow> x" and ?i = "sleep_interval sf ci"
  show ?thesis
    unfolding redis_loop_def
  proof (rule wp_for_gen_measure
      [where Inv = "\<lambda>(g :: redis_gen) a (s :: 'l \<times> rworld). Inv a s \<and> rtick w (snd s)"
        and M = "\<lambda>g s. poll_measure ?T ?i g (snd s)"])
    fix g a s
    assume I: "Inv a s \<and> rtick w (snd s)"
    obtain k u where s: "s = (k, u)" by (cases s)
    have Iv: "Inv a (k, v)" "rtick w v" if "rtick u v" for v
      using I s keep that rtick_trans by auto
    have pu: "random_unit u" using p(1) I s by (simp add: random_unit_def rtick_def)
    show "wp h (redis_generator sf t ci g) (\<lambda>y v. case y of
          None \<Rightarrow> Q (Cont a) v
        | Some (i, g') \<Rightarrow> wp h (body i a) (\<lambda>r v. case r of Leave b \<Rightarrow> Q (Leave b) v
             | Cont a' \<Rightarrow> (Inv a' v \<and> rtick w (snd v)) \<and>
                 poll_measure ?T ?i g' (snd v) < poll_measure ?T ?i g (snd s)) E v) E s"
      unfolding s
    proof (rule wp_redis_generator [OF pu p(2)])
      fix g' v
      assume v: "rtick u v"
        and m: "\<And>x. rtick v x \<Longrightarrow> poll_measure ?T ?i g' x < poll_measure ?T ?i g u"
      show "case Some (0, g') of None \<Rightarrow> Q (Cont a) (k, v)
        | Some (i, g') \<Rightarrow> wp h (body i a) (\<lambda>r x. case r of Leave b \<Rightarrow> Q (Leave b) x
             | Cont a' \<Rightarrow> (Inv a' x \<and> rtick w (snd x)) \<and>
                 poll_measure ?T ?i g' (snd x) < poll_measure ?T ?i g (snd (k, u))) E (k, v)"
        using round [OF Iv [OF v]] Iv(2) [OF v] rtick_trans m
        by (auto elim!: wp_mono split: flow.splits)
    qed (auto intro!: exhausted [OF Iv] sleep [OF Iv])
  qed (use start in \<open>auto simp: poll_measure_def redis_bound_def\<close>)
qed

end
