(* ===== verification/RedisFacts.thy ===== *)
theory RedisFacts
  imports RedisCalls
begin

text \<open>
  What the operations of \<^verbatim>\<open>RedisLock\<close> do to the object, whatever the service answers: release,
  subscribing, probing, the decision and \<^verbatim>\<open>acquire\<close>.
\<close>

section \<open>The object\<close>

text \<open>The parts of the object that the operations may change are blanked out.\<close>

definition settings :: "'z rlockobj_scheme \<Rightarrow> 'z rlockobj_scheme" where
  "settings l = l\<lparr>rd_pubsub := None, rd_thread := None, rd_connection := None,
     rd_writer_elected := False, rd_mode := PENDING\<rparr>"

definition same_lock :: "'z rlockobj_scheme \<Rightarrow> 'z rlockobj_scheme \<Rightarrow> bool" where
  "same_lock l k \<longleftrightarrow> settings k = settings l"

lemma same_lock_refl [simp]: "same_lock l l"
  by (simp add: same_lock_def)

lemma same_lock_trans [trans]: "same_lock l k \<Longrightarrow> same_lock k m \<Longrightarrow> same_lock l m"
  by (simp add: same_lock_def)

lemma same_lock_upd [simp]:
  "same_lock l (k\<lparr>rd_pubsub := a\<rparr>) = same_lock l k" "same_lock l (k\<lparr>rd_thread := b\<rparr>) = same_lock l k"
  "same_lock l (k\<lparr>rd_connection := c\<rparr>) = same_lock l k"
  "same_lock l (k\<lparr>rd_writer_elected := d\<rparr>) = same_lock l k"
  "same_lock l (k\<lparr>rd_mode := m\<rparr>) = same_lock l k"
  by (simp_all add: same_lock_def settings_def)

lemma same_lock_fields:
  assumes "same_lock l k"
  shows "rd_flags k = rd_flags l" "rd_channel k = rd_channel l" "rd_holder_id k = rd_holder_id l"
    "rd_thread_sleep_time k = rd_thread_sleep_time l" "rd_close_connection k = rd_close_connection l"
    "rd_unavailable_timeout k = rd_unavailable_timeout l" "rd_kwargs k = rd_kwargs l"
    "lb_timeout k = lb_timeout l" "lb_check_interval k = lb_check_interval l"
  using assms by (cases k; cases l; simp add: same_lock_def settings_def)+

definition unsubscribed :: "'z rlockobj_scheme \<Rightarrow> 'z rlockobj_scheme" where
  "unsubscribed l = l\<lparr>rd_writer_elected := False, rd_thread := None, rd_pubsub := None,
     rd_connection := (if rd_close_connection l then None else rd_connection l)\<rparr>"

lemma unsubscribed_simps [simp]:
  "rd_pubsub (unsubscribed l) = None" "rd_thread (unsubscribed l) = None" "rd_mode (unsubscribed l) = rd_mode l"
  "rd_writer_elected (unsubscribed l) = False" "rd_flags (unsubscribed l) = rd_flags l"
  "same_lock l (unsubscribed k) = same_lock l k"
  "unsubscribed (l\<lparr>rd_writer_elected := b\<rparr>) = unsubscribed l"
  by (simp_all add: unsubscribed_def)

text \<open>
  What is left of the object when a call breaks off: the settings and the mode, and a thread only
  together with a subscription.
\<close>

definition tidy :: "'z rlockobj_scheme \<Rightarrow> bool" where
  "tidy l \<longleftrightarrow> (rd_pubsub l = None \<longrightarrow> rd_thread l = None)"

definition intact :: "'z rlockobj_scheme \<Rightarrow> 'z rlockobj_scheme \<Rightarrow> bool" where
  "intact l k \<longleftrightarrow> same_lock l k \<and> rd_mode k = rd_mode l \<and> (tidy l \<longrightarrow> tidy k)"

lemma intact_refl [simp]: "intact l l"
  by (simp add: intact_def)

lemma intact_trans [trans]: "intact l k \<Longrightarrow> intact k m \<Longrightarrow> intact l m"
  by (auto simp: intact_def intro: same_lock_trans)

lemma intact_upd [simp]:
  "intact l (k\<lparr>rd_connection := c\<rparr>) = intact l k"
  "intact l (k\<lparr>rd_writer_elected := d\<rparr>) = intact l k"
  "intact (l\<lparr>rd_writer_elected := d\<rparr>) k = intact l k"
  by (simp_all add: intact_def tidy_def) (simp_all add: same_lock_def settings_def)

lemma intact_unsubscribed [simp]: "intact l k \<Longrightarrow> intact l (unsubscribed k)"
  by (simp add: intact_def tidy_def)

lemma intact_thread_None: "intact l k \<Longrightarrow> intact l (k\<lparr>rd_thread := None\<rparr>)"
  by (simp add: intact_def tidy_def)

lemma intact_thread: "intact l k \<Longrightarrow> rd_pubsub k \<noteq> None \<Longrightarrow> intact l (k\<lparr>rd_thread := t\<rparr>)"
  by (auto simp: intact_def tidy_def)

lemma intact_no_subscription:
  "intact l k \<Longrightarrow> rd_thread k = None \<Longrightarrow> intact l (k\<lparr>rd_pubsub := None\<rparr>)"
  by (simp add: intact_def tidy_def)

lemma intact_of_subscription: "intact (l\<lparr>rd_pubsub := Some p\<rparr>) k \<Longrightarrow> intact l k"
  by (simp add: intact_def tidy_def) (simp add: same_lock_def settings_def)

section \<open>Releasing and subscribing\<close>

lemma wp_thread_join:
  assumes "rtick w0 w" "\<And>u. rtick w0 u \<Longrightarrow> Q () (l, u)"
    and "\<And>e u. rtick w0 u \<Longrightarrow> breaks w0 e \<Longrightarrow> E e (l, u)"
  shows "wp h (thread_join t) Q E (l, w)"
  unfolding thread_join_def using assms breaks_join [unfolded join_error_def]
  by (cases t) (auto simp: wp_simps intro!: wp_rcall_unitI)

lemma wp_stop_thread:
  assumes "rtick w0 w" "\<And>u. rtick w0 u \<Longrightarrow> Q () (l\<lparr>rd_thread := None\<rparr>, u)"
    and "\<And>e u. rtick w0 u \<Longrightarrow> breaks w0 e \<Longrightarrow> E e (l, u)"
  shows "wp h stop_thread Q E (l, w)"
proof (cases "rd_thread l")
  case None
  then have "l\<lparr>rd_thread := None\<rparr> = l" by (cases l) simp
  then have "Q () (l, w)" using assms(2) [OF assms(1)] by (simp only:)
  with None show ?thesis by (simp add: stop_thread_def wp_simps)
next
  case (Some t)
  then show ?thesis
    by (simp add: stop_thread_def wp_simps)
       (intro wp_rcall_unitI [OF assms(1)] wp_thread_join [of w0] wp_rsleep_shortI [of w0] assms;
         simp add: wp_simps; intro wp_rsleep_shortI [of w0] assms; simp)
qed

lemma wp_drop_subscription:
  assumes "rtick w0 w" "\<And>u. rtick w0 u \<Longrightarrow> Q () (l\<lparr>rd_pubsub := None\<rparr>, u)"
    and "\<And>e u. rtick w0 u \<Longrightarrow> breaks w0 e \<Longrightarrow> E e (l, u)"
  shows "wp h drop_subscription Q E (l, w)"
proof (cases "rd_pubsub l")
  case None
  then have "l\<lparr>rd_pubsub := None\<rparr> = l" by (cases l) simp
  then have "Q () (l, w)" using assms(2) [OF assms(1)] by (simp only:)
  with None show ?thesis by (simp add: drop_subscription_def wp_simps)
next
  case (Some p)
  then show ?thesis
    by (simp add: drop_subscription_def wp_simps)
       (intro wp_rcall_unitI [of w0] assms; simp add: wp_simps assms)
qed

lemma wp_redis_release:
  assumes "rtick w0 w" and ok: "\<And>u. rtick w0 u \<Longrightarrow> Q () (unsubscribed l, u)"
    and bad: "\<And>e k u. rtick w0 u \<Longrightarrow> breaks w0 e \<Longrightarrow> intact l k \<Longrightarrow> E e (k, u)"
  shows "wp h redis_release Q E (l, w)"
  unfolding redis_release_def wp_simps prod.case
proof (rule wp_stop_thread [OF assms(1)], rule wp_drop_subscription, assumption, goal_cases)
  case (1 u v)
  let ?k = "l\<lparr>rd_writer_elected := False, rd_thread := None, rd_pubsub := None\<rparr>"
  show ?case
  proof (cases "rd_close_connection l \<and> rd_connection l \<noteq> None")
    case True
    then have "?k\<lparr>rd_connection := None\<rparr> = unsubscribed l" by (simp add: unsubscribed_def)
    with True show ?thesis
      using ok bad
      by (auto simp: wp_simps intact_thread_None intact_no_subscription intro!: wp_rcall_unitI [OF 1(2)])
  next
    case False
    then have "?k = unsubscribed l" by (cases l) (auto simp: unsubscribed_def)
    then have "Q () (?k, v)" using ok [OF 1(2)] by (simp only:)
    with False show ?thesis by (auto simp: wp_simps split: option.splits)
  qed
qed (use bad in \<open>auto simp: intact_thread_None\<close>)

lemma wp_subscribe_and_read:
  assumes "rtick w0 w" "rd_pubsub l \<noteq> None" and ok: "\<And>u. rtick w0 u \<Longrightarrow> Q () (l\<lparr>rd_thread := Some ThreadStarted\<rparr>, u)"
    and bad: "\<And>e k u. rtick w0 u \<Longrightarrow> breaks w0 e \<Longrightarrow> intact l k \<Longrightarrow> E e (k, u)"
  shows "wp h (subscribe_and_read p) Q E (l, w)"
  unfolding subscribe_and_read_def wp_simps prod.case
  using assms
  by (auto simp: wp_simps intact_thread intro!: wp_rcall_unitI [of w0] wp_rsleep_shortI [of w0])

lemma wp_start_subscription:
  assumes "rtick w0 w" and ok: "\<And>p u. rtick w0 u \<Longrightarrow>
      Q () (l\<lparr>rd_pubsub := Some p, rd_thread := Some ThreadStarted\<rparr>, u)"
    and bad: "\<And>e k u. rtick w0 u \<Longrightarrow> breaks w0 e \<Longrightarrow> intact l k \<Longrightarrow> E e (k, u)"
  shows "wp h (start_subscription c) Q E (l, w)"
  unfolding start_subscription_def wp_andthen
proof (rule wp_rcreateI [OF assms(1)], goal_cases)
  case (1 p u)
  show ?case
    unfolding wp_simps prod.case
  proof (rule wp_subscribe_and_read [OF 1], goal_cases)
    case (3 e k v)
    then have k: "intact l k" by (simp add: intact_of_subscription)
    show ?case
      using bad [OF 3(1,2) k] bad intact_trans [OF k] intact_unsubscribed [OF k]
      by (auto simp del: is_Exception_iff intro!: wp_redis_release [OF 3(1)] bad 3)
  qed (use ok in auto)
qed (use bad in auto)

text \<open>The rule of the loops, in the same form: an invariant of the variables and the object.\<close>

lemma wp_redis_loopI:
  fixes body :: "nat \<Rightarrow> 'a \<Rightarrow> ('l \<times> rworld, ('a, 'b) flow) act"
  assumes w: "rtick w0 w" and start: "Inv a l" and pace: "paced h sf w0"
    and round: "\<And>a l v. Inv a l \<Longrightarrow> rtick w0 v \<Longrightarrow> (\<And>u. rtick v u \<Longrightarrow> rtick w0 u)
      \<Longrightarrow> (\<And>e. breaks v e = breaks w0 e) \<Longrightarrow> wp h (body 0 a)
        (\<lambda>r s. case r of Leave b \<Rightarrow> Q (Leave b) s | Cont a' \<Rightarrow> Inv a' (fst s) \<and> rtick v (snd s)) E (l, v)"
    and exhausted: "\<And>a l u. Inv a l \<Longrightarrow> rtick w0 u \<Longrightarrow> Q (Cont a) (l, u)"
    and sleep: "\<And>a l u. Inv a l \<Longrightarrow> rtick w0 u \<Longrightarrow> E sleep_error (l, u)"
  shows "wp h (redis_loop sf t ci a body) Q E (l, w)"
proof (rule wp_redis_loop [where Inv = "\<lambda>a s. Inv a (fst s) \<and> rtick w0 (snd s)"], goal_cases)
  case (3 a l u v)
  then show ?case using rtick_trans [of w0 u v] by simp
next
  case (4 a k v)
  then have k: "Inv a k" "rtick w0 v" by auto
  show ?case
    by (rule wp_mono [OF round [OF k rtick_trans [OF k(2)] breaks_rtick [OF k(2)]]])
       (auto split: flow.splits intro: rtick_trans [OF k(2)])
qed (use w start exhausted sleep in \<open>auto intro: paced_rtick [OF w pace]\<close>)

section \<open>Probing\<close>

lemma wp_get_subscriber_count:
  assumes "rtick w0 w" "\<And>n u. rtick w0 u \<Longrightarrow> Q n (l, u)"
    and "\<And>e u. rtick w0 u \<Longrightarrow> breaks w0 e \<Longrightarrow> E e (l, u)"
  shows "wp h (get_subscriber_count c) Q E (l, w)"
  unfolding get_subscriber_count_def wp_simps prod.case by (rule wp_rcallI) (use assms in auto)

lemma wp_kill_clients:
  assumes "rtick w0 w" "\<And>u. rtick w0 u \<Longrightarrow> Q () (l, u)"
    and "\<And>e u. rtick w0 u \<Longrightarrow> breaks w0 e \<Longrightarrow> E e (l, u)"
  shows "wp h (kill_clients c bad cs) Q E (l, w)"
  using assms(1)
proof (induction cs arbitrary: w)
  case Nil
  then show ?case using assms by (simp add: wp_simps)
next
  case (Cons k ks)
  then show ?case
    by (auto simp: wp_simps intro!: wp_rcall_unitI [of w0] assms Cons)
qed

lemma wp_kill_unavailable_locks:
  assumes "rtick w0 w" "\<And>u. rtick w0 u \<Longrightarrow> Q () (l, u)"
    and "\<And>e u. rtick w0 u \<Longrightarrow> breaks w0 e \<Longrightarrow> E e (l, u)"
  shows "wp h (kill_unavailable_locks c hs) Q E (l, w)"
  unfolding kill_unavailable_locks_def wp_simps prod.case
  by (rule wp_rcallI [OF assms(1)], rule wp_kill_clients) (use assms in auto)

lemma wp_await_confirmation:
  fixes l :: 'l
  assumes "rtick w0 w" "paced h sf w0" and ok: "\<And>u. rtick w0 u \<Longrightarrow> Q () (l, u)"
    and bad: "\<And>e u. rtick w0 u \<Longrightarrow> breaks w0 e \<Longrightarrow> E e (l, u)"
  shows "wp h (await_confirmation sf p t ci) Q E (l, w)"
  unfolding await_confirmation_def wp_andthen
proof (rule wp_redis_loopI [where Inv = "\<lambda>_ k. k = l", OF assms(1) _ assms(2)], goal_cases)
  case (2 a k v)
  then show ?case
    by (auto simp: wp_simps ok bad split: option.splits intro!: wp_rcallI [of v v])
qed (use ok bad in \<open>auto simp: wp_simps\<close>)

text \<open>
  A conclusive probe has at least the expected number of answers, from different holders; what
  could not be read counts as an exclusive holder.
\<close>

definition conclusive :: "int \<Rightarrow> RedisLockHolder list option \<Rightarrow> bool" where
  "conclusive expected x \<longleftrightarrow> (case x of None \<Rightarrow> True
    | Some hs \<Rightarrow> distinct (map rh_holder_id hs) \<and> expected \<le> int (length hs) \<and>
        list_all (\<lambda>k. rh_legacy k \<longrightarrow> rh_mode k = EXCLUSIVE) hs)"

definition probe_inv :: "probe \<Rightarrow> bool" where
  "probe_inv st \<longleftrightarrow> distinct (map fst (fst st)) \<and>
     (\<forall>(i, k) \<in> set (fst st). rh_holder_id k = i \<and> (rh_legacy k \<longrightarrow> rh_mode k = EXCLUSIVE))"

lemma parse_legacy_exclusive: "rh_legacy (parse_lock_response m i) \<Longrightarrow> rh_mode (parse_lock_response m i) = EXCLUSIVE"
  by (auto simp: parse_lock_response_def legacy_holder_def
      split: option.splits payload.splits json.splits bool.splits)

lemma set_AList_update: "set (AList.update k v al) \<subseteq> insert (k, v) (set al)"
  by (induction al) auto

lemma probe_inv_update:
  assumes "probe_inv st"
  shows "probe_inv (AList.update (rh_holder_id (parse_lock_response m i)) (parse_lock_response m i) (fst st), n)"
  using assms set_AList_update [of "rh_holder_id (parse_lock_response m i)" "parse_lock_response m i" "fst st"]
    parse_legacy_exclusive [of m i]
  by (auto simp: probe_inv_def distinct_update)

lemma probe_inv_conclusive:
  assumes "probe_inv st" "\<not> int (length (map snd (fst st))) < expected"
  shows "conclusive expected (Some (map snd (fst st)))"
proof -
  have "map fst (fst st) = map rh_holder_id (map snd (fst st))"
    using assms(1) by (auto simp: probe_inv_def)
  then have "distinct (map rh_holder_id (map snd (fst st)))"
    using assms(1) unfolding probe_inv_def by metis
  then show ?thesis
    using assms by (auto simp: conclusive_def probe_inv_def list_all_iff)
qed

lemma wp_collect_round:
  assumes "rtick w0 w" "probe_inv st"
    and "\<And>st' u. rtick w0 u \<Longrightarrow> probe_inv st' \<Longrightarrow> Q (Cont st') (l, u)"
    and "\<And>st' u. rtick w0 u \<Longrightarrow> probe_inv st' \<Longrightarrow> Q (Leave st') (l, u)"
    and "\<And>e u. rtick w0 u \<Longrightarrow> breaks w0 e \<Longrightarrow> E e (l, u)"
  shows "wp h (collect_round p n i st) Q E (l, w)"
  unfolding collect_round_def wp_andthen
  by (rule wp_rcallI [OF assms(1)])
     (use assms(2-) probe_inv_update [OF assms(2)] in \<open>auto simp: wp_simps Let_def split: option.splits\<close>)

text \<open>The end of a probe, inside the \<^verbatim>\<open>try\<close> whose \<^verbatim>\<open>finally\<close> closes the subscription \<open>p\<close>.\<close>

lemma wp_close_probe:
  assumes "rtick w0 u" "\<And>u. rtick w0 u \<Longrightarrow> P (l, u)" "\<And>e u. rtick w0 u \<Longrightarrow> breaks w0 e \<Longrightarrow> E e (l, u)"
  shows "wp h (rcall_unit (CClosePubSub p)) (\<lambda>_. P) E (l, u)"
  by (rule wp_rcall_unitI [OF assms(1)]) (use assms in auto)

lemma wp_conclude_probe:
  fixes l :: "'z rlockobj_scheme"
  assumes u: "rtick w0 u" and st: "probe_inv st"
    and ok: "\<And>x u. rtick w0 u \<Longrightarrow> conclusive n x \<Longrightarrow> Q x (l, u)"
    and bad: "\<And>e u. rtick w0 u \<Longrightarrow> breaks w0 e \<Longrightarrow> E e (l, u)"
  shows "wp h (conclude_probe c n (map snd (fst st)))
      (\<lambda>x. wp h (rcall_unit (CClosePubSub p)) (\<lambda>_. Q x) E)
      (\<lambda>e. wp h (rcall_unit (CClosePubSub p)) (\<lambda>_. E e) E) (l, u)"
  unfolding conclude_probe_def wp_andthen
proof (rule wp_get_subscriber_count [OF u], goal_cases)
  case (1 m v)
  have quit: "wp h (rcall_unit (CClosePubSub p)) (\<lambda>_. Q None) E (l, y)" if "rtick w0 y" for y
    by (rule wp_close_probe [OF that]) (use ok bad in \<open>simp_all add: conclusive_def\<close>)
  consider "m \<noteq> n" | "m = n" "int (length (map snd (fst st))) < n"
    | "m = n" "\<not> int (length (map snd (fst st))) < n" by blast
  then show ?case
  proof cases
    case 1
    then show ?thesis using quit \<open>rtick w0 v\<close> by (simp add: wp_ret)
  next
    case 2
    then have "wp h (andthen (kill_unavailable_locks c (map snd (fst st))) (\<lambda>_. ret None))
        (\<lambda>x. wp h (rcall_unit (CClosePubSub p)) (\<lambda>_. Q x) E)
        (\<lambda>e. wp h (rcall_unit (CClosePubSub p)) (\<lambda>_. E e) E) (l, v)"
      unfolding wp_andthen wp_ret
      by (intro wp_kill_unavailable_locks [OF 1]) (use quit bad in \<open>auto intro!: wp_close_probe\<close>)
    with 2 show ?thesis by simp
  next
    case 3
    then show ?thesis
      using ok bad probe_inv_conclusive [OF st 3(2)] 1
      by (auto simp: wp_ret intro!: wp_close_probe)
  qed
qed (use bad in \<open>auto intro!: wp_close_probe\<close>)

lemma wp_collect_lock_holders:
  fixes l :: "'z rlockobj_scheme"
  assumes w: "rtick w0 w" and pace: "paced h l w0"
    and ok: "\<And>x u. rtick w0 u \<Longrightarrow> conclusive n x \<Longrightarrow> Q x (l, u)"
    and bad: "\<And>e u. rtick w0 u \<Longrightarrow> breaks w0 e \<Longrightarrow> E e (l, u)"
  shows "wp h (collect_lock_holders c n t) Q E (l, w)"
proof -
  let ?ci = "min (rd_thread_sleep_time l) (t / 10)"
  have fail: "wp h (rcall_unit (CClosePubSub p)) (\<lambda>_. E e) E (l, u)"
    if "rtick w0 u" "breaks w0 e" for p u e
    by (rule wp_close_probe [OF that(1)]) (use that bad in auto)
  have finish: "wp h (conclude_probe c n (map snd (fst st)))
      (\<lambda>x. wp h (rcall_unit (CClosePubSub p)) (\<lambda>_. Q x) E)
      (\<lambda>e. wp h (rcall_unit (CClosePubSub p)) (\<lambda>_. E e) E) (l, u)"
    if "rtick w0 u" "probe_inv st" for u st p
    by (rule wp_conclude_probe [OF that]) (use ok bad in auto)
  show ?thesis
    unfolding collect_lock_holders_def wp_self wp_andthen prod.case Let_def
  proof (rule wp_rdrawI, goal_cases)
    case (1 u)
    have u: "rtick w0 u" using w 1(1) by (rule rtick_trans)
    show ?case
    proof (rule wp_rcreateI [OF u], goal_cases)
      case (1 p v)
      show ?case
        unfolding wp_try_finally wp_andthen
      proof (rule wp_rcall_unitI [OF 1], goal_cases)
        case (1 x)
        show ?case
        proof (rule wp_await_confirmation [OF 1 pace], rule wp_rcall_unitI, assumption, goal_cases)
          case (1 y z)
          show ?case
          proof (rule wp_redis_loopI [where Inv = "\<lambda>st k. k = l \<and> probe_inv st", OF 1(2) _ pace],
              goal_cases)
            case 1
            then show ?case by (simp add: probe_inv_def)
          next
            case (2 st k q)
            then show ?case
              by (elim conjE, hypsubst)
                (rule wp_collect_round [of q q st], simp_all add: fail finish)
          qed (use finish fail in auto)
        qed (use fail in auto)
      qed (use fail in auto)
    qed (use bad in auto)
  qed
qed

section \<open>Deciding\<close>

definition pending_ids :: "RedisLockHolder list \<Rightarrow> string set" where
  "pending_ids hs = set (map rh_holder_id (filter (\<lambda>k. rh_mode k = PENDING) hs))"

lemma sorted_head_Min:
  fixes xs :: "string list"
  assumes "sort xs = y # ys"
  shows "y = Min (set xs)"
proof -
  have "sorted (y # ys)" unfolding assms [symmetric] by simp
  moreover have "set xs = set (y # ys)" unfolding assms [symmetric] by simp
  ultimately have "Min (set xs) = y" by (intro Min_eqI) auto
  then show ?thesis by simp
qed

lemma writer_is_elected_iff:
  "writer_is_elected l hs \<longleftrightarrow> list_all (\<lambda>k. rh_mode k \<noteq> EXCLUSIVE) hs \<and>
     pending_ids hs \<noteq> {} \<and> rd_holder_id l = Min (pending_ids hs)"
proof (cases "sort (map rh_holder_id (filter (\<lambda>k. rh_mode k = PENDING) hs))")
  case Nil
  then have "pending_ids hs = {}" by (metis pending_ids_def set_sort list.set(1))
  with Nil show ?thesis by (simp add: writer_is_elected_def)
next
  case (Cons i js)
  have "pending_ids hs = set (i # js)" unfolding pending_ids_def Cons [symmetric] by simp
  moreover have "i = Min (pending_ids hs)" unfolding pending_ids_def by (rule sorted_head_Min [OF Cons])
  ultimately have "i = Min (pending_ids hs)" "pending_ids hs \<noteq> {}" by auto
  with Cons show ?thesis
    by (auto simp: writer_is_elected_def list_ex_iff list_all_iff)
qed

text \<open>What a decision that does not raise makes of the object.\<close>

definition decided ::
  "platform \<Rightarrow> 'z rlockobj_scheme \<Rightarrow> RedisLockHolder list option \<Rightarrow> bool \<Rightarrow> bool \<Rightarrow> 'z rlockobj_scheme \<Rightarrow> bool" where
  "decided p l hs fwl b k \<longleftrightarrow> (if b then
      (\<exists>H. hs = Some H \<and>
        (rd_flags l = LOCK_SH p \<and> list_all (\<lambda>j. rh_mode j = SHARED) H \<and> k = l \<or>
         rd_flags l = LOCK_EX p \<and> \<not> fwl \<and> list_all (\<lambda>j. rh_mode j = PENDING) H \<and>
           pending_ids H \<noteq> {} \<and> rd_holder_id l = Min (pending_ids H) \<and>
           k = l\<lparr>rd_writer_elected := True, rd_mode := EXCLUSIVE\<rparr>))
    else \<not> fwl \<and> (k = l\<lparr>rd_writer_elected := True\<rparr> \<or> k = unsubscribed l) \<or>
      hs = None \<and> rd_writer_elected l \<and> k = l)"

lemma all_pending: "list_all (\<lambda>k. rh_mode k \<noteq> EXCLUSIVE) hs \<Longrightarrow> \<not> list_ex (\<lambda>k. rh_mode k = SHARED) hs
    \<Longrightarrow> list_all (\<lambda>k. rh_mode k = PENDING) hs"
  by (auto simp: list_all_iff list_ex_iff) (metis RedisLockMode.exhaust)

lemma wp_give_up:
  assumes "rtick w0 w" "\<And>u. \<not> fwl \<Longrightarrow> rtick w0 u \<Longrightarrow> Q False (unsubscribed l, u)"
    and "\<And>u. fwl \<Longrightarrow> rtick w0 u \<Longrightarrow> E redis_already_locked (unsubscribed l, u)"
    and "\<And>e k u. rtick w0 u \<Longrightarrow> breaks w0 e \<Longrightarrow> intact l k \<Longrightarrow> E e (k, u)"
  shows "wp h (andthen redis_release (\<lambda>_. if fwl then throw redis_already_locked else ret False)) Q E (l, w)"
  unfolding wp_andthen by (rule wp_redis_release [OF assms(1)]) (use assms in \<open>auto simp: wp_simps\<close>)

lemma wp_resolve_lock_holders:
  fixes l :: "'z rlockobj_scheme"
  assumes "rtick w0 w"
    and ok: "\<And>b k u. rtick w0 u \<Longrightarrow> decided (rw_plat w0) l hs fwl b k \<Longrightarrow> Q b (k, u)"
    and locked: "\<And>u. fwl \<Longrightarrow> rtick w0 u \<Longrightarrow> E redis_already_locked (unsubscribed l, u)"
    and bad: "\<And>e k u. rtick w0 u \<Longrightarrow> breaks w0 e \<Longrightarrow> intact l k \<Longrightarrow> E e (k, u)"
  shows "wp h (resolve_lock_holders hs fwl) Q E (l, w)"
proof -
  let ?p = "rw_plat w0"
  have p: "rw_plat w = ?p" using assms(1) by (simp add: rtick_def)
  define compatible where "compatible \<longleftrightarrow> hs \<noteq> None \<and> holders_are_compatible ?p l (the hs)"
  define elected where "elected \<longleftrightarrow> hs \<noteq> None \<and> rd_flags l = LOCK_EX ?p \<and> writer_is_elected l (the hs)"
  define act :: "('z rlockobj_scheme \<times> rworld, bool) act" where "act =
      (if compatible then ret True
       else if elected then andthen (upd_self (rd_writer_elected_update (\<lambda>_. True))) (\<lambda>_.
         if fwl then andthen redis_release (\<lambda>_. throw redis_already_locked)
         else if \<not> list_ex (\<lambda>h. rh_mode h = SHARED) (the hs)
           then andthen (set_mode EXCLUSIVE) (\<lambda>_. ret True)
         else ret False)
       else if hs = None \<and> rd_writer_elected l then ret False
       else andthen redis_release (\<lambda>_. if fwl then throw redis_already_locked else ret False))"
  have "resolve_lock_holders hs fwl (l, w) = act (l, w)"
    unfolding act_def resolve_lock_holders_def compatible_def elected_def
    by (simp add: andthen_def self_def env_get_def p)
  then have run: "wp h (resolve_lock_holders hs fwl) Q E (l, w) = wp h act Q E (l, w)"
    by (rule wp_run_cong)
  consider "compatible" | "\<not> compatible" "elected" "fwl" | "\<not> compatible" "elected" "\<not> fwl"
    | "\<not> compatible" "\<not> elected" "hs = None \<and> rd_writer_elected l"
    | "\<not> compatible" "\<not> elected" "\<not> (hs = None \<and> rd_writer_elected l)" by blast
  then show ?thesis
  proof cases
    case 1
    then have "decided ?p l hs fwl True l"
      by (auto simp: compatible_def decided_def holders_are_compatible_def)
    then show ?thesis
      unfolding run act_def using 1 ok [OF assms(1)] by (simp add: wp_simps)
  next
    case 2
    then show ?thesis
      unfolding run act_def using locked bad
      by (auto simp: wp_simps intro!: wp_redis_release [OF assms(1)])
  next
    case 3
    have all: "list_all (\<lambda>j. rh_mode j = PENDING) (the hs)" if "\<not> list_ex (\<lambda>j. rh_mode j = SHARED) (the hs)"
      using 3(2) that by (auto simp: elected_def writer_is_elected_iff intro: all_pending)
    have "decided ?p l hs fwl True (l\<lparr>rd_writer_elected := True, rd_mode := EXCLUSIVE\<rparr>)"
      if "\<not> list_ex (\<lambda>j. rh_mode j = SHARED) (the hs)"
      using 3(2,3) all [OF that] by (auto simp: elected_def decided_def writer_is_elected_iff)
    moreover have "decided ?p l hs fwl False (l\<lparr>rd_writer_elected := True\<rparr>)"
      using 3(3) by (simp add: decided_def)
    ultimately show ?thesis
      unfolding run act_def using 3 ok [OF assms(1)]
      by (simp add: wp_simps set_mode_def)
  next
    case 4
    then have "decided ?p l hs fwl False l" by (simp add: decided_def)
    then show ?thesis
      unfolding run act_def using 4 ok [OF assms(1)] by (simp add: wp_simps)
  next
    case 5
    have "wp h (andthen redis_release (\<lambda>_. if fwl then throw redis_already_locked else ret False)) Q E (l, w)"
      by (rule wp_give_up [OF assms(1)]) (use ok locked bad in \<open>auto simp: decided_def\<close>)
    then show ?thesis
      unfolding run act_def using 5 by auto
  qed
qed

end
