(* ===== verification/RedisAcquire.thy ===== *)
theory RedisAcquire
  imports RedisFacts
begin

text \<open>
  What \<^verbatim>\<open>RedisLock.acquire\<close> achieves whatever the service answers and whenever it fails, what a
  conclusive probe and a positive decision rest on, and the answer to a ping.
\<close>


section \<open>The rounds\<close>

definition idle :: "'z rlockobj_scheme \<Rightarrow> bool" where
  "idle k \<longleftrightarrow> rd_pubsub k = None \<and> rd_thread k = None"

definition subscribed :: "'z rlockobj_scheme \<Rightarrow> bool" where
  "subscribed k \<longleftrightarrow> rd_pubsub k \<noteq> None \<and> rd_thread k = Some ThreadStarted"

definition waiting :: "'z rlockobj_scheme \<Rightarrow> 'z rlockobj_scheme \<Rightarrow> bool" where
  "waiting l k \<longleftrightarrow> intact l k \<and> (idle k \<or> subscribed k)"

definition held :: "platform \<Rightarrow> 'z rlockobj_scheme \<Rightarrow> 'z rlockobj_scheme \<Rightarrow> bool" where
  "held p l k \<longleftrightarrow> same_lock l k \<and> subscribed k \<and>
     rd_mode k = (if rd_flags l = LOCK_EX p then EXCLUSIVE else rd_mode l)"

lemma LOCK_SH_EX: "LOCK_SH p \<noteq> LOCK_EX p"
  by (cases p) simp_all

lemma intact_flags: "intact l k \<Longrightarrow> rd_flags k = rd_flags l" "intact l k \<Longrightarrow> rd_mode k = rd_mode l"
  "intact l k \<Longrightarrow> rd_thread_sleep_time k = rd_thread_sleep_time l"
  "intact l k \<Longrightarrow> rd_unavailable_timeout k = rd_unavailable_timeout l"
  by (simp_all add: intact_def same_lock_fields)

lemma paced_intact: "intact l k \<Longrightarrow> paced h k w = paced h l w"
  by (simp add: paced_def intact_flags)

lemma waiting_unsubscribed: "intact l k \<Longrightarrow> waiting l (unsubscribed k)"
  by (simp add: waiting_def idle_def)

lemma intact_subscribed:
  "intact l k \<Longrightarrow> intact l (k\<lparr>rd_pubsub := Some p, rd_thread := Some ThreadStarted\<rparr>)"
  by (simp add: intact_def tidy_def)

lemma held_of_decided:
  assumes "intact l k" "subscribed k" "decided p k hs fwl True j"
  shows "held p l j"
  using assms LOCK_SH_EX [of p]
  by (auto simp: decided_def held_def intact_def subscribed_def same_lock_fields)

lemma waiting_of_decided:
  assumes "intact l k" "subscribed k" "decided p k hs fwl False j"
  shows "waiting l j"
  using assms by (auto simp: decided_def waiting_def subscribed_def idle_def)

lemma wp_claim_alone:
  assumes "rtick w0 w" "intact l k" "subscribed k"
    and "\<And>j. held (rw_plat w0) l j \<Longrightarrow> Q (Leave ()) (j, w)"
  shows "wp h claim_alone Q E (k, w)"
proof -
  let ?j = "if rd_flags k = LOCK_EX (rw_plat w0) then k\<lparr>rd_mode := EXCLUSIVE\<rparr> else k"
  have "held (rw_plat w0) l ?j"
    using assms(2,3) by (auto simp: held_def intact_def subscribed_def same_lock_fields)
  then have "Q (Leave ()) (?j, w)" by (rule assms(4))
  then show ?thesis
    using assms(1) by (simp add: claim_alone_def wp_simps set_mode_def rtick_def split: if_splits)
qed

lemma wp_redis_round:
  fixes l :: "'z rlockobj_scheme"
  assumes w: "rtick w0 w" and k: "waiting l k" and pace: "paced h l w0"
    and leave: "\<And>j u. rtick w0 u \<Longrightarrow> held (rw_plat w0) l j \<Longrightarrow> Q (Leave ()) (j, u)"
    and again: "\<And>j u. rtick w0 u \<Longrightarrow> waiting l j \<Longrightarrow> Q (Cont ()) (j, u)"
    and locked: "\<And>j u. rtick w0 u \<Longrightarrow> intact l j \<Longrightarrow> idle j \<Longrightarrow> E redis_already_locked (j, u)"
    and bad: "\<And>e j u. rtick w0 u \<Longrightarrow> breaks w0 e \<Longrightarrow> intact l j \<Longrightarrow> E e (j, u)"
  shows "wp h (redis_round c fwl i ()) Q E (k, w)"
proof -
  have int: "intact l k" using k by (simp add: waiting_def)
  have decide: "wp h (andthen (get_subscriber_count c) (\<lambda>subscribers.
        if subscribers = 1 then claim_alone
        else andthen (collect_lock_holders c subscribers (rd_unavailable_timeout k)) (\<lambda>holders.
          andthen (resolve_lock_holders holders fwl) (\<lambda>ok. if ok then ret (Leave ()) else ret (Cont ())))))
      Q E (j, u)"
    if u: "rtick w0 u" and j: "intact l j" "subscribed j" for j u
    unfolding wp_andthen
  proof (rule wp_get_subscriber_count [OF u], goal_cases)
    case (1 n v)
    have probe: "wp h (collect_lock_holders c n (rd_unavailable_timeout k))
       (\<lambda>holders. wp h (resolve_lock_holders holders fwl)
          (\<lambda>ok. wp h (if ok then ret (Leave ()) else ret (Cont ())) Q E) E) E (j, v)"
    proof (rule wp_collect_lock_holders [OF 1 pace [unfolded paced_intact [OF j(1), symmetric]]], goal_cases)
      case (1 x y)
      show ?case
      proof (rule wp_resolve_lock_holders [OF 1(1)], goal_cases)
        case (1 b m z)
        then show ?case
          using held_of_decided [OF j] waiting_of_decided [OF j] leave again
          by (cases b) (auto simp: wp_simps)
      next
        case (2 z)
        then show ?case using locked j(1) by (simp add: idle_def)
      next
        case (3 e m z)
        then show ?case using bad intact_trans [OF j(1)] by auto
      qed
    qed (use bad j in auto)
    show ?case
    proof (cases "n = 1")
      case True
      then show ?thesis by (simp, intro wp_claim_alone [OF 1 j]) (rule leave [OF 1])
    next
      case False
      then show ?thesis using probe by (simp add: wp_andthen)
    qed
  qed (use bad j in auto)
  show ?thesis
  proof (cases "rd_pubsub k = None")
    case True
    then show ?thesis
      unfolding redis_round_def wp_andthen wp_self prod.case on_cond_def
      by (simp, intro wp_start_subscription [OF w] decide [unfolded wp_andthen])
         (use int bad intact_trans [OF int] intact_subscribed [OF int] in \<open>auto simp: subscribed_def\<close>)
  next
    case False
    then have "subscribed k" using k by (auto simp: waiting_def idle_def)
    then show ?thesis
      using decide [OF w int]
      unfolding redis_round_def wp_andthen wp_self prod.case on_cond_def
      by (simp only: False if_False wp_ret)
  qed
qed

section \<open>The whole of \<^verbatim>\<open>acquire\<close>\<close>

definition acquire_raises :: "rworld \<Rightarrow> 'z rlockobj_scheme \<Rightarrow> exn \<Rightarrow> 'z rlockobj_scheme \<Rightarrow> bool" where
  "acquire_raises w l e k \<longleftrightarrow> same_lock l k \<and> tidy k \<and>
     rd_mode k = (if rd_flags l = LOCK_EX (rw_plat w) then PENDING else rd_mode l) \<and>
     (breaks w e \<or> e = redis_already_locked \<and> idle k)"

lemma wp_get_connection:
  assumes "rtick w0 w" "\<And>c k u. rtick w0 u \<Longrightarrow> intact l k \<Longrightarrow> rd_pubsub k = rd_pubsub l
      \<Longrightarrow> rd_thread k = rd_thread l \<Longrightarrow> Q c (k, u)"
    and "\<And>e u. rtick w0 u \<Longrightarrow> breaks w0 e \<Longrightarrow> E e (l, u)"
  shows "wp h get_connection Q E (l, w)"
  unfolding get_connection_def using assms
  by (cases "rd_connection l") (auto simp: wp_simps intro!: wp_rcreateI [of w0])

lemma wp_redis_acquire:
  fixes l :: "'z rlockobj_scheme"
  assumes "idle l" "paced h l w"
  shows "wp h (redis_acquire t ci fwl)
    (\<lambda>_ s. held (rw_plat w) l (fst s) \<and> rtick w (snd s))
    (\<lambda>e s. acquire_raises w l e (fst s) \<and> rtick w (snd s)) (l, w)"
proof -
  let ?p = "rw_plat w"
  define k where "k = (if rd_flags l = LOCK_EX ?p
      then l\<lparr>rd_mode := PENDING, rd_writer_elected := False\<rparr> else l)"
  have k: "same_lock l k" "idle k" "paced h k w" "rd_flags k = rd_flags l"
      "rd_flags l \<noteq> LOCK_EX ?p \<Longrightarrow> k = l" "tidy k"
      "rd_mode k = (if rd_flags l = LOCK_EX ?p then PENDING else rd_mode l)"
    using assms by (auto simp: k_def idle_def paced_def tidy_def)
  have raises: "acquire_raises w l e j" if "breaks w e" "intact k j" for e j
    using that same_lock_trans [OF k(1)] k(6,7) by (simp add: acquire_raises_def intact_def)
  have locked: "acquire_raises w l redis_already_locked j" if "intact k j" "idle j" for j
    using that same_lock_trans [OF k(1)] k(6,7) by (simp add: acquire_raises_def intact_def)
  have got: "held ?p l j" if "held ?p k j" for j
    using that k(1,4,5) same_lock_trans by (auto simp: held_def)
  have core: "wp h (andthen get_connection (\<lambda>connection.
          andthen (redis_loop l t' ci' () (redis_round connection fwl')) (\<lambda>r. case r of
              Leave _ \<Rightarrow> ret ()
            | Cont _ \<Rightarrow> andthen redis_release (\<lambda>_. throw redis_already_locked))))
      (\<lambda>_ s. held ?p l (fst s) \<and> rtick w (snd s))
      (\<lambda>e s. acquire_raises w l e (fst s) \<and> rtick w (snd s)) (k, w)" for t' ci' fwl'
    unfolding wp_andthen
  proof (rule wp_get_connection [OF rtick_refl], goal_cases)
    case (1 c j u)
    have j: "waiting k j" using 1 k(2) by (simp add: waiting_def idle_def)
    show ?case
    proof (rule wp_redis_loopI [where Inv = "\<lambda>_. waiting k", OF 1(1) _ assms(2)], goal_cases)
      case (2 a m v)
      have "rw_plat v = ?p" "paced h k v"
        using 2(2) k(3) paced_rtick by (auto simp: rtick_def)
      then show ?case
        using 2 got raises locked
        by (auto intro!: wp_redis_round [OF rtick_refl, of k m] simp: wp_simps)
    next
      case (3 a m v)
      then have m: "intact k m" by (simp add: waiting_def)
      show ?case
        unfolding flow.case wp_andthen
        by (rule wp_redis_release [OF 3(2)])
           (use m raises locked intact_trans [OF m] in \<open>auto simp: wp_simps idle_def\<close>)
    qed (use j raises in \<open>auto simp: waiting_def\<close>)
  qed (use raises in auto)
  have "wp h (redis_acquire t ci fwl) Q E (l, w) = wp h (andthen get_connection (\<lambda>connection.
      andthen (redis_loop l (coalesce None [t, Some (lb_timeout l), Some 0])
          (coalesce None [ci, Some (lb_check_interval l), Some 0]) ()
          (redis_round connection
            (the (coalesce None [fwl, Some (lb_fail_when_locked l), Some False])))) (\<lambda>r. case r of
          Leave _ \<Rightarrow> ret ()
        | Cont _ \<Rightarrow> andthen redis_release (\<lambda>_. throw redis_already_locked)))) Q E (k, w)" for Q E
    unfolding redis_acquire_def Let_def k_def using assms(1)
    by (simp add: wp_self wp_env_get wp_andthen wp_on_cond wp_upd_self idle_def if_apply)
  then show ?thesis using core by simp
qed

section \<open>The properties\<close>

text \<open>
  C18: a successful \<^verbatim>\<open>RedisLock.acquire\<close>, whatever the service answered, ends with the lock's own
  subscription in place and its keep-alive thread started, and with the mode that the flags ask
  for; it changed nothing else of the object's settings.
\<close>

theorem redis_acquire_success:
  assumes "idle l" "redis_acquire t ci fwl (l, w) = (Done (), (k, u))"
  shows "same_lock l k \<and> rd_pubsub k \<noteq> None \<and> rd_thread k = Some ThreadStarted \<and>
    rd_mode k = (if rd_flags l = LOCK_EX (rw_plat w) then EXCLUSIVE else rd_mode l)"
  using wp_DoneD [OF wp_redis_acquire [OF assms(1), of True] assms(2)]
  by (simp add: paced_def held_def subscribed_def)

text \<open>
  C19: when \<^verbatim>\<open>RedisLock.acquire\<close> raises \<^verbatim>\<open>AlreadyLocked\<close>, neither a subscription nor a thread of
  it is left, so that the object does not count as a participant and can be acquired again.
\<close>

theorem redis_acquire_locked_out:
  assumes "idle l" "redis_acquire t ci fwl (l, w) = (Raise e, (k, u))"
    and "is_AlreadyLocked (exn_class e)"
    and "\<forall>n x. sv_error (rw_server w) n = Some x \<longrightarrow> \<not> is_AlreadyLocked (exn_class x)"
  shows "same_lock l k \<and> rd_pubsub k = None \<and> rd_thread k = None"
proof -
  have "acquire_raises w l e k"
    using wp_RaiseD [OF wp_redis_acquire [OF assms(1), of True] assms(2)] by (simp add: paced_def)
  moreover have "\<not> breaks w e"
    using assms(3,4) by (auto simp: breaks_def service_raises_def sleep_error_def join_error_def)
  ultimately show ?thesis by (simp add: acquire_raises_def idle_def)
qed

text \<open>
  C20: with a positive \<^verbatim>\<open>thread_sleep_time\<close> \<^verbatim>\<open>RedisLock.acquire\<close> returns or raises, whatever the
  service answers, also with a check interval of zero or less.
\<close>

theorem redis_acquire_returns:
  assumes "idle l" "0 < rd_thread_sleep_time l" "random_unit w"
  shows "fst (redis_acquire t ci fwl (l, w)) \<noteq> Hang"
  by (rule wp_no_hang, rule wp_redis_acquire) (use assms in \<open>simp_all add: paced_def\<close>)

text \<open>
  a probe is conclusive only with as many answers as there were subscribers, from different
  holders, and an answer that was not understood counts as an exclusive holder; the probe leaves
  the lock's own subscription alone.
\<close>

lemma collect_lock_holders_conclusive:
  assumes "collect_lock_holders c expected t (l, w) = (Done (Some hs), (k, u))"
  shows "k = l \<and> distinct (map rh_holder_id hs) \<and> expected \<le> int (length hs) \<and>
    list_all (\<lambda>j. rh_mode j = EXCLUSIVE \<or> \<not> rh_legacy j) hs"
proof -
  have "wp True (collect_lock_holders c expected t)
      (\<lambda>x s. fst s = l \<and> conclusive expected x) (\<lambda>_ _. True) (l, w)"
    by (rule wp_collect_lock_holders [OF rtick_refl]) (simp_all add: paced_def)
  from wp_DoneD [OF this assms] show ?thesis by (auto simp: conclusive_def list_all_iff)
qed

text \<open>
  C8: a probe gives the lock away only when it is free: to a reader when every participant is a
  reader, to a writer when every participant is a pending writer and its own id is the least. An
  inconclusive probe never does.
\<close>

theorem resolve_takes_only_free_lock:
  assumes "resolve_lock_holders hs fwl (l, w) = (Done True, (k, u))"
  shows "\<exists>H. hs = Some H \<and>
    (rd_flags l = LOCK_SH (rw_plat w) \<and> list_all (\<lambda>j. rh_mode j = SHARED) H \<and> k = l \<or>
     rd_flags l = LOCK_EX (rw_plat w) \<and> \<not> fwl \<and> list_all (\<lambda>j. rh_mode j = PENDING) H \<and>
       pending_ids H \<noteq> {} \<and> rd_holder_id l = Min (pending_ids H) \<and> rd_mode k = EXCLUSIVE)"
proof -
  have "wp True (resolve_lock_holders hs fwl) (\<lambda>b s. decided (rw_plat w) l hs fwl b (fst s))
      (\<lambda>_ _. True) (l, w)"
    by (rule wp_resolve_lock_holders [OF rtick_refl]) simp_all
  from wp_DoneD [OF this assms] show ?thesis by (auto simp: decided_def)
qed

text \<open>
  C34: the election has the same winner for everybody who saw the same participants: a writer is
  elected exactly when nobody is exclusive and its id is the least pending one.
\<close>

theorem writer_election:
  "writer_is_elected l hs \<longleftrightarrow> list_all (\<lambda>k. rh_mode k \<noteq> EXCLUSIVE) hs \<and>
     pending_ids hs \<noteq> {} \<and> rd_holder_id l = Min (pending_ids hs)"
  by (rule writer_is_elected_iff)

text \<open>
  the answer a holder publishes to a ping is read back by the prober as this holder's id and
  its present mode.
\<close>

lemma ping_answer_roundtrip:
  assumes "rd_connection l = Some c" "r \<noteq> []" "sv_error (rw_server w) (rw_calls w) = None"
  shows "\<exists>j. channel_handler \<lparr>msg_type = Some ''message'', msg_data = Some (Json (ping r))\<rparr> (l, w)
      = (Done (), (l, served (CPublish c r j) w)) \<and>
    parse_lock_response (Some (Json j)) i
      = \<lparr>rh_holder_id = rd_holder_id l, rh_mode = rd_mode l, rh_legacy = False\<rparr>"
proof (intro exI conjI)
  show "channel_handler \<lparr>msg_type = Some ''message'', msg_data = Some (Json (ping r))\<rparr> (l, w)
      = (Done (), (l, served (CPublish c r (lock_record l)) w))"
    using assms by (simp add: channel_handler_def ping_def jget_def andthen_def self_def rcall_unit_def
        rcall_def)
  show "parse_lock_response (Some (Json (lock_record l))) i
      = \<lparr>rh_holder_id = rd_holder_id l, rh_mode = rd_mode l, rh_legacy = False\<rparr>"
    by (cases "rd_mode l") (simp_all add: lock_record_def parse_lock_response_def jget_def
        is_version_def mode_of_value_def)
qed

section \<open>Killing\<close>

lemma kill_clients_log:
  "kill_clients c bad cs (l, w) = (Done (), (k, u)) \<Longrightarrow>
    rw_log u = rw_log w @ map (\<lambda>x. CKill c (cl_id x)) (filter bad cs)"
proof (induction cs arbitrary: w)
  case Nil
  then show ?case by (simp add: ret_def)
next
  case (Cons x xs)
  then show ?case
    by (auto simp: andthen_def on_cond_def ret_def rcall_unit_def rcall_def served_def
        split: if_splits option.splits prod.splits res.splits)
qed

definition kill_victim :: "'z rlockobj_scheme \<Rightarrow> RedisLockHolder list \<Rightarrow> rclient \<Rightarrow> bool" where
  "kill_victim l hs x \<longleftrightarrow>
     cl_name x = Some (rd_channel l @ ''-lock'') \<and> (\<forall>j\<in>set hs. \<not> rh_legacy j) \<or>
     (\<exists>i. cl_name x = Some (rd_channel l @ ''-lock-'' @ i) \<and>
        (\<forall>j\<in>set hs. rh_legacy j \<or> rh_holder_id j \<noteq> i))"

lemma unavailable_client_iff: "unavailable_client l hs x = kill_victim l hs x"
proof (cases "cl_name x")
  case None
  then show ?thesis
    by (simp add: unavailable_client_def kill_victim_def legacy_client_name_def)
next
  case (Some n)
  show ?thesis
    unfolding unavailable_client_def kill_victim_def Some Let_def legacy_client_name_def
    by (auto simp: list_ex_iff prefix_def)
qed

text \<open>
  a probe that misses answers kills exactly the connections named after a holder of this
  channel that did not answer; it never kills that of a holder that did, nor one of another
  channel.
\<close>

lemma kill_unavailable_locks_kills:
  assumes "kill_unavailable_locks c hs (l, w) = (Done (), (k, u))"
  shows "rw_log u = rw_log w @ CClientList c None # map (\<lambda>x. CKill c (cl_id x))
    (filter (kill_victim l hs) (sv_clients (rw_server w) (rw_calls w)))"
proof -
  have bad: "unavailable_client l hs = kill_victim l hs" by (rule ext) (rule unavailable_client_iff)
  have "kill_clients c (kill_victim l hs) (sv_clients (rw_server w) (rw_calls w))
      (l, served (CClientList c None) w) = (Done (), (k, u))"
    using assms unfolding kill_unavailable_locks_def
    by (auto simp: bad andthen_def self_def rcall_def split: option.splits)
  from kill_clients_log [OF this] show ?thesis by (simp add: served_def)
qed

section \<open>A retry on a connection of its own\<close>

lemma unsubscribed_of_release:
  assumes "redis_release (l, w) = (Done (), (k, u))"
  shows "k = unsubscribed l"
proof -
  have "wp True redis_release (\<lambda>_ s. fst s = unsubscribed l) (\<lambda>_ _. True) (l, w)"
    by (rule wp_redis_release [OF rtick_refl]) simp_all
  from wp_DoneD [OF this assms] show ?thesis by simp
qed

lemma subscribed_of_start:
  assumes "start_subscription c (l, w) = (Done (), (k, u))"
  shows "\<exists>p. k = l\<lparr>rd_pubsub := Some p, rd_thread := Some ThreadStarted\<rparr>"
proof -
  have "wp True (start_subscription c)
      (\<lambda>_ s. \<exists>p. fst s = l\<lparr>rd_pubsub := Some p, rd_thread := Some ThreadStarted\<rparr>) (\<lambda>_ _. True) (l, w)"
    by (rule wp_start_subscription [OF rtick_refl]) auto
  from wp_DoneD [OF this assms] show ?thesis by simp
qed

text \<open>
  C35: a lock that created its connection itself forgets it when it releases to retry, and the
  retry subscribes on the connection that \<^verbatim>\<open>acquire\<close> still has; from then on the handler
  answers a ping with an \<^verbatim>\<open>AssertionError\<close>, which ends the keep-alive thread.
\<close>

theorem retry_on_own_connection_breaks_handler:
  assumes "rd_close_connection l" "r \<noteq> []"
    and "redis_release (l, w) = (Done (), (k, u))"
    and "start_subscription c (k, u) = (Done (), (m, v))"
  shows "channel_handler \<lparr>msg_type = Some ''message'', msg_data = Some (Json (ping r))\<rparr> (m, v)
    = (Raise (plain_exn CAssertionError []), (m, v))"
proof -
  have "rd_connection m = None"
    using subscribed_of_start [OF assms(4)] unsubscribed_of_release [OF assms(3)] assms(1)
    by (auto simp: unsubscribed_def)
  with assms(2) show ?thesis
    by (simp add: channel_handler_def ping_def jget_def andthen_def self_def throw_def)
qed

text \<open>
  When the thread of a subscription cannot be started, the roll-back joins a thread that never
  ran: its \<^verbatim>\<open>RuntimeError\<close> replaces the error and the subscription stays.
\<close>

lemma failed_thread_start_leaves_subscription:
  assumes "sv_error (rw_server w) = (\<lambda>n. if n = rw_calls w + 5 then Some e else None)"
    and "exn_class e = CRuntimeError"
  shows "\<exists>k u. start_subscription c (l, w) = (Raise join_error, (k, u)) \<and> rd_pubsub k \<noteq> None"
  using assms
  by (simp add: start_subscription_def subscribe_and_read_def redis_release_def stop_thread_def
      thread_join_def andthen_def try_except_def rcreate_def rcall_unit_def rcall_def served_def
      self_def upd_self_def throw_def join_error_def numeral_eq_Suc)

end
