(* ===== verification/RedisProtocol.thy ===== *)
theory RedisProtocol
  imports RedisAcquire
begin

text \<open>
  Two views beyond one call of \<^verbatim>\<open>acquire\<close>: any sequence of operations on one lock object, and
  several participants on one channel.
\<close>

section \<open>Sequences of operations\<close>

datatype redis_op =
    OpAcquire "time option" "time option" "bool option"
  | OpRelease
  | OpMessage rmessage
  | OpCheck nat time string

fun run_redis_op :: "redis_op \<Rightarrow> ('z rlockobj_scheme \<times> rworld, unit) act" where
  "run_redis_op (OpAcquire t ci fwl) = redis_acquire t ci fwl"
| "run_redis_op OpRelease = redis_release"
| "run_redis_op (OpMessage m) = channel_handler m"
| "run_redis_op (OpCheck c t x) = andthen (check_or_kill_lock c t x) (\<lambda>_. ret ())"

text \<open>
  The caller goes on after an operation that returned or raised; \<open>None\<close> when one does neither.
\<close>

fun run_redis_ops ::
  "redis_op list \<Rightarrow> 'z rlockobj_scheme \<times> rworld \<Rightarrow> ('z rlockobj_scheme \<times> rworld) option" where
  "run_redis_ops [] s = Some s"
| "run_redis_ops (x # xs) s = (case run_redis_op x s of
      (Hang, t) \<Rightarrow> None
    | (_, t) \<Rightarrow> run_redis_ops xs t)"

definition redis_wf :: "platform \<Rightarrow> 'z rlockobj_scheme \<Rightarrow> bool" where
  "redis_wf p l \<longleftrightarrow> tidy l \<and>
     (rd_flags l = LOCK_EX p \<and> rd_mode l \<in> {PENDING, EXCLUSIVE} \<or>
      rd_flags l = LOCK_SH p \<and> rd_mode l = SHARED)"

lemma redis_wf_intact: "redis_wf p l \<Longrightarrow> intact l k \<Longrightarrow> redis_wf p k"
  by (auto simp: redis_wf_def intact_def same_lock_fields)

lemma wp_channel_handler:
  "wp True (channel_handler m) (\<lambda>_ s. fst s = l \<and> rtick w (snd s)) (\<lambda>_ s. fst s = l \<and> rtick w (snd s)) (l, w)"
  unfolding channel_handler_def
  by (auto simp: wp_simps split: option.splits payload.splits json.splits intro!: wp_rcall_unitI [of w])

lemma wp_check_or_kill_lock:
  "wp True (check_or_kill_lock c t x) (\<lambda>_ s. fst s = l \<and> rtick w (snd s)) (\<lambda>_ s. fst s = l \<and> rtick w (snd s)) (l, w)"
proof -
  let ?Q = "\<lambda>_ s. fst s = l \<and> rtick w (snd s)"
  have close: "wp True (rcall_unit (CClosePubSub p)) (\<lambda>_. ?Q r) ?Q (l, u)" if "rtick w u" for p u and r :: 'x
    by (rule wp_rcall_unitI [OF that]) auto
  show ?thesis
    unfolding check_or_kill_lock_def wp_self wp_andthen prod.case Let_def
  proof (rule wp_rcreateI [OF rtick_refl], goal_cases)
    case (1 p u)
    show ?case
      unfolding wp_try_finally wp_andthen
    proof (rule wp_rcall_unitI [OF 1], goal_cases)
      case (1 v)
      show ?case
      proof (rule wp_await_confirmation [OF 1], goal_cases)
        case (2 v)
        show ?case
        proof (rule wp_rcall_unitI [OF 2], goal_cases)
          case (1 v)
          show ?case
          proof (rule wp_redis_loopI [where Inv = "\<lambda>_ k. k = l", OF 1], goal_cases)
            case (3 a k q)
            then show ?case
              by (auto simp: wp_simps close split: option.splits intro!: wp_rcallI [of q q])
          next
            case (4 a k q)
            then show ?case
              by (auto simp: wp_simps close intro!: wp_rcallI [of w] wp_kill_clients [of w])
          qed (auto simp: close paced_def)
        qed (use close in auto)
      qed (use close in \<open>auto simp: paced_def\<close>)
    qed (use close in auto)
  qed auto
qed

lemma redis_op_wf:
  assumes "redis_wf (rw_plat w) l" "run_redis_op x (l, w) = (r, (k, u))" "r \<noteq> Hang"
  shows "redis_wf (rw_plat u) k \<and> rw_plat u = rw_plat w"
proof -
  let ?R = "\<lambda>s. redis_wf (rw_plat w) (fst s) \<and> rw_plat (snd s) = rw_plat w"
  have "wp True (run_redis_op x) (\<lambda>_. ?R) (\<lambda>_. ?R) (l, w)"
  proof (cases x)
    case (OpAcquire t ci fwl)
    show ?thesis
    proof (cases "rd_pubsub l")
      case None
      then have "idle l" using assms(1) by (simp add: idle_def redis_wf_def tidy_def)
      from wp_redis_acquire [OF this, of True w t ci fwl] OpAcquire show ?thesis
        using assms(1) LOCK_SH_EX [of "rw_plat w"]
        by (auto elim!: wp_mono simp: paced_def rtick_simps held_def acquire_raises_def redis_wf_def
            same_lock_fields subscribed_def tidy_def)
    next
      case (Some p)
      then show ?thesis
        using OpAcquire assms(1) by (simp add: redis_acquire_def wp_simps Let_def)
    qed
  next
    case OpRelease
    show ?thesis
      unfolding OpRelease run_redis_op.simps
      by (rule wp_redis_release [OF rtick_refl])
         (use assms(1) redis_wf_intact [OF assms(1)] in \<open>auto simp: rtick_simps\<close>)
  next
    case (OpMessage m)
    from wp_channel_handler [of m l w] OpMessage assms(1) show ?thesis
      by (auto elim!: wp_mono simp: rtick_simps)
  next
    case (OpCheck c t y)
    from wp_check_or_kill_lock [of c t y l w] OpCheck assms(1) show ?thesis
      by (auto elim!: wp_mono simp: rtick_simps wp_simps)
  qed
  then have "?R (k, u)"
    using assms(2,3) by (cases r) (auto simp: wp_def)
  then show ?thesis by simp
qed

lemma redis_ops_wf:
  "redis_wf (rw_plat w) l \<Longrightarrow> run_redis_ops xs (l, w) = Some (k, u) \<Longrightarrow> redis_wf (rw_plat u) k"
proof (induction xs arbitrary: l w)
  case (Cons x xs)
  obtain r l' w' where r: "run_redis_op x (l, w) = (r, (l', w'))" by (cases "run_redis_op x (l, w)") auto
  with Cons.prems(2) have go: "r \<noteq> Hang" "run_redis_ops xs (l', w') = Some (k, u)"
    by (auto split: res.splits)
  from redis_op_wf [OF Cons.prems(1) r go(1)] have "redis_wf (rw_plat w') l'" by (rule conjunct1)
  then show ?case using go(2) by (rule Cons.IH)
qed simp

text \<open>
  C21: over any sequence of operations on a lock that the constructor made, whatever raised, the
  mode fits the flags: a reader is always \<^verbatim>\<open>SHARED\<close> and a writer never, and there is a
  keep-alive thread only while there is a subscription.
\<close>

theorem redis_object_invariant:
  assumes "redis_init ch conn t ci fwl ts ut kw flags (z, w) = (Done l, (z', w'))"
    and "run_redis_ops xs (l, w') = Some (k, u)"
  shows "(rd_mode k = SHARED \<longleftrightarrow> rd_flags k = LOCK_SH (rw_plat u)) \<and>
    (rd_mode k = SHARED \<or> rd_flags k = LOCK_EX (rw_plat u)) \<and>
    (rd_pubsub k = None \<longrightarrow> rd_thread k = None)"
proof -
  have "redis_wf (rw_plat w') l"
    using assms(1)
    by (auto simp: redis_init_def andthen_def env_get_def rdraw_def ret_def throw_def upd_world_def
        lockbase.defs rlockobj.defs redis_wf_def tidy_def split: if_splits)
  from redis_ops_wf [OF this assms(2)] show ?thesis
    using LOCK_SH_EX [of "rw_plat u"] by (auto simp: redis_wf_def tidy_def)
qed

section \<open>One channel, several participants\<close>

text \<open>
  A channel: the lock objects subscribed to it, each with the mark whether its \<^verbatim>\<open>acquire\<close> has
  returned. A step is one round of one participant: joining, finding itself alone, or a probe that
  everybody answers, and leaving. A probe and the finding to be alone are one step each: nobody
  joins between the count or the answers and the decision.
\<close>

type_synonym channel = "nat \<Rightarrow> (rlockobj \<times> bool) option"

definition participants :: "channel \<Rightarrow> nat set" where
  "participants S = {i. S i \<noteq> None}"

definition answers :: "channel \<Rightarrow> RedisLockHolder set" where
  "answers S = {parse_lock_response (Some (Json (lock_record l))) 0 | i l b. S i = Some (l, b)}"

definition after_probe :: "bool \<Rightarrow> rlockobj \<Rightarrow> (rlockobj \<times> bool) option" where
  "after_probe b k = (if b then Some (k, True) else if rd_pubsub k = None then None else Some (k, False))"

inductive channel_step :: "platform \<Rightarrow> channel \<Rightarrow> channel \<Rightarrow> bool" for p where
  join: "S i = None \<Longrightarrow> subscribed l \<Longrightarrow> rd_flags l = LOCK_EX p \<and> rd_mode l = PENDING \<or>
      rd_flags l = LOCK_SH p \<and> rd_mode l = SHARED \<Longrightarrow> channel_step p S (S(i \<mapsto> (l, False)))"
| alone: "S i = Some (l, False) \<Longrightarrow> participants S = {i} \<Longrightarrow> rw_plat w = p \<Longrightarrow>
      claim_alone (l, w) = (Done (Leave ()), (k, u)) \<Longrightarrow> channel_step p S (S(i \<mapsto> (k, True)))"
| probe: "S i = Some (l, False) \<Longrightarrow> set hs = answers S \<Longrightarrow> rw_plat w = p \<Longrightarrow>
      resolve_lock_holders (Some hs) fwl (l, w) = (Done b, (k, u)) \<Longrightarrow>
      channel_step p S (S(i := after_probe b k))"
| refused: "S i = Some (l, False) \<Longrightarrow> channel_step p S (S(i := None))"
| leave: "S i = Some (l, True) \<Longrightarrow> channel_step p S (S(i := None))"

inductive channel_reaches :: "platform \<Rightarrow> channel \<Rightarrow> bool" for p where
  empty: "channel_reaches p (\<lambda>_. None)"
| step: "channel_reaches p S \<Longrightarrow> channel_step p S T \<Longrightarrow> channel_reaches p T"

definition channel_inv :: "platform \<Rightarrow> channel \<Rightarrow> bool" where
  "channel_inv p S \<longleftrightarrow>
     (\<forall>i l b. S i = Some (l, b) \<longrightarrow> (rd_mode l = SHARED \<longleftrightarrow> rd_flags l \<noteq> LOCK_EX p) \<and>
        (if b then rd_mode l \<noteq> PENDING else rd_mode l \<noteq> EXCLUSIVE)) \<and>
     (\<forall>i j l m. S i = Some (l, True) \<longrightarrow> S j = Some (m, True) \<longrightarrow> rd_mode l = EXCLUSIVE \<longrightarrow> i = j)"

lemma answer_of_record:
  "parse_lock_response (Some (Json (lock_record l))) i
     = \<lparr>rh_holder_id = rd_holder_id l, rh_mode = rd_mode l, rh_legacy = False\<rparr>"
  by (cases "rd_mode l") (simp_all add: lock_record_def parse_lock_response_def jget_def
      is_version_def mode_of_value_def)

lemma list_all_answers:
  assumes "set hs = answers S"
  shows "list_all (\<lambda>h. P (rh_mode h)) hs \<longleftrightarrow> (\<forall>i l b. S i = Some (l, b) \<longrightarrow> P (rd_mode l))"
  unfolding list_all_iff assms answers_def by (fastforce simp: answer_of_record)

lemma claim_alone_result:
  "claim_alone (l, w) = (Done (Leave ()),
     ((if rd_flags l = LOCK_EX (rw_plat w) then l\<lparr>rd_mode := EXCLUSIVE\<rparr> else l), w))"
  by (simp add: claim_alone_def andthen_def self_def env_get_def on_cond_def set_mode_def upd_self_def
      ret_def)

lemma channel_inv_step:
  assumes "channel_step p S T" "channel_inv p S"
  shows "channel_inv p T"
  using assms(1)
proof (cases rule: channel_step.cases)
  case (join i l)
  then show ?thesis using assms(2) LOCK_SH_EX [of p] unfolding channel_inv_def by (auto split: if_splits)
next
  case (alone i l w k u)
  have "S j = None" if "j \<noteq> i" for j using alone(3) that by (auto simp: participants_def)
  moreover have "(rd_mode l = SHARED) = (rd_flags l \<noteq> LOCK_EX p)"
    using alone(2) assms(2) unfolding channel_inv_def by blast
  ultimately show ?thesis
    using alone(1,4,5) unfolding channel_inv_def by (auto simp: claim_alone_result split: if_splits)
next
  case (probe i l hs w fwl b k u)
  have "wp True (resolve_lock_holders (Some hs) fwl) (\<lambda>b s. decided p l (Some hs) fwl b (fst s))
      (\<lambda>_ _. True) (l, w)"
    by (rule wp_resolve_lock_holders [OF rtick_refl]) (simp_all add: probe(4))
  from wp_DoneD [OF this probe(5)] have d: "decided p l (Some hs) fwl b k" by simp
  have all: "list_all (\<lambda>h. rh_mode h = m) hs \<longleftrightarrow> (\<forall>i l b. S i = Some (l, b) \<longrightarrow> rd_mode l = m)" for m
    by (rule list_all_answers [OF probe(3)])
  show ?thesis
  proof (cases b)
    case True
    have T: "T = S(i \<mapsto> (k, True))" using probe(1) True by (simp add: after_probe_def)
    from d True consider
        (reader) "rd_flags l = LOCK_SH p" "\<forall>i l b. S i = Some (l, b) \<longrightarrow> rd_mode l = SHARED" "k = l"
      | (writer) "rd_flags l = LOCK_EX p" "\<forall>i l b. S i = Some (l, b) \<longrightarrow> rd_mode l = PENDING"
          "k = l\<lparr>rd_writer_elected := True, rd_mode := EXCLUSIVE\<rparr>"
      unfolding decided_def by (auto simp: all)
    then show ?thesis
    proof cases
      case reader
      with probe(2) have "rd_mode l = SHARED" by blast
      moreover have "rd_mode m = SHARED \<and> rd_flags m \<noteq> LOCK_EX p" if "S j = Some (m, b)" for j m b
        using that reader(2) assms(2) unfolding channel_inv_def by blast
      ultimately show ?thesis
        using reader(1,3) LOCK_SH_EX [of p] unfolding channel_inv_def T
        by (auto split: if_splits)
    next
      case writer
      have "S j \<noteq> Some (m, True)" for j m
        using writer(2) assms(2) unfolding channel_inv_def by (metis (full_types))
      with writer(1,3) assms(2) show ?thesis
        unfolding channel_inv_def T by (auto split: if_splits)
    qed
  next
    case False
    then have T: "T = S(i := if rd_pubsub k = None then None else Some (k, False))"
      using probe(1) by (simp add: after_probe_def)
    have "rd_mode k = rd_mode l" "rd_flags k = rd_flags l"
      using d False by (auto simp: decided_def)
    then have "(rd_mode k = SHARED) = (rd_flags k \<noteq> LOCK_EX p)" "rd_mode k \<noteq> EXCLUSIVE"
      using probe(2) assms(2) unfolding channel_inv_def by auto
    moreover have "(rd_mode m = SHARED) = (rd_flags m \<noteq> LOCK_EX p)"
        "if b then rd_mode m \<noteq> PENDING else rd_mode m \<noteq> EXCLUSIVE" if "S j = Some (m, b)" for j m b
      using that assms(2) unfolding channel_inv_def by blast+
    moreover have "j = j'" if "S j = Some (m, True)" "S j' = Some (m', True)" "rd_mode m = EXCLUSIVE"
      for j j' m m' using that assms(2) unfolding channel_inv_def by blast
    ultimately show ?thesis
      unfolding channel_inv_def T fun_upd_apply by (simp split: if_splits) blast
  qed
qed (use assms(2) in \<open>auto simp: channel_inv_def split: if_splits\<close>)



end
