(* ===== verification/RedisWitnesses.thy ===== *)
theory RedisWitnesses
  imports RedisProtocol
begin

text \<open>The properties of \<^verbatim>\<open>RedisLock\<close> applied at concrete inputs.\<close>

section \<open>Inputs\<close>

definition demo_server :: "int \<Rightarrow> server" where
  "demo_server n = \<lparr> sv_error = (\<lambda>_. None), sv_delay = (\<lambda>_. 0), sv_count = (\<lambda>_. n),
     sv_message = (\<lambda>_. None), sv_clients = (\<lambda>_. []), sv_random = (\<lambda>_. 1 / 2), sv_uuid = (\<lambda>_. ''u'') \<rparr>"

definition demo_rworld :: "int \<Rightarrow> rworld" where
  "demo_rworld n = \<lparr> rw_plat = POSIX, rw_server = demo_server n, rw_calls = 0, rw_clock = 0, rw_log = [] \<rparr>"

definition demo_redis :: rlockobj where
  "demo_redis = \<lparr> lb_timeout = 0, lb_check_interval = 1 / 4, lb_fail_when_locked = False,
     rd_channel = ''c'', rd_connection = Some 0, rd_thread_sleep_time = 1 / 10,
     rd_unavailable_timeout = 1 / 10, rd_kwargs = [], rd_close_connection = False, rd_flags = 2,
     rd_holder_id = ''b'', rd_writer_elected = False, rd_mode = PENDING, rd_thread = None,
     rd_pubsub = None \<rparr>"

lemma demo_redis_idle [simp]: "idle demo_redis"
  by (simp add: idle_def demo_redis_def)

lemma demo_random [simp]: "random_unit (demo_rworld n)"
  by (simp add: random_unit_def demo_rworld_def demo_server_def)

lemma redis_run_split: "fst r = x \<Longrightarrow> r = (x, (fst (snd r), snd (snd r)))"
  by (cases r) simp

section \<open>Acquiring\<close>

lemma demo_redis_alone: "fst (redis_acquire None None None (demo_redis, demo_rworld 1)) = Done ()"
  by code_simp

theorem redis_acquire_success_witness:
  "\<exists>k u. redis_acquire None None None (demo_redis, demo_rworld 1) = (Done (), (k, u)) \<and>
     rd_pubsub k \<noteq> None \<and> rd_mode k = EXCLUSIVE"
  using redis_acquire_success [OF demo_redis_idle redis_run_split [OF demo_redis_alone]]
    redis_run_split [OF demo_redis_alone]
  by (fastforce simp: demo_redis_def demo_rworld_def)

lemma demo_redis_busy:
  "fst (redis_acquire None None (Some True) (demo_redis, demo_rworld 2)) = Raise redis_already_locked"
  by code_simp

theorem redis_acquire_locked_out_witness:
  "\<exists>k u. redis_acquire None None (Some True) (demo_redis, demo_rworld 2) = (Raise redis_already_locked, (k, u)) \<and>
     rd_pubsub k = None \<and> rd_thread k = None"
  using redis_acquire_locked_out [OF demo_redis_idle redis_run_split [OF demo_redis_busy]]
    redis_run_split [OF demo_redis_busy]
  by (fastforce simp: demo_rworld_def demo_server_def redis_already_locked_def)

theorem redis_acquire_returns_witness:
  "fst (redis_acquire (Some 1000) (Some 0) None (demo_redis, demo_rworld 3)) \<noteq> Hang"
  by (rule redis_acquire_returns) (simp_all add: demo_redis_def [THEN arg_cong, of rd_thread_sleep_time])

section \<open>Probing and deciding\<close>

definition reply :: "string \<Rightarrow> RedisLockMode \<Rightarrow> rmessage" where
  "reply i m = \<lparr> msg_type = Some ''message'',
     msg_data = Some (Json (lock_record (demo_redis\<lparr>rd_holder_id := i, rd_mode := m\<rparr>))) \<rparr>"

definition probe_rworld :: rworld where
  "probe_rworld = demo_rworld 2
     \<lparr> rw_server := demo_server 2 \<lparr> sv_message := (\<lambda>n.
         if n = 4 then Some \<lparr>msg_type = Some ''subscribe'', msg_data = None\<rparr>
         else if n = 7 then Some (reply ''b'' PENDING) else Some (reply ''c'' PENDING)) \<rparr> \<rparr>"

definition demo_holders :: "RedisLockHolder list" where
  "demo_holders = [\<lparr>rh_holder_id = ''b'', rh_mode = PENDING, rh_legacy = False\<rparr>,
     \<lparr>rh_holder_id = ''c'', rh_mode = PENDING, rh_legacy = False\<rparr>]"

lemma demo_probe: "fst (collect_lock_holders 0 2 (1 / 10) (demo_redis, probe_rworld)) = Done (Some demo_holders)"
  by code_simp

theorem collect_lock_holders_conclusive_witness:
  "fst (snd (collect_lock_holders 0 2 (1 / 10) (demo_redis, probe_rworld))) = demo_redis \<and>
     distinct (map rh_holder_id demo_holders)"
  using collect_lock_holders_conclusive [OF redis_run_split [OF demo_probe]] by simp

lemma demo_resolve: "fst (resolve_lock_holders (Some demo_holders) False (demo_redis, demo_rworld 2)) = Done True"
  by code_simp

theorem resolve_takes_only_free_lock_witness:
  "rd_mode (fst (snd (resolve_lock_holders (Some demo_holders) False (demo_redis, demo_rworld 2)))) = EXCLUSIVE"
  using resolve_takes_only_free_lock [OF redis_run_split [OF demo_resolve]]
  by (auto simp: demo_redis_def demo_rworld_def)

theorem ping_answer_roundtrip_witness:
  "\<exists>j. channel_handler \<lparr>msg_type = Some ''message'', msg_data = Some (Json (ping ''r''))\<rparr>
       (demo_redis, demo_rworld 1) = (Done (), (demo_redis, served (CPublish 0 ''r'' j) (demo_rworld 1))) \<and>
     parse_lock_response (Some (Json j)) 5 = \<lparr>rh_holder_id = ''b'', rh_mode = PENDING, rh_legacy = False\<rparr>"
  using ping_answer_roundtrip [of demo_redis 0 "''r''" "demo_rworld 1" 5]
  by (simp add: demo_redis_def demo_rworld_def demo_server_def)

definition kill_rworld :: rworld where
  "kill_rworld = demo_rworld 2
     \<lparr> rw_server := demo_server 2 \<lparr> sv_clients := (\<lambda>_.
         [\<lparr>cl_id = Some ''1'', cl_name = Some ''c-lock-b''\<rparr>, \<lparr>cl_id = Some ''2'', cl_name = Some ''c-lock-d''\<rparr>,
          \<lparr>cl_id = Some ''3'', cl_name = Some ''e-lock-d''\<rparr>]) \<rparr> \<rparr>"

lemma demo_kill: "fst (kill_unavailable_locks 0 demo_holders (demo_redis, kill_rworld)) = Done ()"
  by code_simp

theorem kill_unavailable_locks_kills_witness:
  "rw_log (snd (snd (kill_unavailable_locks 0 demo_holders (demo_redis, kill_rworld))))
     = [CClientList 0 None, CKill 0 (Some ''2'')]"
proof -
  have bad: "kill_victim l hs = unavailable_client l hs" for l :: rlockobj and hs
    by (rule ext) (simp add: unavailable_client_iff)
  have "rw_log kill_rworld @ CClientList 0 None # map (\<lambda>x. CKill 0 (cl_id x))
      (filter (unavailable_client demo_redis demo_holders)
        (sv_clients (rw_server kill_rworld) (rw_calls kill_rworld)))
    = [CClientList 0 None, CKill 0 (Some ''2'')]"
    by code_simp
  then show ?thesis
    using kill_unavailable_locks_kills [OF redis_run_split [OF demo_kill]] by (simp add: bad)
qed

section \<open>Retrying\<close>

definition own_rlock :: rlockobj where
  "own_rlock = demo_redis\<lparr>rd_close_connection := True\<rparr>"

definition own_released :: "unit res \<times> rlockobj \<times> rworld" where
  "own_released = redis_release (own_rlock, demo_rworld 2)"

lemma own_released: "fst own_released = Done ()"
  by code_simp

lemma own_subscribed: "fst (start_subscription 0 (fst (snd own_released), snd (snd own_released))) = Done ()"
  by code_simp

theorem retry_on_own_connection_breaks_handler_witness:
  "fst (channel_handler \<lparr>msg_type = Some ''message'', msg_data = Some (Json (ping ''r''))\<rparr>
     (snd (start_subscription 0 (fst (snd own_released), snd (snd own_released)))))
   = Raise (plain_exn CAssertionError [])"
proof -
  have "rd_close_connection own_rlock" "''r'' \<noteq> []" by (simp_all add: own_rlock_def)
  from retry_on_own_connection_breaks_handler
    [OF this redis_run_split [OF own_released, unfolded own_released_def]
      redis_run_split [OF own_subscribed, unfolded own_released_def]]
  show ?thesis by (simp add: own_released_def)
qed

section \<open>Sequences and channels\<close>

definition demo_init :: "rlockobj res \<times> unit \<times> rworld" where
  "demo_init = redis_init ''c'' (Some 0) None None None (1 / 10) 1 [] 1 ((), demo_rworld 1)"

definition demo_object :: rlockobj where
  "demo_object = (case fst demo_init of Done l \<Rightarrow> l | _ \<Rightarrow> undefined)"

lemma demo_init: "demo_init = (Done demo_object, ((), snd (snd demo_init)))"
  by (simp add: demo_init_def demo_object_def redis_init_def andthen_def env_get_def rdraw_def ret_def
      upd_world_def demo_rworld_def)

lemma demo_ops: "run_redis_ops [OpRelease] (demo_object, snd (snd demo_init)) \<noteq> None"
  by (simp add: demo_init_def demo_object_def redis_init_def andthen_def env_get_def rdraw_def ret_def
      upd_world_def demo_rworld_def lockbase.defs rlockobj.defs redis_release_def stop_thread_def
      drop_subscription_def self_def upd_self_def)

theorem redis_object_invariant_witness:
  "\<exists>k u. run_redis_ops [OpRelease] (demo_object, snd (snd demo_init)) = Some (k, u) \<and>
     (rd_mode k = SHARED \<or> rd_flags k = LOCK_EX (rw_plat u))"
proof -
  obtain k u where r: "run_redis_ops [OpRelease] (demo_object, snd (snd demo_init)) = Some (k, u)"
    using demo_ops by (cases "run_redis_ops [OpRelease] (demo_object, snd (snd demo_init))") auto
  from redis_object_invariant [OF demo_init [unfolded demo_init_def] r [unfolded demo_init_def]] r
  show ?thesis by blast
qed

definition demo_member :: rlockobj where
  "demo_member = demo_redis\<lparr>rd_pubsub := Some 0, rd_thread := Some ThreadStarted\<rparr>"

lemma demo_channel: "channel_reaches POSIX [0 \<mapsto> (demo_member\<lparr>rd_mode := EXCLUSIVE\<rparr>, True)]"
proof -
  have a: "channel_step POSIX (\<lambda>_. None) [0 \<mapsto> (demo_member, False)]"
    by (rule channel_step.join) (simp_all add: subscribed_def demo_member_def demo_redis_def)
  have b: "channel_step POSIX [0 \<mapsto> (demo_member, False)]
      ([0 \<mapsto> (demo_member, False)](0 \<mapsto> (demo_member\<lparr>rd_mode := EXCLUSIVE\<rparr>, True)))"
    by (rule channel_step.alone [where w = "demo_rworld 1"])
       (auto simp: participants_def demo_rworld_def claim_alone_result demo_member_def demo_redis_def)
  from channel_reaches.step [OF channel_reaches.step [OF channel_reaches.empty a] b]
  show ?thesis by simp
qed



section \<open>An exception while probing\<close>

text \<open>
  When a call fails after the subscription stands, \<^verbatim>\<open>acquire\<close> raises without a release: the
  object keeps subscription and thread, and its next \<^verbatim>\<open>acquire\<close> stops at the assertion that it is not active.
\<close>

definition failing_rworld :: rworld where
  "failing_rworld = demo_rworld 2 \<lparr> rw_server := demo_server 2
     \<lparr> sv_error := (\<lambda>k. if k = 10 then Some (plain_exn CRuntimeError []) else None) \<rparr> \<rparr>"

lemma failed_probe_leaves_subscription:
  "case redis_acquire None None None (demo_redis, failing_rworld) of (r, (k, u)) \<Rightarrow>
     r = Raise (plain_exn CRuntimeError []) \<and> rd_pubsub k \<noteq> None \<and> rd_thread k = Some ThreadStarted \<and>
     (case fst (redis_acquire None None None (k, u)) of Raise e \<Rightarrow> exn_class e = CAssertionError | _ \<Rightarrow> False)"
  by code_simp

end
