(* ===== verification/Liveness.thy ===== *)
theory Liveness
  imports PidRoundtrip FileLockFacts
begin

text \<open>
  That the locks get what they ask for: when nobody holds a conflicting lock on the file, no call
  fails and nobody interferes, \<^verbatim>\<open>Lock.acquire\<close> succeeds; and that with \<^verbatim>\<open>fail_when_locked\<close> a
  conflicting lock is reported at once, with nothing changed.
\<close>

definition unlocked_for :: "path \<Rightarrow> lmode \<Rightarrow> world \<Rightarrow> bool" where
  "unlocked_for p m w \<longleftrightarrow> (\<forall>g i h m'. paths w p = Some i \<longrightarrow> handles w g = Some h \<longrightarrow> h_ino h = i
     \<longrightarrow> flocks w g = Some m' \<longrightarrow> max m m' \<noteq> Ex)"

text \<open>The world between the calls of an undisturbed \<^verbatim>\<open>acquire\<close>: the handle \<open>f\<close> is open.\<close>

definition quiet_handle :: "fd \<Rightarrow> 'l \<Rightarrow> 'l \<times> world \<Rightarrow> bool" where
  "quiet_handle f l = (\<lambda>(k, w). k = l \<and> tape w = [] \<and>
     (\<exists>h. handles w f = Some h \<and> h_owner h = mypid w \<and> h_writable h))"

definition ready_to_lock :: "fd \<Rightarrow> lmode \<Rightarrow> 'l \<Rightarrow> 'l \<times> world \<Rightarrow> bool" where
  "ready_to_lock f m l s \<longleftrightarrow> quiet_handle f l s \<and> flock_world (snd s) \<and> \<not> flock_conflict (snd s) f m"

lemma open_quietly:
  assumes "wf_world w" "flock_world w" "tape w = []" "unlocked_for p m w"
    and "parse_mode md = Some (OpenAppend, upd)"
  shows "wp False (sys_open p md) (\<lambda>f. ready_to_lock f m l) (\<lambda>_ _. False) (l, w)"
proof (cases "paths w p")
  case None
  then show ?thesis
    using assms wf_handle [OF assms(1)]
    by (fastforce simp: sys_open_def k_open_def add_handle_def create_file_def new_handle_def quiet_defs
        ready_to_lock_def quiet_handle_def flock_conflict_def list_ex_upt_iff same_file_def flock_world_def
        split: option.splits)
next
  case (Some i)
  then show ?thesis
    using assms
    by (fastforce simp: sys_open_def k_open_def add_handle_def new_handle_def quiet_defs
        ready_to_lock_def quiet_handle_def flock_conflict_def list_ex_upt_iff same_file_def flock_world_def
        unlocked_for_def split: option.splits)
qed

lemma lock_quietly:
  assumes "ready_to_lock f m l s" "lmode_of (flags AND NOT 4) = Some m"
  shows "wp False (pl_lock (FFile f) flags) (\<lambda>_. quiet_handle f l) (\<lambda>_ _. False) s"
proof (cases s)
  case (Pair k w)
  have c: "flags AND NOT 4 \<noteq> 8" using assms(2) by (auto split: if_splits)
  from assms(1) Pair have w: "mine w f" "flock_world w" "tape w = []" "\<not> flock_conflict w f m"
    by (auto simp: ready_to_lock_def quiet_handle_def mine_def)
  have "quiet_handle f l (k, grant_flock f m w)"
    using assms(1) Pair by (simp add: ready_to_lock_def quiet_handle_def grant_flock_def)
  then show ?thesis
    using w c assms(2) lmode_of_nb [OF assms(2)] Pair
    by (simp add: pl_lock_def posix_dispatch_lock_def resolve_locker_pair_def flock_world_def posix_lock_def
        posix_locker_def fcntl_call_def k_flock_def py_fileno_def andthen_def env_get_def ret_def
        try_except_def wp_def syscall_def pop_quiet Let_def)
qed

lemma seek_quietly:
  "quiet_handle f l s \<Longrightarrow> wp False (fh_seek f n) (\<lambda>_. quiet_handle f l) (\<lambda>_ _. False) s"
  by (cases s) (auto simp: fh_seek_def set_pos_def k_flush_def quiet_handle_def quiet_defs Let_def)

lemma truncate_quietly:
  "quiet_handle f l s \<Longrightarrow> wp False (fh_truncate f n) (\<lambda>_. quiet_handle f l) (\<lambda>_ _. False) s"
  by (cases s) (auto simp: fh_truncate_def k_flush_def quiet_handle_def quiet_defs Let_def)

lemma prepare_quietly:
  assumes "quiet_handle f l s"
  shows "wp False (lock_prepare_fh f) (\<lambda>g. quiet_handle f l) (\<lambda>_ _. False) s"
proof -
  have "wp False (andthen (fh_seek f 0) (\<lambda>_. fh_truncate f 0)) (\<lambda>_. quiet_handle f l) (\<lambda>_ _. False) s"
    by (rule wp_andthenI [OF seek_quietly [OF assms] truncate_quietly])
  with assms show ?thesis
    by (cases s) (auto simp: lock_prepare_fh_def wp_simps)
qed

text \<open>An \<^verbatim>\<open>acquire\<close> of an object that holds nothing, after the warning about its flags.\<close>

definition acquire_afresh ::
  "'z flock_scheme \<Rightarrow> time option \<Rightarrow> time option \<Rightarrow> bool \<Rightarrow> ('z flock_scheme \<times> world, fd) act" where
  "acquire_afresh l t ci fwl = andthen lock_get_fh (\<lambda>f.
     andthen (retry_loop l t ci None (lock_attempt fwl f)) (\<lambda>r. case r of
        Leave f' \<Rightarrow> lock_finish f'
      | Cont (Some exc) \<Rightarrow> andthen (try_close f) (\<lambda>_. throw exc)
      | Cont None \<Rightarrow> lock_finish f))"

lemma lock_acquire_afresh:
  assumes "fl_fh l = None"
  shows "\<exists>ws. lock_acquire t ci fwl (l, w)
    = acquire_afresh l t ci (the (coalesce None [fwl, Some (lb_fail_when_locked l)])) (l, w\<lparr>warned := ws\<rparr>)"
proof -
  define c where "c \<longleftrightarrow> \<not> non_blocking (fl_flags l) \<and> t \<noteq> None"
  define ws where "ws = (if c then warned w @ [blocking_warning] else warned w)"
  have "on_cond c (warn blocking_warning) (l, w) = (Done (), (l, w\<lparr>warned := ws\<rparr>))"
    by (simp add: ws_def on_cond_def warn_def ret_def)
  note warned = this [unfolded c_def]
  have "self (l, w) = (Done l, (l, w))" by (simp add: self_def)
  then have "lock_acquire t ci fwl (l, w)
      = acquire_afresh l t ci (the (coalesce None [fwl, Some (lb_fail_when_locked l)])) (l, w\<lparr>warned := ws\<rparr>)"
    unfolding lock_acquire_def Let_def acquire_afresh_def
    by (rule andthen_Done) (rule andthen_Done, rule warned, simp only: assms option.case)
  then show ?thesis ..
qed

lemma retry_loop_first:
  assumes "wp h (body 0 a) (\<lambda>r s. \<exists>x. r = Leave x \<and> P x s) E s"
  shows "wp h (retry_loop l t ci a body) (\<lambda>r s. \<exists>x. r = Leave x \<and> P x s) E s"
proof -
  have e: "attempt_bound (effective_timeout l t) + 2 = Suc (attempt_bound (effective_timeout l t) + 1)" by simp
  show ?thesis
    unfolding retry_loop_def e for_gen.simps timeout_generator.simps andthen_ret option.case prod.case wp_andthen
    by (rule wp_mono [OF assms]) (auto simp: wp_simps)
qed

lemma acquire_afresh_free:
  assumes v: "wf_world v" "flock_world v" "tape v = []" "unlocked_for (fl_filename l) m v"
    and md: "parse_mode (fl_mode l) = Some (OpenAppend, upd)" and fl: "lmode_of (fl_flags l AND NOT 4) = Some m"
  shows "wp False (acquire_afresh l t ci fwl) (\<lambda>g s. fl_fh (fst s) = Some g) (\<lambda>_ _. False) (l, v)"
proof -
  have finish: "wp False (lock_finish f) (\<lambda>g s. fl_fh (fst s) = Some g) (\<lambda>_ _. False) s"
    if "quiet_handle f l s" for f s
    unfolding lock_finish_def wp_andthen
    by (rule wp_mono [OF prepare_quietly [OF that]]) (auto simp: wp_simps split: prod.splits)
  have attempt: "wp False (lock_attempt fwl f 0 None) (\<lambda>r s. \<exists>g. r = Leave g \<and> (g = f \<and> quiet_handle f l s))
      (\<lambda>_ _. False) s" if rdy: "ready_to_lock f m l s" for f s
  proof -
    obtain b where s: "s = (l, b)" using rdy by (cases s) (simp add: ready_to_lock_def quiet_handle_def)
    show ?thesis
      unfolding lock_attempt_def lock_get_lock_def wp_simps s prod.case
      by (rule wp_mono [OF lock_quietly [OF rdy [unfolded s] fl]]) auto
  qed
  have loop: "wp False (retry_loop l t ci None (lock_attempt fwl f))
      (\<lambda>r s. \<exists>g. r = Leave g \<and> (g = f \<and> quiet_handle f l s)) (\<lambda>_ _. False) s"
    if "ready_to_lock f m l s" for f s
    by (rule retry_loop_first) (rule attempt [OF that])
  show ?thesis
    unfolding acquire_afresh_def lock_get_fh_def wp_andthen wp_self prod.case
    by (rule wp_mono [OF open_quietly [OF v md]], rule wp_mono [OF loop]) (auto simp: finish)
qed

lemma lock_acquire_quietly:
  assumes "wf_world w" "flock_world w" "tape w = []" "fl_fh l = None"
    and "parse_mode (fl_mode l) = Some (OpenAppend, upd)"
    and "lmode_of (fl_flags l AND NOT 4) = Some m" "unlocked_for (fl_filename l) m w"
  shows "wp False (lock_acquire t ci fwl) (\<lambda>g s. fl_fh (fst s) = Some g) (\<lambda>_ _. False) (l, w)"
proof -
  from lock_acquire_afresh [OF assms(4), of t ci fwl w] obtain ws where
    eq: "lock_acquire t ci fwl (l, w) = acquire_afresh l t ci
      (the (coalesce None [fwl, Some (lb_fail_when_locked l)])) (l, w\<lparr>warned := ws\<rparr>)" ..
  have "wp False (acquire_afresh l t ci (the (coalesce None [fwl, Some (lb_fail_when_locked l)])))
      (\<lambda>g s. fl_fh (fst s) = Some g) (\<lambda>_ _. False) (l, w\<lparr>warned := ws\<rparr>)"
    by (rule acquire_afresh_free) (use assms in \<open>auto simp: flock_world_def unlocked_for_def\<close>)
  with eq show ?thesis by (simp add: wp_def)
qed

text \<open>
  C15: on a system without interference and failures \<^verbatim>\<open>Lock.acquire\<close> gets a free lock: it returns
  a handle when no open handle of the file holds a conflicting lock.
\<close>

theorem lock_acquire_gets_free_lock:
  fixes l :: "'z flock_scheme"
  assumes "wf_world w" "flock_world w" "tape w = []" "fl_fh l = None"
    and "parse_mode (fl_mode l) = Some (OpenAppend, upd)"
    and "lmode_of (fl_flags l AND NOT 4) = Some m" "unlocked_for (fl_filename l) m w"
  shows "\<exists>f k u. lock_acquire t ci fwl (l, w) = (Done f, (k, u)) \<and> fl_fh k = Some f"
  using lock_acquire_quietly [OF assms, of t ci fwl]
  by (cases "lock_acquire t ci fwl (l, w)") (auto simp: wp_def split: res.splits)

section \<open>Contention\<close>

definition as_before :: "world \<Rightarrow> world \<Rightarrow> bool" where
  "as_before w u \<longleftrightarrow> paths u = paths w \<and> content u = content w \<and> handles u = handles w \<and>
     flocks u = flocks w \<and> clock u = clock w \<and> tape u = tape w"

text \<open>A new handle \<open>f\<close> of a file that somebody else has locked.\<close>

definition waiting_handle :: "world \<Rightarrow> fd \<Rightarrow> lmode \<Rightarrow> 'l \<Rightarrow> 'l \<times> world \<Rightarrow> bool" where
  "waiting_handle w f m l = (\<lambda>(k, u). k = l \<and> flock_world u \<and> tape u = [] \<and> tape w = [] \<and>
     handles w f = None \<and> flocks w f = None \<and> flock_conflict u f m \<and>
     (\<exists>h. handles u = (handles w)(f \<mapsto> h) \<and> h_owner h = mypid u \<and> h_buf h = []) \<and>
     paths u = paths w \<and> content u = content w \<and> flocks u = flocks w \<and> clock u = clock w)"

lemma open_locked_file:
  assumes "wf_world w" "flock_world w" "tape w = []" "\<not> unlocked_for p m w"
    and "parse_mode md = Some (OpenAppend, upd)"
  shows "wp False (sys_open p md) (\<lambda>f. waiting_handle w f m l) (\<lambda>_ _. False) (l, w)"
proof -
  from assms(4) obtain g i h m' where g: "paths w p = Some i" "handles w g = Some h" "h_ino h = i"
    "flocks w g = Some m'" "max m m' = Ex" by (auto simp: unlocked_for_def)
  moreover have "g < next_fd w" using g(2) wf_handle [OF assms(1)] by blast
  ultimately show ?thesis
    using assms wf_next_fd [OF assms(1)] wf_next_flock [OF assms(1)]
    by (auto simp: sys_open_def k_open_def add_handle_def new_handle_def quiet_defs waiting_handle_def
        flock_conflict_def list_ex_upt_iff same_file_def flock_world_def intro!: exI [of _ g])
qed

lemma lock_refused:
  assumes "waiting_handle w f m l s" "lmode_of (flags AND NOT 4) = Some m" "non_blocking flags"
  shows "wp False (pl_lock (FFile f) flags) (\<lambda>_ _. False)
    (\<lambda>e s'. exn_class e = CAlreadyLocked \<and> (\<exists>u. s = (l, u) \<and> s' = (l, drop_flock f u))) s"
proof (cases s)
  case (Pair k u)
  have c: "flags AND NOT 4 \<noteq> 8" using assms(2) by (auto split: if_splits)
  from assms(1) Pair have u: "k = l" "mine u f" "flock_world u" "tape u = []" "flock_conflict u f m"
    by (auto simp: waiting_handle_def mine_def)
  show ?thesis
    using u c assms(2,3) lmode_of_nb [OF assms(2)] Pair
    by (simp add: pl_lock_def posix_dispatch_lock_def resolve_locker_pair_def flock_world_def posix_lock_def
        posix_locker_def fcntl_call_def k_flock_def py_fileno_def andthen_def env_get_def ret_def throw_def
        try_except_def wp_def syscall_def pop_quiet Let_def non_blocking_def posix_translate_def)
qed

lemma close_refused:
  assumes "waiting_handle w f m l (l, u)"
  shows "wp False (try_close f) (\<lambda>_ s'. fst s' = l \<and> as_before w (snd s')) (\<lambda>_ _. False) (l, drop_flock f u)"
  using assms
  by (auto simp: try_close_def fh_close_def waiting_handle_def as_before_def drop_flock_def drop_handle_def
      k_flush_def quiet_defs suppress_def try_except_def Let_def ret_def intro!: ext)

lemma acquire_afresh_contended:
  assumes v: "wf_world v" "flock_world v" "tape v = []" "\<not> unlocked_for (fl_filename l) m v"
    and md: "parse_mode (fl_mode l) = Some (OpenAppend, upd)" and fl: "lmode_of (fl_flags l AND NOT 4) = Some m"
    and nb: "non_blocking (fl_flags l)"
  shows "wp False (acquire_afresh l t ci True) (\<lambda>_ _. False)
    (\<lambda>e s. exn_class e = CAlreadyLocked \<and> fst s = l \<and> as_before v (snd s)) (l, v)"
proof -
  let ?E = "\<lambda>e s. exn_class e = CAlreadyLocked \<and> fst s = l \<and> as_before v (snd s)"
  have attempt: "wp False (lock_attempt True f 0 None) (\<lambda>r s. \<exists>g. r = Leave g \<and> False) ?E s"
    if rdy: "waiting_handle v f m l s" for f s
  proof -
    obtain b where s: "s = (l, b)" using rdy by (cases s) (simp add: waiting_handle_def)
    have close: "wp False (try_close f) (\<lambda>_ s'. ?E (set_cause (AlreadyLocked [AExn e] None) e) s') ?E (l, drop_flock f b)"
      for e by (rule wp_mono [OF close_refused [OF rdy [unfolded s]]]) auto
    show ?thesis
      unfolding lock_attempt_def lock_get_lock_def wp_simps s prod.case
    proof (rule wp_mono [OF lock_refused [OF rdy [unfolded s] fl nb]], goal_cases)
      case (2 e s')
      with close show ?case by (auto simp: wp_simps)
    qed auto
  qed
  have loop: "wp False (retry_loop l t ci None (lock_attempt True f)) (\<lambda>r s. \<exists>g. r = Leave g \<and> False) ?E s"
    if "waiting_handle v f m l s" for f s
    by (rule retry_loop_first) (rule attempt [OF that])
  show ?thesis
    unfolding acquire_afresh_def lock_get_fh_def wp_andthen wp_self prod.case
    by (rule wp_mono [OF open_locked_file [OF v md]], rule wp_mono [OF loop]) auto
qed

lemma lock_acquire_contended:
  assumes "wf_world w" "flock_world w" "tape w = []" "fl_fh l = None"
    and "parse_mode (fl_mode l) = Some (OpenAppend, upd)" "non_blocking (fl_flags l)"
    and "lmode_of (fl_flags l AND NOT 4) = Some m" "\<not> unlocked_for (fl_filename l) m w"
    and "the (coalesce None [fwl, Some (lb_fail_when_locked l)])"
  shows "wp False (lock_acquire t ci fwl) (\<lambda>_ _. False)
    (\<lambda>e s. exn_class e = CAlreadyLocked \<and> fst s = l \<and> as_before w (snd s)) (l, w)"
proof -
  from lock_acquire_afresh [OF assms(4), of t ci fwl w] assms(9) obtain ws where
    eq: "lock_acquire t ci fwl (l, w) = acquire_afresh l t ci True (l, w\<lparr>warned := ws\<rparr>)" by auto
  have "wp False (acquire_afresh l t ci True) (\<lambda>_ _. False)
      (\<lambda>e s. exn_class e = CAlreadyLocked \<and> fst s = l \<and> as_before (w\<lparr>warned := ws\<rparr>) (snd s)) (l, w\<lparr>warned := ws\<rparr>)"
    by (rule acquire_afresh_contended) (use assms in \<open>auto simp: flock_world_def unlocked_for_def\<close>)
  with eq show ?thesis by (simp add: wp_def as_before_def)
qed

text \<open>
  C17: with \<^verbatim>\<open>fail_when_locked\<close> a taken lock is reported by the first attempt: on a system without
  interference and failures \<^verbatim>\<open>Lock.acquire\<close> raises \<^verbatim>\<open>AlreadyLocked\<close> without letting time pass,
  and names, contents, handles and locks are what they were.
\<close>

theorem lock_acquire_reports_contention:
  fixes l :: "'z flock_scheme"
  assumes "wf_world w" "flock_world w" "tape w = []" "fl_fh l = None"
    and "parse_mode (fl_mode l) = Some (OpenAppend, upd)" "non_blocking (fl_flags l)"
    and "lmode_of (fl_flags l AND NOT 4) = Some m" "\<not> unlocked_for (fl_filename l) m w"
  shows "\<exists>e u. lock_acquire t ci (Some True) (l, w) = (Raise e, (l, u)) \<and>
    exn_class e = CAlreadyLocked \<and> as_before w u"
  using lock_acquire_contended [OF assms, of "Some True" t ci]
  by (cases "lock_acquire t ci (Some True) (l, w)") (auto simp: wp_def split: res.splits)

section \<open>Witnesses\<close>

text \<open>The property applied at a file that does not exist yet.\<close>

definition quiet_lock :: flock where
  "quiet_lock = \<lparr> lb_timeout = 5, lb_check_interval = 1 / 4, lb_fail_when_locked = False, fl_fh = None,
     fl_filename = ''f'', fl_mode = ''a'', fl_truncate = True, fl_flags = 6, fl_raise = False \<rparr>"

theorem lock_acquire_gets_free_lock_witness:
  "\<exists>f k u. lock_acquire None None None (quiet_lock, init_world POSIX 1) = (Done f, (k, u)) \<and> fl_fh k = Some f"
proof -
  have "lmode_of (fl_flags quiet_lock AND NOT 4) = Some Ex" by code_simp
  then show ?thesis
    by (intro lock_acquire_gets_free_lock [where upd = False and m = Ex])
       (simp_all add: quiet_lock_def flock_world_def unlocked_for_def parse_mode_def wf_world_init,
        simp_all add: init_world_def)
qed

text \<open>A world in which another process has locked a file.\<close>

definition taken_world :: "path \<Rightarrow> world" where
  "taken_world p = fold env_step [EvOpen 2 p, EvFlock 0 Ex] (init_world POSIX 1)"

lemmas taken_world_eval = taken_world_def init_world_def k_open_def parse_mode_def create_file_def
  add_handle_def new_handle_def foreign_def flock_conflict_def

lemma taken_world_facts:
  "wf_world (taken_world p)" "flock_world (taken_world p)" "tape (taken_world p) = []"
  "unlocked_for q Ex (taken_world p) \<longleftrightarrow> q \<noteq> p"
proof -
  show "wf_world (taken_world p)"
    using rely_fold_env [OF wf_world_init] wf_world_init unfolding taken_world_def rely_def by blast
qed (auto simp: unlocked_for_def flock_world_def taken_world_eval)

theorem lock_acquire_reports_contention_witness:
  "\<exists>e u. lock_acquire None None (Some True) (quiet_lock, taken_world ''f'') = (Raise e, (quiet_lock, u)) \<and>
    exn_class e = CAlreadyLocked \<and> as_before (taken_world ''f'') u"
proof -
  have fl: "lmode_of (fl_flags quiet_lock AND NOT 4) = Some Ex" "non_blocking (fl_flags quiet_lock)" by code_simp+
  then show ?thesis
    by (intro lock_acquire_reports_contention [where upd = False and m = Ex] taken_world_facts)
       (simp_all add: quiet_lock_def parse_mode_def taken_world_facts)
qed

end
