(* ===== verification/SemaphoreLiveness.thy ===== *)
theory SemaphoreLiveness
  imports Liveness SemaphoreWitnesses
begin

text \<open>
  That a semaphore gets what it asks for: on a system without interference and failures an acquire
  takes a slot as soon as one of the slots is free, whatever holds the others.
\<close>

definition quiet_world :: "world \<Rightarrow> bool" where
  "quiet_world w \<longleftrightarrow> wf_world w \<and> flock_world w \<and> tape w = []"

lemma slot_settings:
  "fl_fh (slot_lock p 6) = None" "parse_mode (fl_mode (slot_lock p 6)) = Some (OpenAppend, False)"
  "non_blocking (fl_flags (slot_lock p 6))" "lmode_of (fl_flags (slot_lock p 6) AND NOT 4) = Some Ex"
  "the (coalesce None [None, Some (lb_fail_when_locked (slot_lock p 6))])"
  by (simp_all add: slot_lock_def parse_mode_def) (code_simp+)?

text \<open>One slot: taken, or reported as locked, and then everything is as before.\<close>

lemma slot_free:
  assumes "quiet_world w" "unlocked_for p Ex w"
  shows "wp False (lock_acquire None None None) (\<lambda>f s. True) (\<lambda>_ _. False) (slot_lock p 6, w)"
  by (rule wp_mono [OF lock_acquire_quietly [OF _ _ _ slot_settings(1,2,4)]])
    (use assms in \<open>auto simp: quiet_world_def\<close>)

lemma slot_taken:
  assumes "quiet_world w" "\<not> unlocked_for p Ex w"
  shows "wp False (lock_acquire None None None) (\<lambda>_ _. False)
    (\<lambda>e s. is_AlreadyLocked (exn_class e) \<and> quiet_world (snd s) \<and> (\<forall>q. unlocked_for q Ex w \<longrightarrow> unlocked_for q Ex (snd s)))
    (slot_lock p 6, w)"
proof -
  have w: "wf_world w" "flock_world w" "tape w = []" using assms(1) by (auto simp: quiet_world_def)
  have "\<not> unlocked_for (fl_filename (slot_lock p 6)) Ex w" using assms(2) by simp
  note contended = lock_acquire_contended [OF w slot_settings(1,2,3,4) this slot_settings(5)]
  show ?thesis
    by (rule wp_mono [OF wp_conj [OF contended flock_slot.take_slot [OF w(1,2)]]])
      (auto simp: quiet_world_def as_before_def unlocked_for_def w(3))
qed

lemma try_lock_gets_slot:
  fixes l :: "'z semaphore_scheme"
  assumes "p \<in> set ps" "quiet_world w" "unlocked_for p Ex w"
  shows "wp False (sem_try_lock ps) (\<lambda>b s. b \<and> sm_lock (fst s) \<noteq> None) (\<lambda>_ _. False) (l, w)"
  using assms
proof (induction ps arbitrary: w)
  case (Cons q ps)
  have os: "LOCK_METHOD (plat w) = 6" using Cons.prems(2) by (simp add: quiet_world_def flock_world_def)
  show ?case
  proof (cases "unlocked_for q Ex w")
    case True
    show ?thesis
      unfolding sem_try_lock_Cons wp_andthen wp_env_get wp_on_object prod.case os
      by (rule wp_mono [OF slot_free [OF Cons.prems(2) True]]) (auto simp: wp_simps set_slot_def split: prod.splits)
  next
    case False
    with Cons.prems have p: "p \<in> set ps" by auto
    show ?thesis
      unfolding sem_try_lock_Cons wp_andthen wp_env_get wp_on_object prod.case os
      by (rule wp_mono [OF slot_taken [OF Cons.prems(2) False]])
        (use Cons.IH [OF p] Cons.prems(3) in \<open>auto simp: wp_simps split: prod.splits simp del: is_AlreadyLocked_iff\<close>)
  qed
qed simp

lemma sem_acquire_quietly:
  fixes l :: "'z semaphore_scheme"
  assumes "p \<in> set (get_filenames l)" "quiet_world w" "unlocked_for p Ex w" "sm_lock l = None"
  shows "wp False (sem_acquire t ci fwl) (\<lambda>k s. k \<noteq> None) (\<lambda>_ _. False) (l, w)"
proof -
  have attempt: "wp False (sem_attempt (get_filenames l) 0 ()) (\<lambda>r s. \<exists>k. r = Leave k \<and> k \<noteq> None) (\<lambda>_ _. False) (l, w)"
    unfolding sem_attempt_def wp_andthen
    by (rule wp_mono [OF try_lock_gets_slot [OF assms(1-3)]]) (auto simp: wp_simps split: prod.splits)
  have "wp False (retry_loop l t ci () (sem_attempt (get_filenames l))) (\<lambda>r s. \<exists>k. r = Leave k \<and> k \<noteq> None)
      (\<lambda>_ _. False) (l, w)"
    by (rule retry_loop_first) (rule attempt)
  then show ?thesis
    unfolding sem_acquire_def wp_andthen [of _ self] wp_self prod.case assms(4) not_not simp_thms if_False
      wp_andthen [of _ "retry_loop _ _ _ _ _"]
    by (rule wp_mono) (auto simp: wp_simps)
qed

text \<open>
  C16: on a system without interference and failures a semaphore with a free slot is acquired: when
  no open handle of one of its slot files holds a lock, \<^verbatim>\<open>acquire\<close> returns the lock of a slot,
  however many of the other slots are taken.
\<close>

theorem sem_acquire_gets_free_slot:
  assumes "p \<in> set (get_filenames l)" "quiet_world w" "unlocked_for p Ex w" "sm_lock l = None"
  shows "\<exists>k s. sem_acquire t ci fwl (l, w) = (Done (Some k), s)"
  using sem_acquire_quietly [OF assms, of t ci fwl]
  by (cases "sem_acquire t ci fwl (l, w)") (auto simp: wp_def split: res.splits)

text \<open>Applied where another process holds the first of the two slots.\<close>

theorem sem_acquire_gets_free_slot_witness:
  "\<exists>k s. sem_acquire None None None (demo_sem, taken_world ''s.00.lock'') = (Done (Some k), s)"
  by (rule sem_acquire_gets_free_slot [of "''s.01.lock''"])
    (simp_all add: demo_filenames quiet_world_def taken_world_facts)

end
