(* ===== verification/WindowsFacts.thy ===== *)
theory WindowsFacts
  imports PidRoundtrip LockerFacts
begin

text \<open>
  The default locker on Windows, \<^verbatim>\<open>MsvcrtLocker\<close>, on a system without interference and failures:
  contention, success, and that locking and unlocking give the file back as it was, with the file
  position where the caller left it.
\<close>

text \<open>A handle of this process with nothing buffered, in a quiet world.\<close>

definition clean_handle :: "fd \<Rightarrow> handle \<Rightarrow> world \<Rightarrow> bool" where
  "clean_handle f h w \<longleftrightarrow> tape w = [] \<and> handles w f = Some h \<and> h_owner h = mypid w \<and> h_buf h = []"

lemma clean_own: "clean_handle f h w \<Longrightarrow> own_handle w f = Some h" "clean_handle f h w \<Longrightarrow> mine w f"
    "clean_handle f h w \<Longrightarrow> k_flush f w = w" "clean_handle f h w \<Longrightarrow> pop w = (None, w)"
    "clean_handle f h w \<Longrightarrow> tape w = []" "clean_handle f h w \<Longrightarrow> handles w f = Some h"
  by (simp_all add: clean_handle_def own_handle_def mine_def k_flush_def pop_quiet)

lemma clean_set_pos: "clean_handle f h w \<Longrightarrow> clean_handle f (h\<lparr>h_pos := n\<rparr>) (set_pos f n w)"
  by (simp add: clean_handle_def set_pos_def)

lemma clean_nlocks [simp]: "clean_handle f h (w\<lparr>nlocks := x\<rparr>) = clean_handle f h w"
  by (simp add: clean_handle_def)

lemma set_pos_back: "clean_handle f h w \<Longrightarrow> set_pos f (h_pos h) (set_pos f n w) = w"
  by (simp add: clean_handle_def set_pos_def fun_upd_idem)

lemma set_pos_same: "clean_handle f h w \<Longrightarrow> set_pos f (h_pos h) w = w"
  by (simp add: clean_handle_def set_pos_def fun_upd_idem)

lemma tell_clean: "clean_handle f h w \<Longrightarrow> fh_tell f (l, w) = (Done (h_pos h), (l, w))"
  by (simp add: fh_tell_def on_handle_def syscall_def clean_own cur_pos_def)

lemma seek_clean: "clean_handle f h w \<Longrightarrow> fh_seek f n (l, w) = (Done (), (l, set_pos f n w))"
  by (simp add: fh_seek_def on_handle_def syscall_def clean_own)

lemma fileno_clean: "clean_handle f h w \<Longrightarrow> py_fileno f (l, w) = (Done f, (l, w))"
  by (simp add: py_fileno_def clean_own)

lemma prepare_clean:
  assumes "clean_handle f h w"
  shows "prepare_windows_file (FFile f) (l, w) = (Done (f, True, Some (h_pos h)), (l, set_pos f 0 w))"
proof -
  have "on_cond (h_pos h \<noteq> 0) (fh_seek f 0) (l, w) = (Done (), (l, set_pos f 0 w))"
    using seek_clean [OF assms] set_pos_same [OF assms] by (auto simp: on_cond_def ret_def)
  then show ?thesis
    by (simp add: andthen_def fileno_clean [OF assms] tell_clean [OF assms] ret_def)
qed

lemma restore_clean:
  assumes "clean_handle f h w"
  shows "restore_windows_file_pos f True (Some p) (l, set_pos f 0 w) = (Done (), (l, set_pos f p (set_pos f 0 w)))"
  using seek_clean [OF clean_set_pos [OF assms, of 0]] set_pos_same [OF clean_set_pos [OF assms, of 0]]
  by (auto simp: restore_windows_file_pos_def ret_def)

text \<open>The range that is locked: 64 KiB from the start.\<close>

definition msvcrt_busy :: "fd \<Rightarrow> world \<Rightarrow> bool" where
  "msvcrt_busy f w \<longleftrightarrow> nlock_conflict w f 0 MSVCRT_LOCK_LENGTH"

lemma conflict_set_pos: "nlock_conflict (set_pos f n w) g s k = nlock_conflict w g s k"
proof -
  have "same_file (set_pos f n w) a b = same_file w a b" for a b
    by (cases "handles w f"; cases "handles w a"; cases "handles w b")
       (auto simp: same_file_def set_pos_def)
  moreover have "nlocks (set_pos f n w) = nlocks w"
    by (simp add: set_pos_def split: option.splits)
  ultimately show ?thesis by (simp add: nlock_conflict_def)
qed

text \<open>
  C36: on Windows a non-blocking exclusive lock fails with \<^verbatim>\<open>AlreadyLocked\<close> when any handle holds
  a lock on the first bytes of the file, and the file is left as it was, its position included.
\<close>

theorem msvcrt_lock_contention:
  assumes "clean_handle f h w" "\<not> has_flag flags (LOCK_SH NT)" "has_flag flags (LOCK_NB NT)"
    and "msvcrt_busy f w"
  shows "\<exists>e. msvcrt_lock w32 (FFile f) flags (l, w) = (Raise e, (l, w)) \<and> is_AlreadyLocked (exn_class e)"
proof -
  let ?v = "set_pos f 0 w"
  have v: "clean_handle f (h\<lparr>h_pos := 0\<rparr>) ?v" by (rule clean_set_pos [OF assms(1)])
  have "msvcrt_locking f LK_NBLCK MSVCRT_LOCK_LENGTH (l, ?v) = (Raise (os_error EACCES), (l, ?v))"
    using assms(4) by (simp add: msvcrt_locking_def syscall_def clean_own [OF v] k_locking_def
        msvcrt_busy_def conflict_set_pos LK_NBLCK_def LK_UNLCK_def)
  then show ?thesis
    using assms(2,3)
    by (simp add: msvcrt_lock_def andthen_def prepare_clean [OF assms(1)] try_finally_def try_else_def
        try_except_def throw_def restore_clean [OF assms(1)] set_pos_back [OF assms(1)]
        msvcrt_contention_def EACCES_def already_locked_def
        del: prepare_windows_file.simps)
qed

text \<open>
  C37: on Windows locking a free file and unlocking it again gives back the same state of the
  file and of the locks, wherever the file position was.
\<close>

theorem msvcrt_lock_unlock_roundtrip:
  assumes "clean_handle f h w" "\<not> has_flag flags (LOCK_SH NT)" "has_flag flags (LOCK_NB NT)"
    and "\<not> msvcrt_busy f w"
  shows "andthen (msvcrt_lock w32 (FFile f) flags) (\<lambda>_. msvcrt_unlock w32 (FFile f)) (l, w) = (Done (), (l, w))"
proof -
  let ?L = "(f, 0, MSVCRT_LOCK_LENGTH)"
  have v: "clean_handle f (h\<lparr>h_pos := 0\<rparr>) (set_pos f 0 w)" by (rule clean_set_pos [OF assms(1)])
  have upd: "set_pos f n (w\<lparr>nlocks := x\<rparr>) = (set_pos f n w)\<lparr>nlocks := x\<rparr>" for n x w
    by (simp add: set_pos_def split: option.splits)
  have nl: "nlocks (set_pos f n w) = nlocks w" for n w by (simp add: set_pos_def split: option.splits)
  let ?w = "w\<lparr>nlocks := ?L # nlocks w\<rparr>"
  have w: "clean_handle f h ?w" using assms(1) by simp
  have "msvcrt_locking f LK_NBLCK MSVCRT_LOCK_LENGTH (l, set_pos f 0 w) = (Done (), (l, set_pos f 0 ?w))"
    using assms(4) by (simp add: msvcrt_locking_def syscall_def clean_own [OF v] k_locking_def
        msvcrt_busy_def conflict_set_pos LK_NBLCK_def LK_UNLCK_def upd nl)
  then have locked: "msvcrt_lock w32 (FFile f) flags (l, w) = (Done (), (l, ?w))"
    using assms(2,3)
    by (simp add: msvcrt_lock_def andthen_def prepare_clean [OF assms(1)] try_finally_def try_else_def
        try_except_def ret_def restore_clean [OF w] set_pos_back [OF w]
        del: prepare_windows_file.simps)
  have "x\<lparr>nlocks := nlocks x\<rparr> = x" for x :: world by simp
  from this [of "set_pos f 0 w"] have again: "(set_pos f 0 w)\<lparr>nlocks := nlocks w\<rparr> = set_pos f 0 w"
    by (simp only: nl)
  have u: "clean_handle f (h\<lparr>h_pos := 0\<rparr>) ((set_pos f 0 w)\<lparr>nlocks := x\<rparr>)" for x
    using v by simp
  have "msvcrt_locking f LK_UNLCK MSVCRT_LOCK_LENGTH (l, set_pos f 0 ?w) = (Done (), (l, set_pos f 0 w))"
    by (simp add: msvcrt_locking_def syscall_def clean_own [OF u] k_locking_def upd nl again)
  then have "msvcrt_unlock w32 (FFile f) (l, ?w) = (Done (), (l, w))"
    by (simp add: msvcrt_unlock_def andthen_def prepare_clean [OF w] Let_def try_else_def
        restore_clean [OF assms(1)] set_pos_back [OF assms(1)]
        del: prepare_windows_file.simps)
  with locked show ?thesis by (simp add: andthen_def)
qed

section \<open>Instances\<close>

definition nt_handle :: handle where
  "nt_handle = (new_handle 1 0 OpenAppend False)\<lparr>h_pos := 7\<rparr>"

text \<open>Two handles of this process on one file; the second holds the lock when \<open>b\<close>.\<close>

definition nt_world :: "bool \<Rightarrow> world" where
  "nt_world b = (init_world NT 1)\<lparr>next_ino := 1, next_fd := 2, paths := [''f'' \<mapsto> 0],
     handles := [0 \<mapsto> nt_handle, 1 \<mapsto> nt_handle], nlocks := (if b then [(1, 0, MSVCRT_LOCK_LENGTH)] else [])\<rparr>"

lemma nt_clean: "clean_handle 0 nt_handle (nt_world b)"
  by (simp add: clean_handle_def nt_world_def nt_handle_def new_handle_def init_world_def)

lemma nt_busy: "msvcrt_busy 0 (nt_world b) = b"
  by (simp add: msvcrt_busy_def nlock_conflict_def nt_world_def ranges_overlap_def same_file_def
      MSVCRT_LOCK_LENGTH_def init_world_def)

lemma nt_flags: "\<not> has_flag 5 (LOCK_SH NT)" "has_flag 5 (LOCK_NB NT)"
  by code_simp+

theorem msvcrt_lock_contention_witness:
  "\<exists>e. msvcrt_lock False (FFile 0) 5 ((), nt_world True) = (Raise e, ((), nt_world True)) \<and>
     is_AlreadyLocked (exn_class e)"
  using msvcrt_lock_contention [OF nt_clean nt_flags, of True False "()"] by (simp add: nt_busy)

theorem msvcrt_lock_unlock_roundtrip_witness:
  "andthen (msvcrt_lock False (FFile 0) 5) (\<lambda>_. msvcrt_unlock False (FFile 0)) ((), nt_world False)
     = (Done (), ((), nt_world False))"
  using msvcrt_lock_unlock_roundtrip [OF nt_clean nt_flags, of False False "()"] by (simp add: nt_busy)

end
