(* ===== verification/CombineText.thy ===== *)
theory CombineText
  imports Exceptions "HOL-Library.Sublist"
begin

text \<open>
  The text level of \<^verbatim>\<open>portalocker/__main__.py\<close>: the four regular expressions of the
  \<^verbatim>\<open>combine\<close> script as the functions that decide them, \<^verbatim>\<open>_clean_line\<close>, \<^verbatim>\<open>_reindent\<close>, and
  the classification of one source line that the loop of \<^verbatim>\<open>_read_file\<close> makes. Source files are
  read as ASCII, so \<^verbatim>\<open>\w\<close> is a letter, a digit or the underscore and white space is that of
  \<^const>\<open>py_space\<close>. A line comes from file iteration: a newline can only end it.
\<close>

section \<open>Regular expressions\<close>

definition newline :: char where
  "newline = CHR 0x0A"

definition word_char :: "char \<Rightarrow> bool" where
  "word_char c \<longleftrightarrow> (let n = (of_char c :: nat) in
     (48 \<le> n \<and> n \<le> 57) \<or> (65 \<le> n \<and> n \<le> 90) \<or> n = 95 \<or> (97 \<le> n \<and> n \<le> 122))"

definition paren_free :: "string \<Rightarrow> bool" where
  "paren_free s \<longleftrightarrow> s \<noteq> [] \<and> list_all (\<lambda>c. c \<noteq> CHR ''('' \<and> c \<noteq> CHR '')'') s"

text \<open>
  \<^verbatim>\<open>_RELATIVE_IMPORT_RE\<close>: after \<^verbatim>\<open>from .\<close> the group \<^verbatim>\<open>from\<close> grows one character at a time
  (it is lazy) until \<^verbatim>\<open> import \<close>, an optional parenthesis and a rest without parentheses
  follow. \<^verbatim>\<open>_NAMES_RE\<close> is the rest alone.
\<close>

definition import_tail :: "string \<Rightarrow> (bool \<times> string) option" where
  "import_tail s =
     (if prefix '' import '' s
      then (let t = drop 8 s; paren = prefix ''('' t; names = (if paren then drop 1 t else t)
            in if paren_free names then Some (paren, names) else None)
      else None)"

fun find_import :: "string \<Rightarrow> string \<Rightarrow> (string \<times> bool \<times> string) option" where
  "find_import from_rev [] = None"
| "find_import from_rev (c # cs) =
     (case import_tail (c # cs) of
        Some (paren, names) \<Rightarrow> Some (rev from_rev, paren, names)
      | None \<Rightarrow> if c = newline then None else find_import (c # from_rev) cs)"

definition relative_import :: "string \<Rightarrow> (string \<times> bool \<times> string) option" where
  "relative_import s = (if prefix ''from .'' s then find_import [] (drop 6 s) else None)"

definition names_only :: "string \<Rightarrow> string option" where
  "names_only s = (if paren_free s then Some s else None)"

text \<open>\<^verbatim>\<open>_TYPE_CHECKING_RE.match\<close>.\<close>

definition type_checking_head :: "string \<Rightarrow> bool" where
  "type_checking_head s \<longleftrightarrow> prefix ''if '' s \<and>
     (let t = drop 3 s; u = (if prefix ''typing.'' t then drop 7 t else t)
      in prefix ''TYPE_CHECKING'' u \<and> prefix '':'' (dropWhile py_space (drop 13 u)))"

section \<open>Cleaning a line\<close>

text \<open>
  \<^verbatim>\<open>re.sub(rf'\b({joined_names})\.', '', line)\<close>: the scan goes left to right, \<open>w\<close> says whether
  the character before the scan position is a word character, and a name followed by a full stop
  matches where a word boundary is. The names are matched literally: a name is only kept for
  later lines when a module file of that name was read (\<open>names_are_modules\<close> of \<open>Combine\<close>), and
  for names without full stops the order of the alternatives is irrelevant
  (\<open>qualifier_at_order\<close> below).
\<close>

definition qualifier_at :: "string list \<Rightarrow> bool \<Rightarrow> string \<Rightarrow> string option" where
  "qualifier_at names w s =
     (if s = [] \<or> word_char (hd s) = w then None
      else map_option (\<lambda>n. drop (Suc (length n)) s) (find (\<lambda>n. prefix (n @ ''.'') s) names))"

lemma qualifier_at_shorter:
  "qualifier_at names w s = Some rest \<Longrightarrow> length rest < length s"
  by (auto simp: qualifier_at_def split: if_splits)

function strip_qualifiers :: "string list \<Rightarrow> bool \<Rightarrow> string \<Rightarrow> string" where
  "strip_qualifiers names w [] = []"
| "strip_qualifiers names w (c # cs) =
     (case qualifier_at names w (c # cs) of
        Some rest \<Rightarrow> strip_qualifiers names False rest
      | None \<Rightarrow> c # strip_qualifiers names (word_char c) cs)"
  by pat_completeness auto
termination
  by (relation "measure (\<lambda>(names, w, s). length s)") (auto dest: qualifier_at_shorter)

text \<open>\<^verbatim>\<open>_USELESS_ASSIGNMENT_RE.sub('', line)\<close>; \<^verbatim>\<open>$\<close> also matches before a final newline.\<close>

definition drop_useless_assignment :: "string \<Rightarrow> string" where
  "drop_useless_assignment line =
     (let n = takeWhile word_char line; whole = n @ '' = '' @ n @ [newline];
          rest = drop (length whole) line
      in if n \<noteq> [] \<and> prefix whole line \<and> (rest = [] \<or> rest = [newline]) then rest else line)"

definition clean_line :: "string list \<Rightarrow> string \<Rightarrow> string" where
  "clean_line names line =
     drop_useless_assignment (if names = [] then line else strip_qualifiers names False line)"

definition reindent :: "string \<Rightarrow> string list \<Rightarrow> string list" where
  "reindent indent ls =
     (if indent = [] then ls
      else map (\<lambda>l. if py_strip l \<noteq> [] then indent @ l else l) ls)"

section \<open>Classifying a line\<close>

text \<open>\<^verbatim>\<open>str.split(c)\<close> for a one-character separator.\<close>

fun split_char :: "char \<Rightarrow> string \<Rightarrow> string list" where
  "split_char d [] = [[]]"
| "split_char d (c # cs) =
     (if c = d then [] # split_char d cs
      else (case split_char d cs of w # ws \<Rightarrow> (c # w) # ws | [] \<Rightarrow> [[c]]))"

text \<open>
  The local variables of \<^verbatim>\<open>_read_file\<close>: \<^verbatim>\<open>names\<close>, \<^verbatim>\<open>paren\<close>, \<^verbatim>\<open>from_\<close>,
  \<^verbatim>\<open>in_type_checking\<close>, \<^verbatim>\<open>type_checking_indent\<close>; and what one line makes the generator do.
\<close>

record scan =
  inlined :: "string list"
  in_paren :: bool
  from_module :: "string option"
  in_guard :: bool
  guard_indent :: nat

definition fresh_scan :: scan where
  "fresh_scan = \<lparr>inlined = [], in_paren = False, from_module = None, in_guard = False,
     guard_indent = 0\<rparr>"

datatype line_action =
    Skip
  | Emit string
  | Inline string "string list"

definition line_import :: "scan \<Rightarrow> string \<Rightarrow> string \<Rightarrow> (string option \<times> bool \<times> string) option" where
  "line_import sc line stripped =
     (if in_paren sc then map_option (\<lambda>names. (from_module sc, True, names)) (names_only line)
      else map_option (\<lambda>(f, paren, names). (Some f, paren, names)) (relative_import stripped))"

definition import_targets :: "string option \<Rightarrow> string \<Rightarrow> string list" where
  "import_targets f names =
     (case f of Some (c # cs) \<Rightarrow> [c # cs] | _ \<Rightarrow> map py_strip (split_char CHR '','' names))"

text \<open>
  One round of the loop, up to the point where modules are read. The names of the modules are
  entered into \<^verbatim>\<open>names\<close> here, in one go; the code enters each just before it reads the module,
  which shows nowhere because \<^verbatim>\<open>names\<close> is only used for later lines of the same file and an
  exception abandons the file.
\<close>

definition scan_line :: "scan \<Rightarrow> string \<Rightarrow> line_action \<times> scan" where
  "scan_line sc line =
     (if sublist ''__future__'' line then (Skip, sc)
      else
        let stripped = dropWhile py_space line;
            indent = take (length line - length stripped) line
        in if in_guard sc \<and> (py_strip stripped = [] \<or> guard_indent sc < length indent)
           then (Emit (clean_line (inlined sc) line), sc)
           else
             let sc = sc\<lparr>in_guard := False\<rparr>
             in if \<not> in_paren sc \<and> type_checking_head stripped
                then (Emit (clean_line (inlined sc) line),
                      sc\<lparr>in_guard := True, guard_indent := length indent\<rparr>)
                else if in_paren sc \<and> CHR '')'' \<in> set line then (Skip, sc\<lparr>in_paren := False\<rparr>)
                else
                  case line_import sc line stripped of
                    None \<Rightarrow> (Emit (clean_line (inlined sc) line), sc)
                  | Some (f, paren, names) \<Rightarrow>
                      (let targets = import_targets f names
                       in (Inline indent targets,
                           sc\<lparr>in_paren := paren, from_module := f,
                              inlined := fold List.insert targets (inlined sc)\<rparr>)))"

end
