(* ===== verification/CombineTextFacts.thy ===== *)
theory CombineTextFacts
  imports CombineText
begin

text \<open>
  Facts about the text level of the \<^verbatim>\<open>combine\<close> script: removing qualifiers leaves none behind
  and never puts a word together that the line did not contain, a line that ends in a closing
  parenthesis is never taken for an import, and the order of the alternatives in the pattern
  built from a set of names is irrelevant.
\<close>

section \<open>Characters\<close>

lemma word_char_simps [simp]:
  "\<not> word_char CHR ''.''" "word_char CHR ''_''" "\<not> word_char newline" "\<not> word_char CHR '' ''"
  by (simp_all add: word_char_def newline_def)

lemma word_char_not_space: "word_char c \<Longrightarrow> \<not> py_space c"
  by (auto simp: word_char_def py_space_def Let_def)

abbreviation word_text :: "string \<Rightarrow> bool" where
  "word_text \<equiv> list_all word_char"

definition plain_name :: "string \<Rightarrow> bool" where
  "plain_name n \<longleftrightarrow> n \<noteq> [] \<and> word_text n"

lemma plain_name_starts_word: "plain_name n \<Longrightarrow> prefix (n @ t) (c # cs) \<Longrightarrow> word_char c"
  by (cases n) (auto simp: plain_name_def)

section \<open>Removing qualifiers\<close>

lemma find_same_result:
  assumes "set xs = set ys" "\<And>x y. x \<in> set xs \<Longrightarrow> y \<in> set xs \<Longrightarrow> P x \<Longrightarrow> P y \<Longrightarrow> f x = f y"
  shows "map_option f (find P xs) = map_option f (find P ys)"
proof (cases "find P xs")
  case None
  then have "find P ys = None" using assms(1) by (auto simp: find_None_iff)
  with None show ?thesis by simp
next
  case (Some x)
  then have x: "x \<in> set xs" "P x" by (auto dest: find_Some_in)
  have "find P ys \<noteq> None" using x assms(1) find_None_all [of P ys x] by metis
  then obtain y where y: "find P ys = Some y" by blast
  from find_Some_in [OF y] assms(1) have "y \<in> set xs" "P y" by simp_all
  with x have "f x = f y" by (intro assms(2))
  with Some y show ?thesis by simp
qed

text \<open>
  \<^verbatim>\<open>'|'.join(names)\<close> lists a Python set in an arbitrary order: with names free of full stops
  the substitution does not depend on it.
\<close>

lemma dotted_prefix_unique:
  assumes "prefix (m @ ''.'') s" "prefix (n @ ''.'') s" "CHR ''.'' \<notin> set m" "CHR ''.'' \<notin> set n"
  shows "m = n"
proof -
  have "takeWhile (\<lambda>c. c \<noteq> CHR ''.'') s = k" if "prefix (k @ ''.'') s" "CHR ''.'' \<notin> set k" for k
  proof -
    from that(1) obtain r where "s = k @ CHR ''.'' # r" by (auto simp: prefix_def)
    moreover have "takeWhile (\<lambda>c. c \<noteq> CHR ''.'') (k @ CHR ''.'' # r)
        = k @ takeWhile (\<lambda>c. c \<noteq> CHR ''.'') (CHR ''.'' # r)"
      using that(2) by (intro takeWhile_append2) auto
    ultimately show ?thesis by simp
  qed
  from this [OF assms(1,3)] this [OF assms(2,4)] show ?thesis by simp
qed

lemma qualifier_at_order:
  assumes "set ns = set ms" "\<forall>n\<in>set ns. CHR ''.'' \<notin> set n"
  shows "qualifier_at ns w s = qualifier_at ms w s"
proof -
  have "map_option (\<lambda>n. drop (Suc (length n)) s) (find (\<lambda>n. prefix (n @ ''.'') s) ns)
      = map_option (\<lambda>n. drop (Suc (length n)) s) (find (\<lambda>n. prefix (n @ ''.'') s) ms)"
    using assms by (intro find_same_result) (auto dest: dotted_prefix_unique)
  then show ?thesis by (simp add: qualifier_at_def)
qed

lemma qualifier_inside_word:
  assumes "\<forall>n\<in>set ns. plain_name n"
  shows "qualifier_at ns True s = None"
proof (cases s)
  case (Cons c cs)
  have "\<not> prefix (n @ ''.'') (c # cs)" if "n \<in> set ns" "\<not> word_char c" for n
    using that assms plain_name_starts_word by blast
  with Cons show ?thesis by (auto simp: qualifier_at_def find_None_iff)
qed (simp add: qualifier_at_def)

lemma strip_qualifiers_inside_word:
  assumes "\<forall>n\<in>set ns. plain_name n"
  shows "strip_qualifiers ns True (c # cs) = c # strip_qualifiers ns (word_char c) cs"
  by (simp add: qualifier_inside_word [OF assms])

text \<open>What follows a word in the cleaned line followed it in the line.\<close>

lemma strip_qualifiers_word_prefix:
  assumes "\<forall>n\<in>set ns. plain_name n"
  shows "prefix u (strip_qualifiers ns True s) \<Longrightarrow> word_text u \<Longrightarrow> prefix u s"
    and "prefix (u @ ''.'') (strip_qualifiers ns True s) \<Longrightarrow> word_text u \<Longrightarrow> prefix (u @ ''.'') s"
proof (induction u arbitrary: s)
  note step = strip_qualifiers_inside_word [OF assms]
  case Nil
  { case 2 then show ?case by (cases s) (simp_all only: step, simp_all) }
next
  case (Cons d u)
  note step = strip_qualifiers_inside_word [OF assms]
  { case 1
    show ?case
    proof (cases s)
      case [simp]: (Cons c cs)
      from 1 step [of c cs] have "word_char c" "d = c" "prefix u (strip_qualifiers ns (word_char c) cs)" "word_text u"
        by (simp_all del: strip_qualifiers.simps)
      with Cons.IH(1) [of cs] show ?thesis by simp
    qed (use 1 in simp) }
  { case 2
    show ?case
    proof (cases s)
      case [simp]: (Cons c cs)
      from 2 step [of c cs] have "word_char c" "d = c" "prefix (u @ ''.'') (strip_qualifiers ns (word_char c) cs)" "word_text u"
        by (simp_all del: strip_qualifiers.simps)
      with Cons.IH(2) [of cs] show ?thesis by simp
    qed (use 2 in simp) }
qed simp

fun unqualified :: "string list \<Rightarrow> bool \<Rightarrow> string \<Rightarrow> bool" where
  "unqualified ns w [] \<longleftrightarrow> True"
| "unqualified ns w (c # cs) \<longleftrightarrow> qualifier_at ns w (c # cs) = None \<and> unqualified ns (word_char c) cs"

lemma qualifier_at_kept_char:
  assumes plain: "\<forall>n\<in>set ns. plain_name n" and none: "qualifier_at ns w (c # cs) = None"
  shows "qualifier_at ns w (c # strip_qualifiers ns (word_char c) cs) = None"
proof (cases "word_char c \<and> \<not> w")
  case False
  have "\<not> prefix (n @ ''.'') (c # t)" if "n \<in> set ns" "\<not> word_char c" for n t
    using that plain plain_name_starts_word by blast
  with False show ?thesis by (auto simp: qualifier_at_def find_None_iff)
next
  case True
  have "\<not> prefix (n @ ''.'') (c # strip_qualifiers ns True cs)" if n: "n \<in> set ns" for n
  proof
    assume pre: "prefix (n @ ''.'') (c # strip_qualifiers ns True cs)"
    from plain n obtain m where m: "n = c # m" "word_text m"
      using pre by (cases n) (auto simp: plain_name_def)
    with pre strip_qualifiers_word_prefix(2) [OF plain] have "prefix (n @ ''.'') (c # cs)" by simp
    with none True n show False by (auto simp: qualifier_at_def find_None_iff)
  qed
  with True show ?thesis by (auto simp: qualifier_at_def find_None_iff)
qed

lemma strip_qualifiers_unqualified:
  assumes plain: "\<forall>n\<in>set ns. plain_name n"
  shows "unqualified ns w (strip_qualifiers ns w s)"
  using plain
proof (induction ns w s rule: strip_qualifiers.induct)
  case (2 ns w c cs)
  show ?case
  proof (cases "qualifier_at ns w (c # cs)")
    case None
    with 2 qualifier_at_kept_char [OF 2(3) None] show ?thesis by simp
  next
    case (Some rest)
    then have "\<not> w" using 2(3) qualifier_inside_word by (cases w) auto
    with 2 Some show ?thesis by simp
  qed
qed simp

text \<open>A word of the cleaned line is a word of the line.\<close>

lemma strip_qualifiers_word:
  assumes plain: "\<forall>n\<in>set ns. plain_name n" and u: "word_text u" "u \<noteq> []"
  shows "sublist u (strip_qualifiers ns w s) \<Longrightarrow> sublist u s"
  using plain
proof (induction ns w s rule: strip_qualifiers.induct)
  case (2 ns w c cs)
  show ?case
  proof (cases "qualifier_at ns w (c # cs)")
    case (Some rest)
    then have "suffix rest (c # cs)" by (auto simp: qualifier_at_def intro: suffix_ConsI suffix_drop split: if_splits)
    moreover have "sublist u rest" using 2 Some by simp
    ultimately show ?thesis by (meson sublist_order.order_trans suffix_imp_sublist)
  next
    case None
    consider (tail) "sublist u (strip_qualifiers ns (word_char c) cs)"
      | (head) "prefix u (c # strip_qualifiers ns (word_char c) cs)"
      using 2(3) None by (auto simp: sublist_Cons_right)
    then show ?thesis
    proof cases
      case tail
      with 2 None show ?thesis by (simp add: sublist_Cons_right)
    next
      case head
      then obtain v where v: "u = c # v" "prefix v (strip_qualifiers ns (word_char c) cs)"
        using u by (cases u) auto
      with u strip_qualifiers_word_prefix(1) [OF 2(4)] have "prefix v cs" by simp
      with v show ?thesis by (simp add: sublist_Cons_right)
    qed
  qed
qed simp

section \<open>Cleaned lines\<close>

lemma drop_useless_assignment_cases:
  "drop_useless_assignment l = l \<or> drop_useless_assignment l = [] \<or> drop_useless_assignment l = [newline]"
  by (auto simp: drop_useless_assignment_def Let_def)

lemma unqualified_no_names: "unqualified [] w s"
  by (induction s arbitrary: w) (simp_all add: qualifier_at_def)

lemma clean_line_without_qualifiers:
  assumes "\<forall>n\<in>set ns. plain_name n"
  shows "unqualified ns False (clean_line ns l)"
proof -
  let ?s = "if ns = [] then l else strip_qualifiers ns False l"
  have "unqualified ns False ?s"
    using strip_qualifiers_unqualified [OF assms] by (simp add: unqualified_no_names)
  then show ?thesis
    using drop_useless_assignment_cases [of ?s] by (auto simp: clean_line_def qualifier_at_def)
qed

lemma clean_line_word:
  assumes "\<forall>n\<in>set ns. plain_name n" "word_text u" "u \<noteq> []" "sublist u (clean_line ns l)"
  shows "sublist u l"
proof -
  let ?s = "if ns = [] then l else strip_qualifiers ns False l"
  have "\<not> sublist u []" "\<not> sublist u [newline]"
    using assms(2,3) by (auto simp: sublist_Cons_right prefix_Cons)
  then have "sublist u ?s"
    using assms(4) drop_useless_assignment_cases [of ?s] by (auto simp: clean_line_def)
  then show ?thesis
    using strip_qualifiers_word [OF assms(1-3)] by (auto split: if_splits)
qed

lemma word_after_spaces:
  assumes "word_text u" "u \<noteq> []" "list_all py_space ind" "sublist u (ind @ l)"
  shows "sublist u l"
  using assms(3,4)
proof (induction ind)
  case (Cons c ind)
  have "\<not> prefix u (c # ind @ l)"
    using assms(1,2) Cons.prems(1) word_char_not_space by (cases u) auto
  with Cons show ?case by (simp add: sublist_Cons_right)
qed simp

section \<open>Lines that are not taken for an import\<close>

lemma paren_free_suffix: "paren_free s \<Longrightarrow> CHR '')'' \<notin> set s"
  by (auto simp: paren_free_def list_all_iff)

lemma import_tail_parts:
  "import_tail s = Some (paren, names) \<Longrightarrow>
     paren_free names \<and> s = '' import '' @ (if paren then ''('' else []) @ names"
  by (auto simp: import_tail_def Let_def prefix_def split: if_splits)

lemma import_tail_closed: "import_tail (y @ '')'' @ [newline]) = None"
proof (rule ccontr)
  assume "import_tail (y @ '')'' @ [newline]) \<noteq> None"
  then obtain paren names where "import_tail (y @ '')'' @ [newline]) = Some (paren, names)" by auto
  note tail = import_tail_parts [OF this]
  define h where "h = '' import '' @ (if paren then ''('' else [])"
  from tail have names: "paren_free names" and eq: "y @ '')'' @ [newline] = h @ names"
    by (simp_all add: h_def)
  have h: "h \<noteq> []" "last h \<noteq> CHR '')''" by (simp_all add: h_def)
  show False
  proof (cases names rule: rev_cases)
    case (snoc ms m)
    with eq have "y @ '')'' = h @ ms" by simp
    with h names snoc show False
      by (cases ms rule: rev_cases) (auto simp: paren_free_def)
  qed (use names in \<open>simp add: paren_free_def\<close>)
qed

lemma find_import_closed: "find_import acc (x @ '')'' @ [newline]) = None"
proof (induction x arbitrary: acc)
  case Nil
  then show ?case using import_tail_closed [of "[]"] by (simp add: import_tail_def)
next
  case (Cons c x)
  then show ?case using import_tail_closed [of "c # x"] by simp
qed

lemma relative_import_closed: "relative_import (x @ '')'' @ [newline]) = None"
proof (cases "length x \<ge> 6")
  case True
  then show ?thesis using find_import_closed [of "[]" "drop 6 x"] by (simp add: relative_import_def)
next
  case False
  have "CHR '')'' \<in> set ''from .''" if "prefix ''from .'' (x @ '')'' @ [newline])"
  proof -
    from that obtain r where "x @ '')'' @ [newline] = ''from .'' @ r" by (auto simp: prefix_def)
    then have "(x @ '')'' @ [newline]) ! length x = (''from .'' @ r) ! length x" by (rule arg_cong)
    also have "(''from .'' @ r) ! length x = ''from .'' ! length x"
      using False by (intro nth_append_left) simp
    finally have "CHR '')'' = ''from .'' ! length x" by simp
    moreover have "''from .'' ! length x \<in> set ''from .''" using False by (intro nth_mem) simp
    ultimately show ?thesis by (simp only:)
  qed
  then have "\<not> prefix ''from .'' (x @ '')'' @ [newline])" by auto
  then show ?thesis by (simp add: relative_import_def)
qed

end
