(* ===== verification/Combine.thy ===== *)
theory Combine
  imports CombineTextFacts
begin

text \<open>
  The \<^verbatim>\<open>combine\<close> script of \<^verbatim>\<open>portalocker/__main__.py\<close>: \<^verbatim>\<open>_read_file\<close>, which copies a module
  and inlines the modules it imports relatively, \<^verbatim>\<open>combine\<close>, which writes the single output file and runs it, and
  \<^verbatim>\<open>main\<close>. The source tree is a parameter: a map from file names under
  \<^verbatim>\<open>src_path\<close> to the lines reading the file yields and whether the reading then ends in a
  \<^verbatim>\<open>UnicodeDecodeError\<close>. A generator is the list of the lines it yields together with the
  exception that ends it; the set \<^verbatim>\<open>seen_files\<close>, which every recursive call changes in place,
  is threaded through as the list of the files in the order they were entered.
\<close>

section \<open>Source files and generators\<close>

record source_file =
  src_lines :: "string list"
  src_fault :: bool

type_synonym source_tree = "path \<Rightarrow> source_file option"

record emission =
  yielded :: "string list"
  seen_files :: "path list"
  raised :: "xcls option"

definition module_path :: "string \<Rightarrow> path" where
  "module_path name = name @ ''.py''"

definition ended :: "xcls option \<Rightarrow> path list \<Rightarrow> emission" where
  "ended x sn = \<lparr>yielded = [], seen_files = sn, raised = x\<rparr>"

definition yield_lines :: "string list \<Rightarrow> emission \<Rightarrow> emission" where
  "yield_lines ls e = e\<lparr>yielded := ls @ yielded e\<rparr>"

text \<open>\<^verbatim>\<open>yield from\<close> and what comes after it: an exception ends the outer generator, too.\<close>

definition yield_from :: "emission option \<Rightarrow> (path list \<Rightarrow> emission option) \<Rightarrow> emission option" where
  "yield_from r k =
     (case r of
        None \<Rightarrow> None
      | Some e \<Rightarrow>
          (case raised e of
             Some x \<Rightarrow> Some e
           | None \<Rightarrow> map_option (yield_lines (yielded e)) (k (seen_files e))))"

section \<open>Reading a file\<close>

text \<open>
  The loop over the names of one import and the loop over the lines of one file, for a reader
  \<open>rd\<close> of the modules that are inlined.
\<close>

fun inline_modules ::
    "(string \<Rightarrow> path list \<Rightarrow> emission option) \<Rightarrow> string \<Rightarrow> string list \<Rightarrow> path list \<Rightarrow> emission option"
where
  "inline_modules rd indent [] sn = Some (ended None sn)"
| "inline_modules rd indent (m # ms) sn =
     yield_from (map_option (\<lambda>e. e\<lparr>yielded := reindent indent (yielded e)\<rparr>) (rd m sn))
       (inline_modules rd indent ms)"

fun read_lines ::
    "(string \<Rightarrow> path list \<Rightarrow> emission option) \<Rightarrow> bool \<Rightarrow> scan \<Rightarrow> string list \<Rightarrow> path list
      \<Rightarrow> emission option"
where
  "read_lines rd fault sc [] sn =
     Some (ended (if fault then Some CUnicodeDecodeError else None) sn)"
| "read_lines rd fault sc (l # ls) sn =
     (case scan_line sc l of
        (Skip, sc') \<Rightarrow> read_lines rd fault sc' ls sn
      | (Emit t, sc') \<Rightarrow> map_option (yield_lines [t]) (read_lines rd fault sc' ls sn)
      | (Inline indent ms, sc') \<Rightarrow>
          yield_from (inline_modules rd indent ms sn) (read_lines rd fault sc' ls))"

text \<open>
  \<^verbatim>\<open>_read_file\<close>. The recursion is bounded by fuel; \<open>None\<close> is a recursion that did not end within
  it. Opening a file that does not exist fails with \<^verbatim>\<open>ENOENT\<close>.
\<close>

fun read_file :: "nat \<Rightarrow> source_tree \<Rightarrow> path \<Rightarrow> path list \<Rightarrow> emission option" where
  "read_file 0 t p sn = None"
| "read_file (Suc n) t p sn =
     (if p \<in> set sn then Some (ended None sn)
      else
        case t p of
          None \<Rightarrow> Some (ended (Some (COSError ENOENT)) (sn @ [p]))
        | Some f \<Rightarrow>
            read_lines (\<lambda>m. read_file n t (module_path m)) (src_fault f) fresh_scan (src_lines f)
              (sn @ [p]))"

section \<open>Writing the combined file\<close>

definition future_line :: string where
  "future_line = ''from __future__ import annotations'' @ [newline]"

definition text_template :: "string \<Rightarrow> string" where
  "text_template s =
     replicate 3 CHR 0x27 @ [newline] @ s @ [newline] @ replicate 3 CHR 0x27 @ [newline, newline]"

text \<open>
  The writes of \<^verbatim>\<open>combine\<close>: the text in the output file when the \<^verbatim>\<open>with\<close> block is left, and the
  exception that left it. \<open>docs\<close> reads a documentation file of the base directory.
\<close>

definition combine :: "nat \<Rightarrow> source_tree \<Rightarrow> (path \<Rightarrow> xcls + string) \<Rightarrow> (string \<times> xcls option) option" where
  "combine n t docs =
     (case docs ''README.rst'' of
        Inl x \<Rightarrow> Some (future_line, Some x)
      | Inr readme \<Rightarrow>
          (case docs ''LICENSE'' of
             Inl x \<Rightarrow> Some (future_line @ text_template readme, Some x)
           | Inr license \<Rightarrow>
               map_option
                 (\<lambda>e. (future_line @ text_template readme @ text_template license
                         @ concat (yielded e), raised e))
                 (read_file n t ''__init__.py'' [])))"

section \<open>The command\<close>

text \<open>
  What \<^verbatim>\<open>combine\<close> runs when the file is written. \<open>child\<close> is the exception with which
  \<^verbatim>\<open>subprocess.run\<close> ends, if any; the exit status is not looked at. A missing \<^verbatim>\<open>ruff\<close> only
  leaves the formatting out, every other exception of the two runs of \<^verbatim>\<open>ruff\<close> propagates.
\<close>

datatype tool = RuffFormat | RuffFix | RunOutput

fun run_tools :: "(tool \<Rightarrow> xcls option) \<Rightarrow> tool list \<Rightarrow> tool list \<times> xcls option" where
  "run_tools child [] = ([], None)"
| "run_tools child (c # cs) =
     (case child c of
        Some x \<Rightarrow> ([c], Some x)
      | None \<Rightarrow> (case run_tools child cs of (done_tools, x) \<Rightarrow> (c # done_tools, x)))"

definition finish_combine :: "(tool \<Rightarrow> xcls option) \<Rightarrow> tool list \<times> xcls option" where
  "finish_combine child =
     (case run_tools child [RuffFormat, RuffFix] of
        (started, Some x) \<Rightarrow>
          if is_FileNotFoundError x then (started @ [RunOutput], child RunOutput) else (started, Some x)
      | (started, None) \<Rightarrow> (started @ [RunOutput], child RunOutput))"

text \<open>
  The subcommand: the text of the output file, the programs that were started, the exception. And
  \<^verbatim>\<open>main\<close>, for the argument parser \<open>parse_args\<close> of the standard library, which gives the path of
  the output file or raises \<^verbatim>\<open>SystemExit\<close>.
\<close>

definition combine_command ::
    "nat \<Rightarrow> source_tree \<Rightarrow> (path \<Rightarrow> xcls + string) \<Rightarrow> (tool \<Rightarrow> xcls option)
      \<Rightarrow> (string \<times> tool list \<times> xcls option) option"
where
  "combine_command n t docs child =
     (case combine n t docs of
        None \<Rightarrow> None
      | Some (txt, Some x) \<Rightarrow> Some (txt, [], Some x)
      | Some (txt, None) \<Rightarrow> Some (txt, finish_combine child))"

definition combine_main ::
    "(string list \<Rightarrow> xcls + path) \<Rightarrow> nat \<Rightarrow> source_tree \<Rightarrow> (path \<Rightarrow> xcls + string)
      \<Rightarrow> (path \<Rightarrow> tool \<Rightarrow> xcls option) \<Rightarrow> string list
      \<Rightarrow> (path option \<times> string \<times> tool list \<times> xcls option) option"
where
  "combine_main parse_args n t docs child argv =
     (case parse_args argv of
        Inl x \<Rightarrow> Some (None, [], [], Some x)
      | Inr output_file \<Rightarrow>
          map_option (Pair (Some output_file)) (combine_command n t docs (child output_file)))"

section \<open>The import graph\<close>

text \<open>What the lines of a file make the generator do does not depend on the modules it reads.\<close>

fun line_actions :: "scan \<Rightarrow> string list \<Rightarrow> line_action list" where
  "line_actions sc [] = []"
| "line_actions sc (l # ls) = (case scan_line sc l of (a, sc') \<Rightarrow> a # line_actions sc' ls)"

fun action_targets :: "line_action \<Rightarrow> path set" where
  "action_targets (Inline indent ms) = module_path ` set ms"
| "action_targets _ = {}"

fun own_lines :: "line_action list \<Rightarrow> nat" where
  "own_lines [] = 0"
| "own_lines (Emit t # as) = Suc (own_lines as)"
| "own_lines (_ # as) = own_lines as"

definition file_actions :: "source_tree \<Rightarrow> path \<Rightarrow> line_action list" where
  "file_actions t p = (case t p of None \<Rightarrow> [] | Some f \<Rightarrow> line_actions fresh_scan (src_lines f))"

definition imported_files :: "source_tree \<Rightarrow> path \<Rightarrow> path set" where
  "imported_files t p = \<Union> (action_targets ` set (file_actions t p))"

definition import_graph :: "source_tree \<Rightarrow> (path \<times> path) set" where
  "import_graph t = {(p, q). q \<in> imported_files t p}"

definition emitted_from :: "source_tree \<Rightarrow> string \<Rightarrow> bool" where
  "emitted_from t l \<longleftrightarrow>
     (\<exists>f\<in>ran t. \<exists>s\<in>set (src_lines f). \<exists>sc sc' ind x.
        scan_line sc s = (Emit x, sc') \<and> module_path ` set (inlined sc) \<subseteq> dom t \<and>
        list_all py_space ind \<and> l = ind @ x)"

end
