(* ===== verification/CombineFacts.thy ===== *)
theory CombineFacts
  imports Combine
begin

text \<open>
  Correctness of the \<^verbatim>\<open>combine\<close> script. The locale \<open>module_reader\<close> is the contract of the
  recursive call of \<^verbatim>\<open>_read_file\<close>: what it enters into \<^verbatim>\<open>seen_files\<close> is new and reachable by
  imports, and when it does not raise, everything imported from there has been entered and the
  lines it yields are exactly the lines those modules contribute themselves. The lemmas of the
  loops are proved under the contract; the fuelled \<^const>\<open>read_file\<close> satisfies it.
\<close>

section \<open>What a generator has explored\<close>

definition explored :: "source_tree \<Rightarrow> path list \<Rightarrow> path set \<Rightarrow> nat \<Rightarrow> emission \<Rightarrow> bool" where
  "explored t sn roots k e \<longleftrightarrow>
     (\<exists>new. seen_files e = sn @ new \<and> distinct new \<and> set new \<inter> set sn = {} \<and>
        (\<forall>q\<in>set new. \<exists>r\<in>roots. (r, q) \<in> (import_graph t)\<^sup>*) \<and>
        (\<forall>l\<in>set (yielded e). emitted_from t l) \<and>
        (raised e = None \<longrightarrow> roots \<subseteq> set (seen_files e) \<and> set new \<subseteq> dom t \<and>
           (\<forall>q\<in>set new. imported_files t q \<subseteq> set (seen_files e)) \<and>
           length (yielded e) = k + (\<Sum>q\<leftarrow>new. own_lines (file_actions t q))))"

lemma yielded_seen_raised [simp]:
  "yielded (ended x sn) = []" "seen_files (ended x sn) = sn" "raised (ended x sn) = x"
  "yielded (yield_lines ls e) = ls @ yielded e" "seen_files (yield_lines ls e) = seen_files e"
  "raised (yield_lines ls e) = raised e"
  by (simp_all add: ended_def yield_lines_def)

lemma explored_ended [simp]: "explored t sn {} 0 (ended x sn)"
  by (simp add: explored_def)

lemma explored_raised:
  "explored t sn A j e \<Longrightarrow> raised e \<noteq> None \<Longrightarrow> A \<subseteq> B \<Longrightarrow> explored t sn B k e"
  unfolding explored_def by (elim exE conjE, rule exI) (auto 0 3)

lemma explored_in_dom:
  "explored t sn A k e \<Longrightarrow> raised e = None \<Longrightarrow> set sn \<subseteq> dom t \<Longrightarrow> set (seen_files e) \<subseteq> dom t"
  by (auto simp: explored_def)

lemma explored_grows: "explored t sn A k e \<Longrightarrow> set sn \<subseteq> set (seen_files e)"
  by (auto simp: explored_def)

lemma explored_roots: "explored t sn A k e \<Longrightarrow> raised e = None \<Longrightarrow> A \<subseteq> set (seen_files e)"
  by (auto simp: explored_def)

lemma explored_append:
  assumes "explored t sn A j e" "raised e = None" "explored t (seen_files e) B k e'"
  shows "explored t sn (A \<union> B) (j + k) (yield_lines (yielded e) e')"
proof -
  from assms(1,2) obtain new where new: "seen_files e = sn @ new" "distinct new"
    "set new \<inter> set sn = {}" "\<forall>q\<in>set new. \<exists>r\<in>A. (r, q) \<in> (import_graph t)\<^sup>*"
    "\<forall>l\<in>set (yielded e). emitted_from t l" "A \<subseteq> set (seen_files e)" "set new \<subseteq> dom t"
    "\<forall>q\<in>set new. imported_files t q \<subseteq> set (seen_files e)"
    "length (yielded e) = j + (\<Sum>q\<leftarrow>new. own_lines (file_actions t q))"
    by (auto simp: explored_def)
  from assms(3) obtain new' where new': "seen_files e' = seen_files e @ new'" "distinct new'"
    "set new' \<inter> set (seen_files e) = {}" "\<forall>q\<in>set new'. \<exists>r\<in>B. (r, q) \<in> (import_graph t)\<^sup>*"
    "\<forall>l\<in>set (yielded e'). emitted_from t l"
    and closed: "raised e' = None \<longrightarrow> B \<subseteq> set (seen_files e') \<and> set new' \<subseteq> dom t \<and>
      (\<forall>q\<in>set new'. imported_files t q \<subseteq> set (seen_files e')) \<and>
      length (yielded e') = k + (\<Sum>q\<leftarrow>new'. own_lines (file_actions t q))"
    unfolding explored_def by (elim exE conjE) (rule that)
  show ?thesis
    unfolding explored_def
  proof (rule exI [of _ "new @ new'"], intro conjI impI)
    assume "raised (yield_lines (yielded e) e') = None"
    with closed have ok: "B \<subseteq> set (seen_files e')" "set new' \<subseteq> dom t"
      "\<forall>q\<in>set new'. imported_files t q \<subseteq> set (seen_files e')"
      "length (yielded e') = k + (\<Sum>q\<leftarrow>new'. own_lines (file_actions t q))" by simp_all
    show "A \<union> B \<subseteq> set (seen_files (yield_lines (yielded e) e'))"
      using ok new new' by auto
    show "\<forall>q\<in>set (new @ new'). imported_files t q \<subseteq> set (seen_files (yield_lines (yielded e) e'))"
      using ok(3) new(8) new'(1) by auto
    show "set (new @ new') \<subseteq> dom t" using ok(2) new(7) by simp
    show "length (yielded (yield_lines (yielded e) e'))
        = j + k + (\<Sum>q\<leftarrow>new @ new'. own_lines (file_actions t q))"
      using ok(4) new(9) by simp
  qed (use new new' in \<open>auto 0 3\<close>)
qed

lemma explored_yield_from:
  assumes "yield_from r k = Some e"
    and "\<And>e. r = Some e \<Longrightarrow> explored t sn A i e"
    and "\<And>e e'. r = Some e \<Longrightarrow> raised e = None \<Longrightarrow> k (seen_files e) = Some e'
           \<Longrightarrow> explored t (seen_files e) B j e'"
  shows "explored t sn (A \<union> B) (i + j) e"
proof -
  from assms(1) obtain e0 where r: "r = Some e0" by (cases r) (auto simp: yield_from_def)
  show ?thesis
  proof (cases "raised e0")
    case None
    with assms(1) r obtain e' where "k (seen_files e0) = Some e'" "e = yield_lines (yielded e0) e'"
      by (auto simp: yield_from_def)
    with explored_append [OF assms(2) [OF r] None] assms(3) [OF r None] show ?thesis by simp
  next
    case (Some x)
    with assms(1) r have "e = e0" by (simp add: yield_from_def)
    with explored_raised [OF assms(2) [OF r]] Some show ?thesis by simp
  qed
qed

section \<open>Lines\<close>

lemma set_fold_insert: "set (fold List.insert xs ys) = set xs \<union> set ys"
  by (induction xs arbitrary: ys) auto

lemma scan_line_names:
  "scan_line sc l = (Skip, sc') \<Longrightarrow> inlined sc' = inlined sc"
  "scan_line sc l = (Emit x, sc') \<Longrightarrow> inlined sc' = inlined sc"
  "scan_line sc l = (Inline ind ms, sc') \<Longrightarrow> set (inlined sc') = set ms \<union> set (inlined sc)"
  by (auto simp: scan_line_def Let_def set_fold_insert split: if_splits option.splits prod.splits)

lemma leading_space: "list_all py_space (take (length l - length (dropWhile py_space l)) l)"
  by (induction l) (auto simp: Suc_diff_le length_dropWhile_le)

lemma scan_line_indent: "scan_line sc l = (Inline ind ms, sc') \<Longrightarrow> list_all py_space ind"
  using leading_space
  by (auto simp: scan_line_def Let_def split: if_splits option.splits prod.splits)

lemma emitted_from_indented: "emitted_from t l \<Longrightarrow> list_all py_space ind \<Longrightarrow> emitted_from t (ind @ l)"
proof -
  assume ind: "list_all py_space ind" and "emitted_from t l"
  then obtain f s sc sc' ind' x where src: "f \<in> ran t" "s \<in> set (src_lines f)"
    "scan_line sc s = (Emit x, sc')" "module_path ` set (inlined sc) \<subseteq> dom t"
    "list_all py_space ind'" "l = ind' @ x"
    unfolding emitted_from_def by blast
  moreover have "ind @ l = (ind @ ind') @ x" "list_all py_space (ind @ ind')"
    using src ind by simp_all
  ultimately show "emitted_from t (ind @ l)"
    unfolding emitted_from_def by blast
qed

lemma explored_reindent:
  assumes "explored t sn A k e" "list_all py_space ind"
  shows "explored t sn A k (e\<lparr>yielded := reindent ind (yielded e)\<rparr>)"
  using assms emitted_from_indented unfolding explored_def reindent_def by (auto 0 3)

section \<open>The loops, under the contract of the recursive call\<close>

locale module_reader =
  fixes t :: source_tree and rd :: "string \<Rightarrow> path list \<Rightarrow> emission option"
  assumes reads: "rd m sn = Some e \<Longrightarrow> set sn \<subseteq> dom t \<Longrightarrow> explored t sn {module_path m} 0 e"
begin

lemma inline_explored:
  "inline_modules rd ind ms sn = Some e \<Longrightarrow> set sn \<subseteq> dom t \<Longrightarrow> list_all py_space ind
   \<Longrightarrow> explored t sn (module_path ` set ms) 0 e"
proof (induction ms arbitrary: sn e)
  case (Cons m ms)
  have "explored t sn ({module_path m} \<union> module_path ` set ms) (0 + 0) e"
  proof (rule explored_yield_from [OF Cons.prems(1) [unfolded inline_modules.simps]])
    fix e' assume "map_option (\<lambda>e. e\<lparr>yielded := reindent ind (yielded e)\<rparr>) (rd m sn) = Some e'"
    then show first: "explored t sn {module_path m} 0 e'"
      using explored_reindent reads Cons.prems(2,3) by auto
    fix e'' assume "raised e' = None" "inline_modules rd ind ms (seen_files e') = Some e''"
    with Cons.IH explored_in_dom [OF first] Cons.prems(2,3)
    show "explored t (seen_files e') (module_path ` set ms) 0 e''" by blast
  qed
  then show ?case by simp
qed auto

lemma read_lines_explored:
  assumes f: "f \<in> ran t"
  shows "read_lines rd fault sc ls sn = Some e \<Longrightarrow> set ls \<subseteq> set (src_lines f) \<Longrightarrow> set sn \<subseteq> dom t
   \<Longrightarrow> module_path ` set (inlined sc) \<subseteq> dom t
   \<Longrightarrow> explored t sn (\<Union> (action_targets ` set (line_actions sc ls))) (own_lines (line_actions sc ls)) e"
proof (induction ls arbitrary: sc sn e)
  case (Cons l ls)
  obtain a sc' where step: "scan_line sc l = (a, sc')" by fastforce
  show ?case
  proof (cases a)
    case Skip
    with Cons step scan_line_names(1) show ?thesis by auto
  next
    case (Emit x)
    with Cons.prems(1) step obtain e' where e': "read_lines rd fault sc' ls sn = Some e'"
      "e = yield_lines [x] e'" by auto
    have "explored t sn (\<Union> (action_targets ` set (line_actions sc' ls)))
        (own_lines (line_actions sc' ls)) e'"
      using Cons.IH [OF e'(1)] Cons.prems(2-4) step Emit scan_line_names(2) by simp
    moreover have "emitted_from t x"
      unfolding emitted_from_def
      using f step Emit Cons.prems(2,4) by (intro bexI exI [of _ "[]"] exI conjI) auto
    ultimately show ?thesis
      using e'(2) Emit step unfolding explored_def by (auto 0 3)
  next
    case (Inline ind ms)
    have "explored t sn (module_path ` set ms \<union> \<Union> (action_targets ` set (line_actions sc' ls)))
        (0 + own_lines (line_actions sc' ls)) e"
    proof (rule explored_yield_from)
      show "yield_from (inline_modules rd ind ms sn) (read_lines rd fault sc' ls) = Some e"
        using Cons.prems(1) step Inline by simp
      fix e' assume "inline_modules rd ind ms sn = Some e'"
      then show first: "explored t sn (module_path ` set ms) 0 e'"
        using inline_explored Cons.prems(3) scan_line_indent step Inline by blast
      fix e'' assume ok: "raised e' = None" and rest: "read_lines rd fault sc' ls (seen_files e') = Some e''"
      note dom = explored_in_dom [OF first ok Cons.prems(3)]
      have "module_path ` set (inlined sc') \<subseteq> dom t"
        using explored_roots [OF first ok] dom Cons.prems(4) step Inline scan_line_names(3) by auto
      with Cons.IH [OF rest] Cons.prems(2) dom
      show "explored t (seen_files e') (\<Union> (action_targets ` set (line_actions sc' ls)))
          (own_lines (line_actions sc' ls)) e''" by simp
    qed
    with step Inline show ?thesis by simp
  qed
qed auto

end

section \<open>Termination of the loops\<close>

text \<open>The loops return when the recursive call does, on every larger set of files.\<close>

locale returning_reader = module_reader +
  fixes sn0 :: "path list"
  assumes returns: "set sn0 \<subseteq> set sn \<Longrightarrow> set sn \<subseteq> dom t \<Longrightarrow> \<exists>e. rd m sn = Some e"
begin

lemma inline_returns:
  assumes "list_all py_space ind"
  shows "set sn0 \<subseteq> set sn \<Longrightarrow> set sn \<subseteq> dom t \<Longrightarrow> \<exists>e. inline_modules rd ind ms sn = Some e"
proof (induction ms arbitrary: sn)
  case (Cons m ms)
  from returns [OF Cons.prems] obtain e where e: "rd m sn = Some e" by blast
  show ?case
  proof (cases "raised e")
    case None
    note first = reads [OF e Cons.prems(2)]
    from Cons.IH [of "seen_files e"] explored_in_dom [OF first None Cons.prems(2)] explored_grows [OF first]
      Cons.prems(1) obtain e' where "inline_modules rd ind ms (seen_files e) = Some e'" by blast
    with e None show ?thesis by (simp add: yield_from_def)
  qed (use e in \<open>simp add: yield_from_def\<close>)
qed simp

lemma read_lines_returns:
  "set sn0 \<subseteq> set sn \<Longrightarrow> set sn \<subseteq> dom t \<Longrightarrow> \<exists>e. read_lines rd fault sc ls sn = Some e"
proof (induction ls arbitrary: sc sn)
  case (Cons l ls)
  obtain a sc' where step: "scan_line sc l = (a, sc')" by fastforce
  show ?case
  proof (cases a)
    case (Inline ind ms)
    note ind = scan_line_indent [OF step [unfolded Inline]]
    from inline_returns [OF ind Cons.prems] obtain e where e: "inline_modules rd ind ms sn = Some e"
      by blast
    show ?thesis
    proof (cases "raised e")
      case None
      note first = inline_explored [OF e Cons.prems(2) ind]
      from Cons.IH [of "seen_files e" sc'] explored_in_dom [OF first None Cons.prems(2)]
        explored_grows [OF first] Cons.prems(1)
      obtain e' where "read_lines rd fault sc' ls (seen_files e) = Some e'" by blast
      with e None step Inline show ?thesis by (simp add: yield_from_def)
    qed (use e step Inline in \<open>simp add: yield_from_def\<close>)
  qed (use Cons step in auto)
qed simp

end

section \<open>Reading a file\<close>

lemma read_file_explored:
  "read_file n t p sn = Some e \<Longrightarrow> set sn \<subseteq> dom t \<Longrightarrow> explored t sn {p} 0 e"
proof (induction n arbitrary: p sn e)
  case (Suc n)
  have rd: "module_reader t (\<lambda>m. read_file n t (module_path m))"
    by unfold_locales (rule Suc.IH)
  consider "p \<in> set sn" | "p \<notin> set sn" "t p = None" | f where "p \<notin> set sn" "t p = Some f"
    by fastforce
  then show ?case
  proof cases
    case 1
    with Suc.prems(1) show ?thesis by (auto simp: explored_def)
  next
    case 2
    with Suc.prems(1) show ?thesis by (auto simp: explored_def)
  next
    case 3
    then have targets: "\<Union> (action_targets ` set (line_actions fresh_scan (src_lines f))) = imported_files t p"
      and own: "own_lines (line_actions fresh_scan (src_lines f)) = own_lines (file_actions t p)"
      by (simp_all add: imported_files_def file_actions_def)
    have "explored t (sn @ [p]) (imported_files t p) (own_lines (file_actions t p)) e"
      using module_reader.read_lines_explored [OF rd ranI [of t p f], of "src_fault f" fresh_scan
          "src_lines f" "sn @ [p]" e] 3 Suc.prems targets own
      by (auto simp: fresh_scan_def)
    then obtain new where new: "seen_files e = (sn @ [p]) @ new" "distinct new"
      "set new \<inter> set (sn @ [p]) = {}"
      and reach: "\<forall>q\<in>set new. \<exists>r\<in>imported_files t p. (r, q) \<in> (import_graph t)\<^sup>*"
      and origin: "\<forall>l\<in>set (yielded e). emitted_from t l"
      and fin: "raised e = None \<longrightarrow> imported_files t p \<subseteq> set (seen_files e) \<and> set new \<subseteq> dom t \<and>
        (\<forall>q\<in>set new. imported_files t q \<subseteq> set (seen_files e)) \<and>
        length (yielded e) = own_lines (file_actions t p) + (\<Sum>q\<leftarrow>new. own_lines (file_actions t q))"
      unfolding explored_def by (elim exE conjE) (rule that)
    have "(p, q) \<in> (import_graph t)\<^sup>*" if "q \<in> set new" for q
      using that reach by (auto simp: import_graph_def intro: converse_rtrancl_into_rtrancl)
    with new origin fin 3 show ?thesis
      unfolding explored_def by (intro exI [of _ "p # new"] conjI impI) auto
  qed
qed simp

interpretation rf: module_reader t "\<lambda>m. read_file n t (module_path m)" for t n
  by unfold_locales (rule read_file_explored)

lemma read_file_returns:
  assumes fin: "finite (dom t)"
  shows "card (dom t - set sn) < n \<Longrightarrow> set sn \<subseteq> dom t \<Longrightarrow> \<exists>e. read_file n t p sn = Some e"
proof (induction n arbitrary: p sn)
  case (Suc n)
  consider "p \<in> set sn" | "p \<notin> set sn" "t p = None" | f where "p \<notin> set sn" "t p = Some f"
    by fastforce
  then show ?case
  proof cases
    case 3
    then have p: "p \<in> dom t - set sn" by auto
    have "returning_reader t (\<lambda>m. read_file n t (module_path m)) (sn @ [p])"
    proof unfold_locales
      fix sn' m assume sn': "set (sn @ [p]) \<subseteq> set sn'" "set sn' \<subseteq> dom t"
      have "dom t - set sn' \<subset> dom t - set sn" using p sn' by auto
      with fin Suc.prems(1) have "card (dom t - set sn') < n"
        by (meson finite_Diff less_le_trans less_Suc_eq_le psubset_card_mono)
      with Suc.IH sn'(2) show "\<exists>e. read_file n t (module_path m) sn' = Some e" by blast
    qed
    from returning_reader.read_lines_returns [OF this, of "sn @ [p]"] 3 p Suc.prems(2)
    show ?thesis by auto
  qed auto
qed simp

interpretation tree_reader: returning_reader "map_of fs"
  "\<lambda>m. read_file (Suc (length fs)) (map_of fs) (module_path m)" "[]" for fs
proof unfold_locales
  fix sn m assume "set sn \<subseteq> dom (map_of fs :: source_tree)"
  moreover have "card (dom (map_of fs) - set sn) < Suc (length fs)"
  proof -
    have "card (dom (map_of fs) - set sn) \<le> card (set (map fst fs))"
      by (intro card_mono) (auto simp: dom_map_of_conv_image_fst)
    also have "\<dots> \<le> length fs" using card_length [of "map fst fs"] by simp
    finally show ?thesis by simp
  qed
  ultimately show "\<exists>e. read_file (Suc (length fs)) (map_of fs) (module_path m) sn = Some e"
    by (intro read_file_returns finite_dom_map_of)
qed

section \<open>Properties\<close>

lemma init_explored:
  "read_file n t p [] = Some e \<Longrightarrow> raised e = None \<Longrightarrow>
     distinct (seen_files e) \<and> p \<in> set (seen_files e) \<and>
     (\<forall>q\<in>set (seen_files e). (p, q) \<in> (import_graph t)\<^sup>* \<and> imported_files t q \<subseteq> set (seen_files e)) \<and>
     length (yielded e) = (\<Sum>q\<leftarrow>seen_files e. own_lines (file_actions t q))"
  using read_file_explored [of n t p "[]" e] by (auto simp: explored_def)

lemma seen_files_reachable:
  assumes "read_file n t p [] = Some e" "raised e = None"
  shows "set (seen_files e) = {q. (p, q) \<in> (import_graph t)\<^sup>*}"
proof
  show "{q. (p, q) \<in> (import_graph t)\<^sup>*} \<subseteq> set (seen_files e)"
  proof
    fix q assume "q \<in> {q. (p, q) \<in> (import_graph t)\<^sup>*}"
    then have "(p, q) \<in> (import_graph t)\<^sup>*" by simp
    then show "q \<in> set (seen_files e)"
      by (induction rule: rtrancl_induct) (use init_explored [OF assms] in \<open>auto simp: import_graph_def\<close>)
  qed
qed (use init_explored [OF assms] in auto)



text \<open>
  C38: Circular imports do not make \<^verbatim>\<open>combine\<close> loop: on a finite source tree the recursion of
  \<^verbatim>\<open>_read_file\<close> ends, nested at most one level deeper than there are modules.
\<close>

theorem combine_terminates:
  assumes "finite (dom t)" "card (dom t) < n"
  shows "\<exists>e. read_file n t p [] = Some e"
  using read_file_returns [of t "[]" n p] assms by simp

definition plain_tree :: "source_tree \<Rightarrow> bool" where
  "plain_tree t \<longleftrightarrow> (\<forall>p\<in>dom t. \<exists>m. p = module_path m \<and> plain_name m)"

lemma plain_tree_names:
  "plain_tree t \<Longrightarrow> module_path ` set ns \<subseteq> dom t \<Longrightarrow> \<forall>n\<in>set ns. plain_name n"
proof
  fix n assume "plain_tree t" "module_path ` set ns \<subseteq> dom t" "n \<in> set ns"
  then obtain m where "module_path n = module_path m" "plain_name m"
    unfolding plain_tree_def by blast
  then show "plain_name n" by (simp add: module_path_def)
qed

lemma emitted_without_future:
  assumes "plain_tree t" "emitted_from t l"
  shows "\<not> sublist ''__future__'' l"
proof
  assume sub: "sublist ''__future__'' l"
  from assms(2) obtain s sc sc' ind x where l: "scan_line sc s = (Emit x, sc')"
    "module_path ` set (inlined sc) \<subseteq> dom t" "list_all py_space ind" "l = ind @ x"
    unfolding emitted_from_def by blast
  have word: "word_text ''__future__''" by (simp add: word_char_def)
  with sub l(3,4) have "sublist ''__future__'' x" using word_after_spaces by blast
  moreover from l(1) have "x = clean_line (inlined sc) s" and free: "\<not> sublist ''__future__'' s"
    by (auto simp: scan_line_def Let_def split: if_splits option.splits prod.splits)
  ultimately have "sublist ''__future__'' s"
    using clean_line_word [OF plain_tree_names [OF assms(1) l(2)] word] by simp
  with free show False ..
qed

text \<open>
  C39: No line that \<^verbatim>\<open>_read_file\<close> yields mentions \<^verbatim>\<open>__future__\<close>, so the import that
  \<^verbatim>\<open>combine\<close> writes first stays the only one; removing qualifiers cannot create one either.
  The file names are identifiers followed by \<^verbatim>\<open>.py\<close>.
\<close>

theorem combine_single_future_import:
  assumes "plain_tree t" "read_file n t p [] = Some e" "l \<in> set (yielded e)"
  shows "\<not> sublist ''__future__'' l"
  using read_file_explored [OF assms(2)] emitted_without_future [OF assms(1)] assms(3)
  by (auto simp: explored_def)

text \<open>
  C40: After \<^verbatim>\<open>_clean_line\<close> no reference qualified with an inlined module is left in the line, at
  no word boundary: those modules do not exist in the combined file.
\<close>

theorem clean_line_unqualified:
  assumes "\<forall>n\<in>set names. plain_name n"
  shows "unqualified names False (clean_line names l)"
  by (rule clean_line_without_qualifiers [OF assms])

section \<open>Imports that are not inlined\<close>

text \<open>
  A relative import with its names in parentheses on one line is copied as it is, whatever it
  imports: the pattern allows no closing parenthesis on the line.
\<close>

lemma drop_useless_assignment_shape:
  assumes "drop_useless_assignment l \<noteq> l"
  shows "\<exists>n r. list_all word_char n \<and> n \<noteq> [] \<and> l = n @ '' = '' @ n @ newline # r \<and> (r = [] \<or> r = [newline])"
proof -
  define n where "n = takeWhile word_char l"
  define whole where "whole = n @ '' = '' @ n @ [newline]"
  from assms have n: "n \<noteq> []" and pre: "prefix whole l"
    and rest: "drop (length whole) l = [] \<or> drop (length whole) l = [newline]"
    by (auto simp only: drop_useless_assignment_def Let_def n_def whole_def split: if_splits)
  from pre have "l = whole @ drop (length whole) l" by (auto elim!: prefixE)
  then have "l = n @ '' = '' @ n @ newline # drop (length whole) l" by (simp add: whole_def)
  moreover have "list_all word_char n" by (auto simp: n_def list_all_iff dest: set_takeWhileD)
  ultimately show ?thesis using n rest by blast
qed

lemma closed_line_not_useless: "drop_useless_assignment (x @ '')'' @ [newline]) = x @ '')'' @ [newline]"
proof -
  let ?l = "x @ '')'' @ [newline]"
  have False if w: "list_all word_char n" "n \<noteq> []" and l: "?l = n @ '' = '' @ n @ newline # r"
    "r = [] \<or> r = [newline]" for n r
  proof -
    from w obtain m c where n: "n = m @ [c]" "word_char c" by (cases n rule: rev_cases) auto
    have "x @ '')'' = butlast ?l" by (simp add: butlast_append)
    also have "\<dots> = n @ '' = '' @ n @ butlast (newline # r)" using l(1) by (simp add: butlast_append)
    finally show False using l(2) n by (auto simp: word_char_def newline_def)
  qed
  then show ?thesis using drop_useless_assignment_shape [of ?l] by blast
qed

lemma closed_import_survives:
  assumes "\<not> sublist ''__future__'' (x @ '')'' @ [newline])" and "\<not> py_space (hd (x @ '')''))"
  shows "read_file (Suc n) [p \<mapsto> \<lparr>src_lines = [x @ '')'' @ [newline]], src_fault = False\<rparr>] p []
    = Some \<lparr>yielded = [x @ '')'' @ [newline]], seen_files = [p], raised = None\<rparr>"
proof -
  have "dropWhile py_space (x @ '')'' @ [newline]) = x @ '')'' @ [newline]"
    using assms(2) by (cases x) auto
  then have "\<exists>sc. scan_line fresh_scan (x @ '')'' @ [newline]) = (Emit (x @ '')'' @ [newline]), sc)"
    using assms(1) closed_line_not_useless [of x] relative_import_closed [of x]
    by (auto simp: scan_line_def fresh_scan_def line_import_def clean_line_def Let_def)
  then show ?thesis by (auto simp: ended_def yield_lines_def)
qed

text \<open>
  \<^verbatim>\<open>from . import (\<close> with the names on the following lines is matched, but the rest of its first
  line, a newline, is taken for a name: the module of the empty name is opened.
\<close>

lemma bare_paren_import_fails:
  assumes "t p = Some \<lparr>src_lines = (''from . import ('' @ [newline]) # ls, src_fault = fault\<rparr>"
    and "t ''.py'' = None"
  shows "read_file (Suc (Suc n)) t p [] = Some (ended (Some (COSError ENOENT)) [p, ''.py''])"
proof -
  have "\<exists>sc. scan_line fresh_scan (''from . import ('' @ [newline]) = (Inline [] [[]], sc)"
    by (rule exI, code_simp)
  then obtain sc where sc: "scan_line fresh_scan (''from . import ('' @ [newline]) = (Inline [] [[]], sc)" ..
  moreover have "p \<noteq> ''.py''" using assms by auto
  ultimately show ?thesis
    using assms by (simp add: yield_from_def module_path_def reindent_def ended_def del: append_Cons)
qed

section \<open>The command\<close>

text \<open>Without \<^verbatim>\<open>ruff\<close> the output is run as it is; a \<^verbatim>\<open>ruff\<close> that times out ends the command.\<close>

lemma finish_without_ruff:
  "child RuffFormat = Some (COSError ENOENT) \<Longrightarrow>
     finish_combine child = ([RuffFormat, RunOutput], child RunOutput)"
  by (simp add: finish_combine_def is_FileNotFoundError_def)

lemma ruff_timeout_skips_run:
  "child RuffFormat = Some x \<Longrightarrow> \<not> is_FileNotFoundError x \<Longrightarrow> finish_combine child = ([RuffFormat], Some x)"
  by (simp add: finish_combine_def is_FileNotFoundError_def)

lemma failed_read_runs_nothing:
  "combine_command n t docs child = Some (txt, started, r) \<Longrightarrow> combine n t docs = Some (txt, Some x)
   \<Longrightarrow> started = [] \<and> r = Some x"
  by (simp add: combine_command_def)

end
