(* ===== verification/CombineWitnesses.thy ===== *)
theory CombineWitnesses
  imports CombineFacts
begin

text \<open>
  A package of two modules on which the properties of the \<^verbatim>\<open>combine\<close> script are applied:
  \<^verbatim>\<open>__init__.py\<close> imports \<^verbatim>\<open>a.py\<close>, which imports the package back.
\<close>

definition demo_init :: source_file where
  "demo_init = \<lparr>src_lines = [''from . import a'' @ [newline], ''x = a.y'' @ [newline]], src_fault = False\<rparr>"

definition demo_a :: source_file where
  "demo_a = \<lparr>src_lines = [''from __future__ import b'' @ [newline],
     ''from .__init__ import x'' @ [newline], ''y = 1'' @ [newline]], src_fault = False\<rparr>"

definition demo_tree :: source_tree where
  "demo_tree = [''__init__.py'' \<mapsto> demo_init, ''a.py'' \<mapsto> demo_a]"

definition demo_emission :: emission where
  "demo_emission = \<lparr>yielded = [''y = 1'' @ [newline], ''x = y'' @ [newline]],
     seen_files = [''__init__.py'', ''a.py''], raised = None\<rparr>"

lemma demo_init_lines:
  "scan_line fresh_scan (''from . import a'' @ [newline])
     = (Inline [] [''a''], fresh_scan\<lparr>from_module := Some [], inlined := [''a'']\<rparr>)"
  "scan_line (fresh_scan\<lparr>from_module := Some [], inlined := [''a'']\<rparr>) (''x = a.y'' @ [newline])
     = (Emit (''x = y'' @ [newline]), fresh_scan\<lparr>from_module := Some [], inlined := [''a'']\<rparr>)"
  by code_simp+

lemma demo_a_lines:
  "scan_line fresh_scan (''from __future__ import b'' @ [newline]) = (Skip, fresh_scan)"
  "scan_line fresh_scan (''from .__init__ import x'' @ [newline])
     = (Inline [] [''__init__''], fresh_scan\<lparr>from_module := Some ''__init__'', inlined := [''__init__'']\<rparr>)"
  "scan_line (fresh_scan\<lparr>from_module := Some ''__init__'', inlined := [''__init__'']\<rparr>) (''y = 1'' @ [newline])
     = (Emit (''y = 1'' @ [newline]), fresh_scan\<lparr>from_module := Some ''__init__'', inlined := [''__init__'']\<rparr>)"
  by code_simp+

lemma demo_run: "read_file 3 demo_tree ''__init__.py'' [] = Some demo_emission"
  by (simp add: numeral_3_eq_3 demo_tree_def demo_init_def demo_a_def demo_emission_def module_path_def
      demo_init_lines demo_a_lines yield_from_def yield_lines_def ended_def reindent_def
      del: append_Cons)

lemma demo_dom: "dom demo_tree = {''__init__.py'', ''a.py''}"
  by (auto simp: demo_tree_def)



theorem combine_terminates_witness: "\<exists>e. read_file 3 demo_tree ''a.py'' [] = Some e"
  using combine_terminates [of demo_tree 3 "''a.py''"] by (simp add: demo_dom)

lemma demo_plain: "plain_tree demo_tree"
  unfolding plain_tree_def demo_dom
proof
  fix p assume "p \<in> {''__init__.py'', ''a.py''}"
  then have "p = module_path ''__init__'' \<or> p = module_path ''a''" by (auto simp: module_path_def)
  moreover have "plain_name ''__init__''" "plain_name ''a''" by code_simp+
  ultimately show "\<exists>m. p = module_path m \<and> plain_name m" by blast
qed

theorem combine_single_future_import_witness: "\<not> sublist ''__future__'' (''x = y'' @ [newline])"
  using combine_single_future_import [OF demo_plain demo_run, of "''x = y'' @ [newline]"]
  by (simp add: demo_emission_def)

theorem clean_line_unqualified_witness:
  "unqualified [''a''] False (clean_line [''a''] ''x = a.a.y'') \<and> clean_line [''a''] ''x = a.a.y'' = ''x = y''"
proof
  show "unqualified [''a''] False (clean_line [''a''] ''x = a.a.y'')"
    by (rule clean_line_unqualified) (simp, code_simp)
  show "clean_line [''a''] ''x = a.a.y'' = ''x = y''" by code_simp
qed

end
