(* ===== verification/PackageSurface.thy ===== *)
theory PackageSurface
  imports LockFlags CombineText
begin

text \<open>
  The surface of the package. \<^verbatim>\<open>__init__.py\<close>: the names that its statements bind, with the guard
  around the optional module \<^verbatim>\<open>redis.py\<close>. \<^verbatim>\<open>__about__.py\<close>: how the version number is
  found. The installed metadata and the text of \<^verbatim>\<open>pyproject.toml\<close> are parameters.
\<close>

section \<open>Importing the package\<close>

datatype binding =
    BModule string
  | BAttr string string
  | BFlags int
  | BNone

text \<open>
  The statements in their order. \<open>redis_import\<close> is the exception with which importing
  \<^verbatim>\<open>redis.py\<close> ends, if any: an \<^verbatim>\<open>ImportError\<close> binds \<^verbatim>\<open>RedisLock\<close> to \<^verbatim>\<open>None\<close>, any other exception
  leaves the import of the package.
\<close>

definition imported_names :: "(string \<times> binding) list" where
  "imported_names =
     map (\<lambda>m. (m, BModule m)) [''__about__'', ''constants'', ''exceptions'', ''portalocker''] @
     map (\<lambda>c. (c, BAttr ''utils'' c))
       [''BoundedSemaphore'', ''Lock'', ''NamedBoundedSemaphore'', ''PidFileLock'', ''RLock'',
        ''TemporaryFileLock'', ''open_atomic'']"

definition assigned_names :: "platform \<Rightarrow> (string \<times> binding) list" where
  "assigned_names p =
     map (\<lambda>a. (a, BAttr ''__about__'' a))
       [''__package_name__'', ''__author__'', ''__email__'', ''__version__'', ''__description__'',
        ''__url__''] @
     [(''AlreadyLocked'', BAttr ''exceptions'' ''AlreadyLocked''),
      (''LockException'', BAttr ''exceptions'' ''LockException''),
      (''lock'', BAttr ''portalocker'' ''lock''), (''unlock'', BAttr ''portalocker'' ''unlock''),
      (''LOCK_EX'', BFlags (LOCK_EX p)), (''LOCK_SH'', BFlags (LOCK_SH p)),
      (''LOCK_NB'', BFlags (LOCK_NB p)), (''LOCK_UN'', BFlags (LOCK_UN p)),
      (''LockFlags'', BAttr ''constants'' ''LockFlags'')]"

definition redis_binding :: "xcls option \<Rightarrow> xcls + binding" where
  "redis_binding redis_import =
     (case redis_import of
        None \<Rightarrow> Inr (BAttr ''redis'' ''RedisLock'')
      | Some x \<Rightarrow> if issubclass x CImportError then Inr BNone else Inl x)"

definition import_package :: "platform \<Rightarrow> xcls option \<Rightarrow> xcls + (string \<times> binding) list" where
  "import_package p redis_import =
     (case redis_binding redis_import of
        Inl x \<Rightarrow> Inl x
      | Inr b \<Rightarrow> Inr (imported_names @ [(''RedisLock'', b)] @ assigned_names p))"

definition public_names :: "string list" where
  "public_names =
     [''LOCK_EX'', ''LOCK_NB'', ''LOCK_SH'', ''LOCK_UN'', ''AlreadyLocked'', ''BoundedSemaphore'',
      ''Lock'', ''LockException'', ''LockFlags'', ''NamedBoundedSemaphore'', ''PidFileLock'',
      ''RLock'', ''RedisLock'', ''TemporaryFileLock'', ''lock'', ''open_atomic'', ''unlock'']"

text \<open>
  Whatever happens to the optional module, a package that is imported binds every name of
  \<^verbatim>\<open>__all__\<close>, each once; and it is imported unless that module fails with something other than an
  \<^verbatim>\<open>ImportError\<close>.
\<close>

lemma package_names_distinct: "distinct (map fst (imported_names @ [(''RedisLock'', b)] @ assigned_names p))"
  by (simp add: imported_names_def assigned_names_def)

lemma public_names_bound:
  "import_package p r = Inr ns \<Longrightarrow> set public_names \<subseteq> set (map fst ns) \<and> distinct (map fst ns)"
  using package_names_distinct
  by (auto simp: import_package_def public_names_def imported_names_def assigned_names_def
      split: sum.splits)

lemma package_without_redis:
  "\<exists>ns. import_package p (Some CImportError) = Inr ns \<and> map_of ns ''RedisLock'' = Some BNone"
  by (simp add: import_package_def redis_binding_def issubclass.simps imported_names_def)

lemma broken_redis_breaks_package:
  "\<not> issubclass x CImportError \<Longrightarrow> import_package p (Some x) = Inl x"
  by (simp add: import_package_def redis_binding_def)

section \<open>The version number\<close>

text \<open>
  \<^verbatim>\<open>re.search\<close> with the flags \<^verbatim>\<open>m\<close> and \<^verbatim>\<open>s\<close>: \<^verbatim>\<open>^\<close> matches at the start of every line, and the lazy
  \<^verbatim>\<open>.*?\<close> runs over newlines. The pattern of a line start is a function of what follows.
\<close>

fun at_line_start :: "(string \<Rightarrow> 'a option) \<Rightarrow> bool \<Rightarrow> string \<Rightarrow> 'a option" where
  "at_line_start f bol [] = (if bol then f [] else None)"
| "at_line_start f bol (c # cs) =
     (case (if bol then f (c # cs) else None) of
        Some x \<Rightarrow> Some x
      | None \<Rightarrow> at_line_start f (c = newline) cs)"

definition quote_char :: "char \<Rightarrow> bool" where
  "quote_char c \<longleftrightarrow> c = CHR 0x27 \<or> c = CHR 0x22"

definition quoted_text :: "string \<Rightarrow> string option" where
  "quoted_text s =
     (case s of
        [] \<Rightarrow> None
      | q # t \<Rightarrow>
          (let v = takeWhile (\<lambda>c. \<not> quote_char c) t
           in if quote_char q \<and> v \<noteq> [] \<and> length v < length t then Some v else None))"

definition version_line :: "string \<Rightarrow> string option" where
  "version_line s =
     (if prefix ''version'' s then
        (case dropWhile py_space (drop 7 s) of
           CHR ''='' # t \<Rightarrow> quoted_text (dropWhile py_space t)
         | _ \<Rightarrow> None)
      else None)"

definition project_table :: "string \<Rightarrow> string option" where
  "project_table s = (if prefix ''[project]'' s then at_line_start version_line False (drop 9 s) else None)"

text \<open>\<open>content\<close> is the text of the file, or the exception of reading it.\<close>

definition read_pyproject_version :: "xcls + string \<Rightarrow> xcls + string option" where
  "read_pyproject_version content =
     (case content of
        Inl x \<Rightarrow> if is_Exception x then Inr None else Inl x
      | Inr s \<Rightarrow> Inr (at_line_start project_table True s))"

definition get_version :: "xcls + string \<Rightarrow> xcls + string \<Rightarrow> xcls + string" where
  "get_version metadata content =
     (case metadata of
        Inr v \<Rightarrow> Inr v
      | Inl x \<Rightarrow>
          if \<not> is_Exception x then Inl x
          else
            (case read_pyproject_version content of
               Inl y \<Rightarrow> Inl y
             | Inr (Some (c # cs)) \<Rightarrow> Inr (c # cs)
             | Inr _ \<Rightarrow> Inr ''0.0.0''))"

lemma get_version_falls_back:
  assumes "is_Exception x" "\<And>y. content = Inl y \<Longrightarrow> is_Exception y"
  shows "\<exists>v. get_version (Inl x) content = Inr v \<and> v \<noteq> []"
proof -
  obtain r where "read_pyproject_version content = Inr r"
    using assms(2) by (cases content) (auto simp: read_pyproject_version_def)
  with assms(1) show ?thesis
    by (cases r) (auto simp: get_version_def split: list.splits)
qed

lemma at_line_start_rest_of_line:
  "newline \<notin> set l \<Longrightarrow> at_line_start f False (l @ newline # s) = at_line_start f True s"
  by (induction l) auto

lemma at_line_start_next_line:
  assumes "newline \<notin> set l" "f (l @ newline # s) = None"
  shows "at_line_start f True (l @ newline # s) = at_line_start f True s"
  using assms at_line_start_rest_of_line [of "tl l" f s] by (cases l) auto

lemma at_line_start_hit: "f s = Some x \<Longrightarrow> at_line_start f True s = Some x"
  by (cases s) simp_all

definition version_entry :: "string \<Rightarrow> string" where
  "version_entry v = ''version = '' @ [CHR 0x22] @ v @ [CHR 0x22, newline]"

lemma version_line_entry:
  assumes "v \<noteq> []" "\<forall>c\<in>set v. \<not> quote_char c"
  shows "version_line (version_entry v @ s) = Some v"
proof -
  have "takeWhile (\<lambda>c. \<not> quote_char c) (v @ CHR 0x22 # newline # s) = v"
    using assms(2) by (subst takeWhile_append2) (auto simp: quote_char_def)
  then show ?thesis
    using assms(1)
    by (simp add: version_line_def version_entry_def quoted_text_def quote_char_def py_space_def)
qed

text \<open>
  The first entry \<^verbatim>\<open>version\<close> after the line \<^verbatim>\<open>[project]\<close> is found, whatever lines come in between.
\<close>

lemma pyproject_version_found:
  assumes "\<forall>l\<in>set mid. newline \<notin> set l \<and> \<not> prefix ''version'' (l @ [newline])"
    and "v \<noteq> []" "\<forall>c\<in>set v. \<not> quote_char c"
  shows "read_pyproject_version
      (Inr (''[project]'' @ newline # concat (map (\<lambda>l. l @ [newline]) mid) @ version_entry v @ s)) = Inr (Some v)"
proof -
  have skip: "version_line (l @ newline # r) = None" if "\<not> prefix ''version'' (l @ [newline])" for l r
  proof -
    have "\<not> prefix ''version'' (l @ newline # r)"
    proof
      assume "prefix ''version'' (l @ newline # r)"
      with that obtain us where "''version'' = l @ newline # us"
        by (auto simp: prefix_append prefix_Cons)
      then have "newline \<in> set ''version''" by (simp only: set_append list.set Un_iff insert_iff simp_thms)
      then show False by (simp add: newline_def)
    qed
    then show ?thesis by (simp add: version_line_def)
  qed
  have "at_line_start version_line True (concat (map (\<lambda>l. l @ [newline]) mid) @ version_entry v @ s) = Some v"
    using assms(1)
  proof (induction mid)
    case Nil
    show ?case by (simp add: at_line_start_hit version_line_entry [OF assms(2,3)])
  next
    case (Cons l mid)
    then show ?case
      using at_line_start_next_line [of l version_line] skip by simp
  qed
  then have "project_table (''[project]'' @ newline # concat (map (\<lambda>l. l @ [newline]) mid) @ version_entry v @ s)
      = Some v"
    by (simp add: project_table_def newline_def)
  then show ?thesis by (simp add: read_pyproject_version_def at_line_start_hit del: append_Cons)
qed

text \<open>So the entry may belong to another table.\<close>

lemma version_of_other_table:
  "read_pyproject_version (Inr (''[project]'' @ newline # ''[tool.x]'' @ newline # version_entry ''9'')) = Inr (Some ''9'')"
  using pyproject_version_found [of "[''[tool.x]'']" "''9''" "[]"]
  by (simp add: newline_def quote_char_def)

end
