(* ===== verification/Spec2Isabelle.thy ===== *)
theory Spec2Isabelle
  imports Witnesses SemaphoreWitnesses AtomicWitnesses RedisWitnesses SemaphoreLiveness WindowsFacts CombineWitnesses
    PackageSurface
begin

text \<open>
  A verification library for \<^verbatim>\<open>portalocker\<close>, the Python package of file locks.

  \<^bold>\<open>The program.\<close> \<^verbatim>\<open>portalocker.py\<close> has the thin layer over the locking calls of the platform: a
  locker class per primitive (\<^verbatim>\<open>fcntl.flock\<close>, \<^verbatim>\<open>fcntl.lockf\<close>, \<^verbatim>\<open>msvcrt.locking\<close>,
  \<^verbatim>\<open>LockFileEx\<close>) and the functions \<^verbatim>\<open>lock\<close> and \<^verbatim>\<open>unlock\<close>, which resolve the module variable
  \<^verbatim>\<open>LOCKER\<close>. \<^verbatim>\<open>utils.py\<close> builds the lock classes on it. \<^verbatim>\<open>LockBase\<close> keeps a retry policy and
  turns it into a generator of attempts; \<^verbatim>\<open>Lock\<close> opens a file and runs the locker once per
  attempt; \<^verbatim>\<open>RLock\<close> counts acquires of a \<^verbatim>\<open>Lock\<close>; \<^verbatim>\<open>TemporaryFileLock\<close> removes the file on
  release and therefore checks after locking that the path still names the locked file;
  \<^verbatim>\<open>PidFileLock\<close> publishes a process id under a sidecar \<^verbatim>\<open>Lock\<close>; the semaphores try one
  \<^verbatim>\<open>Lock\<close> per slot file. \<^verbatim>\<open>open_atomic\<close> writes a temporary file and links it to its
  destination. \<^verbatim>\<open>redis.py\<close> has a lock without files: holding it is being subscribed to a
  channel, and who may hold it is negotiated by pings between the subscribers. \<^verbatim>\<open>__main__.py\<close>
  inlines the modules of the package into one file.

  \<^bold>\<open>Effects.\<close> An action takes a pair of the object whose method runs and the world, and gives an
  outcome (a value, a raised exception, \<open>Hang\<close>) and the new pair (\<open>PyMonad\<close>; statements are
  combinators, proofs use a weakest-precondition calculus and effect relations). Exceptions are
  values with the attributes the code uses (\<open>Exceptions\<close>, for \<^verbatim>\<open>exceptions.py\<close>). The \<^verbatim>\<open>with\<close>
  statement and the contract of what it manages are in \<open>ContextManager\<close>.

  \<^bold>\<open>The system.\<close> \<open>OsModel\<close> is the file system, the file objects, the lock tables and the clock.
  Its record \<open>world\<close> has a tape of cells: before each call one cell is consumed, which holds
  whatever other processes did in between (open, lock, unlock, close, write, unlink, let time
  pass) and may make the call fail with any errno. What is proved for every tape is proved for
  every interleaving and every pattern of failures. \<open>OsFacts\<close> has the invariant of the world
  with the kernel's promise on conflicting locks, the relation \<open>rely\<close> of the other processes and
  the locales \<open>effect_relation\<close> and \<open>os_effect_relation\<close>, with which a relation between states is
  carried through a whole method; \<open>OsCalls\<close> has what each call guarantees.

  \<^bold>\<open>Theories and sources.\<close>
  \<^item> \<open>LockFlags\<close>: \<^verbatim>\<open>constants.py\<close>, the modes of \<^verbatim>\<open>types.py\<close>.
  \<^item> \<open>Lockers\<close>, \<open>LockerFacts\<close>, \<open>WindowsFacts\<close>: \<^verbatim>\<open>portalocker.py\<close>, both platform branches: error
    translation, resolution of \<^verbatim>\<open>LOCKER\<close>; every locker keeps the file object; the default
    locker on Windows reports contention and its unlock restores the state before the lock.
  \<^item> \<open>Retry\<close>: \<^verbatim>\<open>LockBase\<close>. The locale \<open>retrying\<close> is the contract between
    \<^verbatim>\<open>_timeout_generator\<close> and a loop body: the loop ends, its invariant holds at the end.
  \<^item> \<open>FileLock\<close>, \<open>FileLockFacts\<close>: the class \<^verbatim>\<open>Lock\<close>. The locale \<open>locker_contract\<close> is its view of
    the module functions \<^verbatim>\<open>lock\<close> and \<^verbatim>\<open>unlock\<close>; success, failure without leak, termination,
    release, exception of the \<^verbatim>\<open>with\<close> block.
  \<^item> \<open>MutualExclusion\<close>: any number of \<^verbatim>\<open>Lock\<close> objects, methods in any order, as a step relation
    with its invariant. \<open>Liveness\<close>: a free lock is obtained, a taken one reported at once.
  \<^item> \<open>ReentrantLock\<close>: \<^verbatim>\<open>RLock\<close> and its refinement of an abstract counter.
  \<^item> \<open>TempFileLock\<close>: \<^verbatim>\<open>TemporaryFileLock\<close>: the locked file is the one the path names; the unlink
    happens under the lock; exclusion among those who follow the protocol.
  \<^item> \<open>PidFile\<close>, \<open>PidText\<close>, \<open>PidFacts\<close>, \<open>PidRoundtrip\<close>: \<^verbatim>\<open>PidFileLock\<close> and its fail-closed
    context: ownership, failure, release; decimal text and the round trip through the file.
  \<^item> \<open>Semaphore\<close>, \<open>SlotNames\<close>, \<open>SemaphoreFacts\<close>, \<open>SemaphoreNames\<close>, \<open>SemaphoreSystem\<close>,
    \<open>SemaphoreLiveness\<close>: both semaphore classes; the locale \<open>slot_contract\<close> is their view of the slot's \<^verbatim>\<open>Lock\<close>; at most
    \<^verbatim>\<open>maximum\<close> holders in every reachable state, and a free slot is found.
  \<^item> \<open>AtomicFile\<close>, \<open>AtomicFacts\<close>: \<^verbatim>\<open>open_atomic\<close>: the destination appears with the whole text or
    not at all, and nothing is ever replaced.
  \<^item> \<open>RedisLock\<close>, \<open>RedisCalls\<close>, \<open>RedisFacts\<close>, \<open>RedisAcquire\<close>, \<open>RedisProtocol\<close>: \<^verbatim>\<open>redis.py\<close>. The first
    four treat one object against a service that answers anything; the last composes objects
    on one channel and shows mutual exclusion when rounds do not overlap, and that it is lost
    when they do.
  \<^item> \<open>CombineText\<close>, \<open>CombineTextFacts\<close>, \<open>Combine\<close>, \<open>CombineFacts\<close>: \<^verbatim>\<open>__main__.py\<close>: the regular
    expressions as functions, the classification of a line, the recursive inlining. The locale
    \<open>module_reader\<close> is the contract of the recursive call; the result has the lines of exactly
    the modules reachable by relative imports, each once.
  \<^item> \<open>PackageSurface\<close>: \<^verbatim>\<open>__init__.py\<close>, the names it binds with and without the optional module, and
    \<^verbatim>\<open>__about__.py\<close>, how the version number is found.
  \<^item> The theories named \<open>\<dots>Witnesses\<close> apply the properties at concrete inputs.

  \<^bold>\<open>Bounds and fuel.\<close> A loop over a generator is a fold with fuel, and running out of it is the
  outcome \<open>Hang\<close>. \<open>attempt_bound\<close> of \<open>Retry\<close> is enough because every round but the first two
  sleeps a millisecond at least; \<open>redis_bound\<close> of \<open>RedisLock\<close> because every round sleeps half an
  interval at least (with an interval of zero the code is a busy loop). The termination theorems
  show that \<open>Hang\<close> is not reached. A blocking call hangs when the tape ends with the lock still
  taken. \<open>read_file\<close> of \<open>Combine\<close> needs one unit more than there are modules.

  \<^bold>\<open>Parameters.\<close> The package \<^verbatim>\<open>pywin32\<close> and the package \<^verbatim>\<open>redis\<close> with its server are not part of
  the program: their answers, failures and delays are fields of the tape cell and of the
  service, over which the theorems quantify. So are random numbers and the names of temporary
  files, and for the \<^verbatim>\<open>combine\<close> script the source tree, the documentation files, the argument
  parser and the outcome of child processes; for the version number the installed metadata.

  \<^bold>\<open>Not modelled.\<close> The constants of \<^verbatim>\<open>__about__.py\<close> (author, address, description) are only named. The
  declarations of \<^verbatim>\<open>types.py\<close> other than the modes, protocols and overloads are for type
  checkers. Log messages have no effect on what follows and are left out; warnings are recorded
  where the code emits them. Directories are not modelled (\<^verbatim>\<open>mkdir\<close> does nothing), nor are text
  encodings and the further arguments of \<^verbatim>\<open>open\<close>, which the code only passes on. Threads of one process are not interleaved within a method: the handler of
  \<^verbatim>\<open>redis.py\<close> that answers pings on its own thread is an operation of its own in the sequences of
  \<open>RedisProtocol\<close>.
\<close>

end
